(* ===== verification/Prelude.thy ===== *)
theory Prelude
  imports Main "HOL-Library.Word" "HOL-Library.Product_Lexorder"
begin

text \<open>
  Shared vocabulary of the development.

  \<^item> names for the types every component uses: identifiers, instants, texts;
  \<^item> the four SQL verbs the stores are written with (SELECT, SELECT of one row, UPDATE,
    ORDER BY with LIMIT) as list functions on a table, and their laws;
  \<^item> Rust's saturating arithmetic at a fixed width;
  \<^item> \<open>transition_system\<close>, the interface through which a component turns "every operation keeps
    the invariant" into "every reachable state satisfies it".

  A ULID is a natural number: its 26-character text is fixed-width Crockford base 32, so the
  text order SQLite uses is the numeric order.  An instant is an integer number of
  nanoseconds: the stores write RFC 3339 texts in UTC, whose text order is the order of time.
  A Rust string is the list of its characters; the one character outside ASCII that the code
  inserts, the em dash, is the code 0x97 it has in Windows-1252.
\<close>

named_theorems table_simps \<open>how the SQL verbs act on the rows of a table\<close>
named_theorems sat_simps \<open>saturating arithmetic read back as natural numbers\<close>

type_synonym ulid = nat
type_synonym time = int

text \<open>Errors are values: \<open>Inl\<close> is the Rust \<open>Err\<close>, \<open>Inr\<close> the Rust \<open>Ok\<close>.\<close>

type_synonym ('e, 'a) result = "'e + 'a"

definition secs :: "int \<Rightarrow> time" where
  "secs n = n * 1000000000"

definition em_dash :: string where
  "em_dash = [CHR 0x97]"

text \<open>Rust's \<open>s.chars().take(n).collect()\<close>, guarded by a length test as the stores write it.\<close>

definition take_chars :: "nat \<Rightarrow> string \<Rightarrow> string" where
  "take_chars n s = (if length s > n then take n s else s)"

text \<open>Decimal notation of a natural number, as the formatting macros print it.\<close>

fun show_nat :: "nat \<Rightarrow> string" where
  "show_nat n = (if n < 10 then [char_of (48 + n)]
                 else show_nat (n div 10) @ [char_of (48 + n mod 10)])"

declare show_nat.simps [simp del]

lemma show_nat_digits: "c \<in> set (show_nat n) \<Longrightarrow> 48 \<le> (of_char c :: nat) \<and> of_char c \<le> (57 :: nat)"
proof (induction n rule: show_nat.induct)
  case (1 n)
  then show ?case
    by (subst (asm) (2) show_nat.simps) (auto split: if_splits simp: of_char_of)
qed

text \<open>An optional SQL filter \<open>(?1 IS NULL OR col = ?1)\<close>.\<close>

definition opt_eq :: "'a option \<Rightarrow> 'a \<Rightarrow> bool" where
  "opt_eq f x = (case f of None \<Rightarrow> True | Some y \<Rightarrow> x = y)"

subsection \<open>SQL verbs\<close>

text \<open>\<open>UPDATE t SET f WHERE P\<close>, and the number of rows it reports.\<close>

definition upd_where :: "('r \<Rightarrow> bool) \<Rightarrow> ('r \<Rightarrow> 'r) \<Rightarrow> 'r list \<Rightarrow> 'r list" where
  "upd_where P f t = map (\<lambda>r. if P r then f r else r) t"

definition rows_affected :: "('r \<Rightarrow> bool) \<Rightarrow> 'r list \<Rightarrow> nat" where
  "rows_affected P t = length (filter P t)"

text \<open>\<open>SELECT ... WHERE P ORDER BY k LIMIT 1\<close>; rows with equal keys keep the table's order.\<close>

definition select_first :: "('r \<Rightarrow> bool) \<Rightarrow> ('r \<Rightarrow> 'k::linorder) \<Rightarrow> 'r list \<Rightarrow> 'r option" where
  "select_first P k t = (case sort_key k (filter P t) of [] \<Rightarrow> None | r # _ \<Rightarrow> Some r)"

text \<open>\<open>SELECT ... WHERE P LIMIT n\<close> after \<open>ORDER BY k\<close>.\<close>

definition select_page :: "('r \<Rightarrow> bool) \<Rightarrow> ('r \<Rightarrow> 'k::linorder) \<Rightarrow> nat \<Rightarrow> 'r list \<Rightarrow> 'r list" where
  "select_page P k n t = take n (sort_key k (filter P t))"

text \<open>\<open>DELETE FROM t WHERE P\<close>.\<close>

definition del_where :: "('r \<Rightarrow> bool) \<Rightarrow> 'r list \<Rightarrow> 'r list" where
  "del_where P t = filter (\<lambda>r. \<not> P r) t"

lemma upd_where_Nil [simp]: "upd_where P f [] = []"
  by (simp add: upd_where_def)

lemma upd_where_Cons [simp]:
  "upd_where P f (r # t) = (if P r then f r else r) # upd_where P f t"
  by (simp add: upd_where_def)

lemma length_upd_where [simp]: "length (upd_where P f t) = length t"
  by (simp add: upd_where_def)

lemma set_upd_where [table_simps]:
  "set (upd_where P f t) = (\<lambda>r. if P r then f r else r) ` set t"
  by (simp add: upd_where_def)

lemma ball_upd_where:
  "(\<forall>r\<in>set (upd_where P f t). Q r) \<longleftrightarrow> (\<forall>r\<in>set t. if P r then Q (f r) else Q r)"
  by (auto simp: set_upd_where)

lemma in_upd_whereE:
  assumes "r \<in> set (upd_where P f t)"
  obtains (hit) r0 where "r0 \<in> set t" "P r0" "r = f r0"
    | (miss) "r \<in> set t" "\<not> P r"
  using assms by (auto simp: set_upd_where split: if_splits)

lemma map_upd_where_same:
  "(\<And>r. r \<in> set t \<Longrightarrow> P r \<Longrightarrow> k (f r) = k r) \<Longrightarrow> map k (upd_where P f t) = map k t"
  by (simp add: upd_where_def)

lemma filter_upd_where_same:
  assumes "\<And>r. r \<in> set t \<Longrightarrow> P r \<Longrightarrow> Q (f r) = Q r"
  shows "filter Q (upd_where P f t) = upd_where P f (filter Q t)"
  using assms by (induction t) auto

lemma upd_where_none: "(\<And>r. r \<in> set t \<Longrightarrow> \<not> P r) \<Longrightarrow> upd_where P f t = t"
  by (induction t) auto

lemma upd_where_compose:
  assumes "\<And>r. r \<in> set t \<Longrightarrow> P r \<Longrightarrow> Q (f r) = Q r"
  shows "upd_where Q g (upd_where P f t)
       = map (\<lambda>r. if P r then (if Q r then g (f r) else f r) else if Q r then g r else r) t"
  using assms by (induction t) auto

lemma rows_affected_0_iff: "rows_affected P t = 0 \<longleftrightarrow> (\<forall>r\<in>set t. \<not> P r)"
  by (auto simp: rows_affected_def filter_empty_conv)

lemma rows_affected_pos_iff: "0 < rows_affected P t \<longleftrightarrow> (\<exists>r\<in>set t. P r)"
  by (auto simp: rows_affected_def filter_empty_conv)

lemma set_del_where [table_simps]: "set (del_where P t) = {r \<in> set t. \<not> P r}"
  by (auto simp: del_where_def)

lemma select_first_None: "select_first P k t = None \<longleftrightarrow> (\<forall>r\<in>set t. \<not> P r)"
proof -
  have "sort_key k (filter P t) = [] \<longleftrightarrow> filter P t = []"
    by (metis length_0_conv length_sort)
  then show ?thesis
    by (auto simp: select_first_def filter_empty_conv split: list.splits)
qed

lemma select_first_Some:
  assumes "select_first P k t = Some r"
  shows "r \<in> set t" "P r" "\<And>r'. r' \<in> set t \<Longrightarrow> P r' \<Longrightarrow> k r \<le> k r'"
proof -
  from assms obtain rs where eq: "sort_key k (filter P t) = r # rs"
    by (auto simp: select_first_def split: list.splits)
  have "set (r # rs) = {r \<in> set t. P r}"
    unfolding eq [symmetric] by simp
  moreover have "sorted (map k (r # rs))"
    unfolding eq [symmetric] by simp
  ultimately show "r \<in> set t" "P r" "\<And>r'. r' \<in> set t \<Longrightarrow> P r' \<Longrightarrow> k r \<le> k r'"
    by fastforce+
qed

lemma find_Some_iff:
  "List.find P t = Some r \<Longrightarrow> r \<in> set t \<and> P r"
  by (induction t) (auto split: if_splits)

lemma find_None_iff: "List.find P t = None \<longleftrightarrow> (\<forall>r\<in>set t. \<not> P r)"
  by (induction t) auto

text \<open>With a primary key, a row is found by its key exactly when it is in the table.\<close>

lemma find_key:
  assumes "distinct (map k t)" "r \<in> set t"
  shows "List.find (\<lambda>x. k x = k r) t = Some r"
  using assms by (induction t) auto

lemma distinct_key_eq:
  "distinct (map k t) \<Longrightarrow> a \<in> set t \<Longrightarrow> b \<in> set t \<Longrightarrow> k a = k b \<Longrightarrow> a = b"
  by (simp add: distinct_map inj_on_def)

lemma find_upd_where:
  assumes "\<And>r. r \<in> set t \<Longrightarrow> P r \<Longrightarrow> k (f r) = k r"
  shows "List.find (\<lambda>r. k r = x) (upd_where P f t)
       = map_option (\<lambda>r. if P r then f r else r) (List.find (\<lambda>r. k r = x) t)"
  using assms by (induction t) auto

lemma take_chars_length [simp]: "length (take_chars n s) \<le> n"
  by (simp add: take_chars_def)

lemma take_chars_short: "length s \<le> n \<Longrightarrow> take_chars n s = s"
  by (simp add: take_chars_def)

lemma opt_eq_None [simp]: "opt_eq None x"
  by (simp add: opt_eq_def)

lemma opt_eq_Some [simp]: "opt_eq (Some y) x \<longleftrightarrow> x = y"
  by (simp add: opt_eq_def)

subsection \<open>Saturating arithmetic\<close>

definition saturating_add :: "'a::len word \<Rightarrow> 'a word \<Rightarrow> 'a word" where
  "saturating_add x y = (if unat x + unat y < 2 ^ LENGTH('a) then x + y else - 1)"

definition saturating_mul :: "'a::len word \<Rightarrow> 'a word \<Rightarrow> 'a word" where
  "saturating_mul x y = (if unat x * unat y < 2 ^ LENGTH('a) then x * y else - 1)"

definition saturating_sub :: "'a::len word \<Rightarrow> 'a word \<Rightarrow> 'a word" where
  "saturating_sub x y = (if y \<le> x then x - y else 0)"

lemma unat_minus_one_max: "unat (- 1 :: 'w::len word) = 2 ^ LENGTH('w) - 1"
  by (simp add: unsigned_minus_1_eq_mask mask_eq_exp_minus_1)

lemma unat_saturating_add [sat_simps]:
  fixes x y :: "'a::len word"
  shows "unat (saturating_add x y) = min (unat x + unat y) (2 ^ LENGTH('a) - 1)"
  by (auto simp: saturating_add_def unat_minus_one_max unat_word_ariths)

lemma unat_saturating_mul [sat_simps]:
  fixes x y :: "'a::len word"
  shows "unat (saturating_mul x y) = min (unat x * unat y) (2 ^ LENGTH('a) - 1)"
  by (auto simp: saturating_mul_def unat_minus_one_max unat_word_ariths)

lemma unat_saturating_sub [sat_simps]:
  "unat (saturating_sub x y) = unat x - unat y"
  by (auto simp: saturating_sub_def word_le_nat_alt unat_sub)

subsection \<open>Transition systems\<close>

text \<open>
  A component with state is a set of initial states and a step relation.  The interface asks
  that the invariant holds initially and that every step keeps it; the client gets it for every
  reachable state, and may carry a second, relational, property along whole runs.
\<close>

inductive reach :: "('s \<Rightarrow> bool) \<Rightarrow> ('s \<Rightarrow> 's \<Rightarrow> bool) \<Rightarrow> 's \<Rightarrow> bool"
  for init :: "'s \<Rightarrow> bool" and step :: "'s \<Rightarrow> 's \<Rightarrow> bool" where
  reach_init: "init s \<Longrightarrow> reach init step s"
| reach_step: "reach init step s \<Longrightarrow> step s s' \<Longrightarrow> reach init step s'"

inductive run :: "('s \<Rightarrow> 's \<Rightarrow> bool) \<Rightarrow> 's \<Rightarrow> 's \<Rightarrow> bool"
  for step :: "'s \<Rightarrow> 's \<Rightarrow> bool" where
  run_refl: "run step s s"
| run_step: "run step s t \<Longrightarrow> step t u \<Longrightarrow> run step s u"

locale transition_system =
  fixes init :: "'s \<Rightarrow> bool"
    and step :: "'s \<Rightarrow> 's \<Rightarrow> bool"
    and inv :: "'s \<Rightarrow> bool"
  assumes init_inv: "init s \<Longrightarrow> inv s"
    and step_inv: "inv s \<Longrightarrow> step s s' \<Longrightarrow> inv s'"
begin

lemma reach_inv: "reach init step s \<Longrightarrow> inv s"
  by (induction rule: reach.induct) (auto intro: init_inv step_inv)

lemma run_inv: "run step s t \<Longrightarrow> inv s \<Longrightarrow> inv t"
  by (induction rule: run.induct) (auto intro: step_inv)

lemma reach_run: "reach init step s \<Longrightarrow> run step s t \<Longrightarrow> reach init step t"
  by (rotate_tac 1, induction rule: run.induct) (auto intro: reach.intros)

lemma run_preserves:
  assumes keep: "\<And>s s'. inv s \<Longrightarrow> Q s \<Longrightarrow> step s s' \<Longrightarrow> Q s'"
    and "run step s t" "inv s" "Q s"
  shows "Q t"
  using assms(2-) by (induction rule: run.induct) (auto intro: keep run_inv)

end

end
