(* ===== verification/Job.thy ===== *)
theory Job
  imports Complex_Main Prelude
begin

text \<open>
  The job vocabulary of \<open>gradatum-core/src/job.rs\<close>: every enum of the file as a datatype with
  the source's variants, every struct as a record with the source's fields (a short prefix tells
  apart fields that several structs share), and the pure functions of the file: the kind string
  of a job, the tenant a job is stamped with, priorities, terminal statuses and retry back-off.

  Numeric fields keep their width where the code computes with them: \<open>u8\<close>, \<open>u32\<close> and \<open>u64\<close> are
  words.  \<open>usize\<close> limits are naturals and \<open>f32\<close> scores are rationals; the code here only stores
  and compares them.  A \<open>serde_json::Value\<close> is the datatype \<open>json\<close>.
\<close>

named_theorems status_simps \<open>evaluation of the status predicates and of the status codec\<close>

datatype json =
    JNull
  | JBool bool
  | JNumber rat
  | JString string
  | JArray "json list"
  | JObject "(string \<times> json) list"

subsection \<open>Scopes and job payloads\<close>

datatype job_scope =
    VaultWide
  | ScopeLocus string
  | ScopeSection string
  | ScopeNotes "ulid list"
  | ScopeSession ulid
  | ScopeVault string

type_synonym vault_scope = job_scope

record message_delivery_spec =
  md_message_id :: ulid
  md_recipient :: string

record privacy_rescan_spec =
  pr_vault_id :: string
  pr_limit :: nat

datatype reindex_mode = FtsOnly | VectorsOnly | ReIndexFull | MissingOnly

record curate_spec =
  cu_note_id :: ulid
  cu_tenant_id :: string
  cu_title :: "string option"
  cu_body :: "string option"
  cu_author :: "string option"
  cu_tags :: "string list"
  cu_section_hint :: "string option"
  cu_expected_sha256 :: "8 word list option"
  cu_occurred_at :: "string option"

definition default_tenant_main :: string where
  "default_tenant_main = ''main''"

record embed_spec =
  em_note_id :: ulid
  em_tenant_id :: string
  em_force_regenerate :: bool

datatype migrate_mode = PredecessorV1 | GradatumVault | RawMarkdown

datatype conflict_strategy = ConflictOverwrite | ConflictSkip | ConflictRename

record migrate_source =
  mi_from_path :: string
  mi_mode :: migrate_mode
  mi_conflict :: conflict_strategy
  mi_dry_run :: bool
  mi_target :: vault_scope

datatype export_format = ExportCsv | ExportPdf | ExportJson | ExportMarkdown | ExportZip

record export_source =
  ex_scope :: vault_scope
  ex_filter :: "string option"
  ex_format :: export_format
  ex_target :: string
  ex_template :: "string option"

datatype notify_channel =
    Telegram (chat_id: string)
  | Slack (webhook_url: string)
  | Webhook (wh_url: string) (wh_method: string)
  | Nats (nats_subject: string)
  | Email (email_to: string)

record notify_source =
  no_channel :: notify_channel
  no_template :: string
  no_job_ref :: "ulid option"

datatype ingest_input_source =
    IngestFile string
  | IngestUrl string
  | IngestUrls "string list"
  | IngestLocus string

datatype ingest_strategy = StrategyAuto | ForceStructured | ForceSlidingWindow

record ingest_source =
  in_source :: ingest_input_source
  in_vault :: string
  in_locus :: string
  in_strategy :: ingest_strategy
  in_dry_run :: bool

datatype purge_mode = PurgeLifecycle

record purge_spec =
  pu_mode :: purge_mode
  pu_dry_run :: bool
  pu_grace_days :: "32 word option"

definition purge_spec_default :: purge_spec where
  "purge_spec_default = \<lparr>pu_mode = PurgeLifecycle, pu_dry_run = True, pu_grace_days = Some 30\<rparr>"

datatype forget_scope =
    ForgetTopic (ft_query: string) (ft_vault: "string option") (ft_limit: "nat option")
  | ForgetLocus (fl_vault: string) (fl_locus: string)
  | ForgetAgent (fa_agent_id: string) (fa_vaults: "string list")

record forget_spec =
  fo_scope :: forget_scope
  fo_dry_run :: bool
  fo_forgotten_by :: "string option"
  fo_confirm_ulids :: "string list"

definition forget_spec_default :: forget_spec where
  "forget_spec_default =
     \<lparr>fo_scope = ForgetTopic [] None (Some 50), fo_dry_run = True, fo_forgotten_by = None,
      fo_confirm_ulids = []\<rparr>"

datatype distill_mode = Semantic

record distill_source =
  di_mode :: distill_mode
  di_scope :: job_scope
  di_window :: "time option"
  di_batch_limit :: nat
  di_confidence_threshold :: rat
  di_min_qa_events :: "32 word option"

definition distill_source_default :: distill_source where
  "distill_source_default =
     \<lparr>di_mode = Semantic, di_scope = VaultWide, di_window = None, di_batch_limit = 500,
      di_confidence_threshold = 3 / 4, di_min_qa_events = None\<rparr>"

record validate_spec =
  va_note_id :: ulid
  va_tenant_id :: string
  va_title :: string
  va_body :: string
  va_source_ids :: "ulid list"
  va_source_texts :: "string list"
  va_source_trusts :: "rat list"
  va_base_trust :: rat
  va_threshold :: rat

definition validate_spec_default :: validate_spec where
  "validate_spec_default =
     \<lparr>va_note_id = 0, va_tenant_id = [], va_title = [], va_body = [], va_source_ids = [],
      va_source_texts = [], va_source_trusts = [], va_base_trust = 0, va_threshold = 3 / 4\<rparr>"

datatype job =
    JobAgent
  | JobPipeline
  | JobCollect
  | JobDistill distill_source
  | JobBackup
  | JobPurge purge_spec
  | JobReIndex reindex_mode
  | JobSummarize
  | JobValidate validate_spec
  | JobAudit
  | JobConsolidate
  | JobCurate curate_spec
  | JobForget forget_spec
  | JobReview
  | JobClassify
  | JobMerge
  | JobAnnotate
  | JobMigrate migrate_source
  | JobExport export_source
  | JobNotify notify_source
  | JobIngest ingest_source
  | JobEmbed embed_spec
  | JobMessage message_delivery_spec
  | JobPayloadPurged
  | JobPrivacyRescan privacy_rescan_spec

definition JOB_KIND_MESSAGE :: string where
  "JOB_KIND_MESSAGE = ''Message''"

definition JOB_KIND_PRIVACY_RESCAN :: string where
  "JOB_KIND_PRIVACY_RESCAN = ''PrivacyRescan''"

fun job_kind_str :: "job \<Rightarrow> string" where
  "job_kind_str JobAgent = ''Agent''"
| "job_kind_str JobPipeline = ''Pipeline''"
| "job_kind_str JobCollect = ''Collect''"
| "job_kind_str (JobDistill _) = ''Distill''"
| "job_kind_str JobBackup = ''Backup''"
| "job_kind_str (JobPurge _) = ''Purge''"
| "job_kind_str (JobReIndex _) = ''ReIndex''"
| "job_kind_str JobSummarize = ''Summarize''"
| "job_kind_str (JobValidate _) = ''Validate''"
| "job_kind_str JobAudit = ''Audit''"
| "job_kind_str JobConsolidate = ''Consolidate''"
| "job_kind_str (JobCurate _) = ''Curate''"
| "job_kind_str (JobForget _) = ''Forget''"
| "job_kind_str JobReview = ''Review''"
| "job_kind_str JobClassify = ''Classify''"
| "job_kind_str JobMerge = ''Merge''"
| "job_kind_str JobAnnotate = ''Annotate''"
| "job_kind_str (JobMigrate _) = ''Migrate''"
| "job_kind_str (JobExport _) = ''Export''"
| "job_kind_str (JobNotify _) = ''Notify''"
| "job_kind_str (JobIngest _) = ''Ingest''"
| "job_kind_str (JobEmbed _) = ''Embed''"
| "job_kind_str (JobMessage _) = JOB_KIND_MESSAGE"
| "job_kind_str JobPayloadPurged = ''PayloadPurged''"
| "job_kind_str (JobPrivacyRescan _) = JOB_KIND_PRIVACY_RESCAN"

subsection \<open>Specification and tenant stamp\<close>

datatype job_class = ClassSystem | ClassAgent | ClassHuman | ClassApi

datatype job_mode = ModeBatch | ModeStreaming | ModeInteractive | ModeDryRun

datatype job_priority = PriorityHigh | PriorityNormal | PriorityLow | PriorityDeferred

fun as_u8 :: "job_priority \<Rightarrow> 8 word" where
  "as_u8 PriorityHigh = 3"
| "as_u8 PriorityNormal = 2"
| "as_u8 PriorityLow = 1"
| "as_u8 PriorityDeferred = 0"

fun default_for :: "job_class \<Rightarrow> job_priority" where
  "default_for ClassAgent = PriorityHigh"
| "default_for ClassHuman = PriorityHigh"
| "default_for ClassApi = PriorityNormal"
| "default_for ClassSystem = PriorityLow"

record job_spec =
  js_kind :: job
  js_class :: job_class
  js_mode :: job_mode
  js_scope :: job_scope
  js_priority :: job_priority

fun job_scope_vault :: "job_scope \<Rightarrow> string option" where
  "job_scope_vault (ScopeVault v) = Some v"
| "job_scope_vault _ = None"

fun forget_scope_vault :: "forget_scope \<Rightarrow> string option" where
  "forget_scope_vault (ForgetTopic _ vault _) = vault"
| "forget_scope_vault (ForgetLocus vault _) = Some vault"
| "forget_scope_vault (ForgetAgent _ vaults) =
     (case vaults of [only] \<Rightarrow> Some only | _ \<Rightarrow> None)"

definition unwrap_or :: "'a option \<Rightarrow> 'a \<Rightarrow> 'a" where
  "unwrap_or x d = (case x of None \<Rightarrow> d | Some y \<Rightarrow> y)"

definition spec_tenant :: "job_spec \<Rightarrow> string" where
  "spec_tenant spec =
     (let job_vault = unwrap_or (job_scope_vault (js_scope spec)) ''main'' in
      case js_kind spec of
        JobCurate c \<Rightarrow> cu_tenant_id c
      | JobIngest i \<Rightarrow> in_vault i
      | JobEmbed e \<Rightarrow> em_tenant_id e
      | JobValidate v \<Rightarrow> va_tenant_id v
      | JobDistill d \<Rightarrow> unwrap_or (job_scope_vault (di_scope d)) job_vault
      | JobForget f \<Rightarrow> unwrap_or (forget_scope_vault (fo_scope f)) job_vault
      | JobExport e \<Rightarrow> unwrap_or (job_scope_vault (ex_scope e)) job_vault
      | JobMigrate m \<Rightarrow> unwrap_or (job_scope_vault (mi_target m)) job_vault
      | JobPrivacyRescan r \<Rightarrow> pr_vault_id r
      | _ \<Rightarrow> job_vault)"

subsection \<open>Scheduling, lifecycle, retry, lineage\<close>

datatype trigger_condition = OnDone | OnAnyTerminal | OnFailed

record job_trigger =
  jt_job_id :: ulid
  jt_condition :: trigger_condition

datatype trigger_source =
  TriggerCron | TriggerPipeline | TriggerCascade | TriggerOnEvent | TriggerDemand

record job_scheduling =
  sc_trigger :: trigger_source
  sc_scheduled_at :: time
  sc_await_jobs :: "job_trigger list"
  sc_deadline :: "time option"
  sc_cron_expr :: "string option"

datatype job_status = Pending | Running | Waiting | Done | Failed | DLQ | Cancelled | Conflict

fun is_terminal :: "job_status \<Rightarrow> bool" where
  "is_terminal Done = True"
| "is_terminal DLQ = True"
| "is_terminal Cancelled = True"
| "is_terminal Conflict = True"
| "is_terminal _ = False"

text \<open>The \<open>IN\<close> list of the SQL queries over terminal rows.\<close>

definition TERMINAL_SQL :: "string list" where
  "TERMINAL_SQL = [''Done'', ''DLQ'', ''Cancelled'', ''Conflict'']"

record job_result =
  re_success :: bool
  re_duration_ms :: "32 word"
  re_cost_usd :: "rat option"
  re_result_note :: "ulid option"
  re_conflict_payload :: "json option"

record job_lifecycle =
  lc_status :: job_status
  lc_created_at :: time
  lc_started_at :: "time option"
  lc_completed_at :: "time option"
  lc_lease_until :: "time option"
  lc_result :: "job_result option"

record job_error =
  er_at :: time
  er_message :: string
  er_attempt :: "32 word"

datatype retry_backoff =
    BackoffFixed "64 word"
  | BackoffExponential (bo_base: "64 word") (bo_max: "64 word")

record job_retry =
  rt_count :: "32 word"
  rt_max :: "32 word"
  rt_backoff :: retry_backoff
  rt_last_error :: "string option"
  rt_errors :: "job_error list"

definition job_retry_default :: job_retry where
  "job_retry_default =
     \<lparr>rt_count = 0, rt_max = 3, rt_backoff = BackoffExponential 5 120, rt_last_error = None,
      rt_errors = []\<rparr>"

text \<open>The shift \<open>1 << attempt.min(62)\<close> is at most \<open>2 ^ 62\<close>, so it never overflows a \<open>u64\<close>.\<close>

fun duration_for :: "retry_backoff \<Rightarrow> 32 word \<Rightarrow> 64 word" where
  "duration_for (BackoffFixed s) attempt = s"
| "duration_for (BackoffExponential base mx) attempt =
     min (saturating_mul base (push_bit (unat (min attempt 62)) 1)) mx"

record job_lineage =
  li_triggered_by :: "string option"
  li_parent_job :: "ulid option"
  li_pipeline_id :: "ulid option"
  li_pipeline_step :: "string option"
  li_children :: "ulid list"
  li_cost_usd :: "rat option"

record job_record =
  jr_id :: ulid
  jr_spec :: job_spec
  jr_scheduling :: job_scheduling
  jr_lifecycle :: job_lifecycle
  jr_retry :: job_retry
  jr_lineage :: job_lineage

definition is_dry_run :: "job_record \<Rightarrow> bool" where
  "is_dry_run r = (js_mode (jr_spec r) = ModeDryRun)"

datatype job_order = CreatedAsc | CreatedDesc

record job_filter =
  jf_class :: "job_class option"
  jf_status :: "job_status option"
  jf_kind :: "string option"
  jf_created_after :: "time option"
  jf_created_before :: "time option"
  jf_order :: job_order
  jf_limit :: nat
  jf_cursor :: "ulid option"
  jf_tenant :: "string option"

definition job_filter_default :: job_filter where
  "job_filter_default =
     \<lparr>jf_class = None, jf_status = None, jf_kind = None, jf_created_after = None,
      jf_created_before = None, jf_order = CreatedAsc, jf_limit = 50, jf_cursor = None,
      jf_tenant = None\<rparr>"

datatype queue_event =
    JobInserted ulid
  | JobCompleted ulid job_status job_result
  | JobFailed ulid "32 word"
  | JobReady ulid
  | JobCancelled ulid

datatype queue_error =
    Storage string
  | NotFound ulid
  | Serialization string
  | InvalidTransition string
  | ErrCancelled string
  | NotLeased ulid
  | NotImplemented string

definition TERMINAL_PAYLOAD_KEEP :: nat where
  "TERMINAL_PAYLOAD_KEEP = 200"

subsection \<open>Dry-run output\<close>

record job_output_file =
  of_name :: string
  of_mime_type :: string
  of_size :: "64 word"
  of_ttl_days :: "32 word option"

record job_output =
  jo_notes_created :: "ulid list"
  jo_notes_modified :: "ulid list"
  jo_files :: "job_output_file list"
  jo_result_note_md :: string

definition newline :: string where
  "newline = [CHR 0x0A]"

definition dry_run_output :: "nat \<Rightarrow> string \<Rightarrow> job_output" where
  "dry_run_output would_affect description =
     \<lparr>jo_notes_created = [], jo_notes_modified = [], jo_files = [],
      jo_result_note_md =
        ''## DRY-RUN '' @ em_dash @ '' '' @ description @ newline @ newline
        @ ''**Simulation only '' @ em_dash @ '' no writes performed.**'' @ newline @ newline
        @ ''Notes that would have been affected: '' @ show_nat would_affect @ newline\<rparr>"

subsection \<open>Lemmas\<close>

lemma is_terminal_iff [status_simps]:
  "is_terminal s \<longleftrightarrow> s \<in> {Done, DLQ, Cancelled, Conflict}"
  by (cases s) auto

lemma unwrap_or_simps [simp]: "unwrap_or None d = d" "unwrap_or (Some y) d = y"
  by (simp_all add: unwrap_or_def)

text \<open>The kind string tells the variants apart: two jobs with one kind string are one variant.\<close>

lemma kind_message_iff: "job_kind_str j = JOB_KIND_MESSAGE \<longleftrightarrow> (\<exists>m. j = JobMessage m)"
  by (cases j) (auto simp: JOB_KIND_MESSAGE_def JOB_KIND_PRIVACY_RESCAN_def)

lemma kind_purged_iff: "job_kind_str j = ''PayloadPurged'' \<longleftrightarrow> j = JobPayloadPurged"
  by (cases j) (auto simp: JOB_KIND_MESSAGE_def JOB_KIND_PRIVACY_RESCAN_def)

lemma as_u8_inject: "as_u8 p = as_u8 q \<longleftrightarrow> p = q"
  by (cases p; cases q) auto

lemma unat_shift_one:
  assumes "n < LENGTH('a)"
  shows "unat (push_bit n 1 :: 'a::len word) = 2 ^ n"
  using assms by transfer (simp add: push_bit_eq_mult take_bit_eq_mod)

lemma unat_min_62: "unat (min (a :: 32 word) 62) = min (unat a) 62"
  by (auto simp: min_def word_le_nat_alt)

text \<open>The exponential back-off in naturals: no wrap-around remains.\<close>

lemma unat_duration_for_exponential:
  "unat (duration_for (BackoffExponential b m) a) = min (unat b * 2 ^ min (unat a) 62) (unat m)"
proof -
  have "unat (push_bit (unat (min a 62)) 1 :: 64 word) = 2 ^ min (unat a) 62"
    by (subst unat_shift_one) (simp_all add: unat_min_62)
  moreover have "unat m \<le> 2 ^ 64 - 1"
    using unsigned_less [of m, where 'a = nat] by simp
  moreover have "unat (min x m) = min (unat x) (unat m)" for x :: "64 word"
    by (auto simp: min_def word_le_nat_alt)
  ultimately show ?thesis
    by (simp add: sat_simps)
qed

end
