(* ===== verification/Queue_Store.thy ===== *)
theory Queue_Store
  imports Job
begin

text \<open>
  \<open>SqliteQueueStore\<close> of \<open>gradatum-db-sqlite/src/queue_store_sqlite.rs\<close>: the operations that write
  the job table.  The table \<open>gradatum_jobs\<close> is a list of rows with the columns of the migrations,
  the broadcast channel is the list of the events published so far, and every operation is a
  function from the store to its result and the new store.  A transaction that rolls back
  returns the store it was given.

  JSON text is produced and read by the \<open>serde_json\<close> crate.  It is a parameter: the type of
  texts is the type variable \<open>'p\<close> and the functions are the fields of a \<open>codec\<close>; \<open>codec_ok\<close> states
  what the store relies on, that a written record can be read back.  The column \<open>await_jobs\<close>
  holds a JSON array of ULID texts; it is the list of those ULIDs, on which
  \<open>LIKE '%"<id>"%'\<close> is membership.  Each reading of the clock is an argument of its own.
  Failures of the SQLite library itself are not modelled, except the violation of the primary
  key by an insertion.
\<close>

named_theorems op_defs \<open>definitions of the store operations\<close>
named_theorems row_simps \<open>rows written by the store operations\<close>

subsection \<open>Table, codec, store\<close>

record 'p row =
  r_id :: ulid
  r_payload :: 'p
  r_status :: string
  r_priority :: int
  r_class :: string
  r_created_at :: time
  r_scheduled_at :: time
  r_started_at :: "time option"
  r_completed_at :: "time option"
  r_lease_until :: "time option"
  r_attempt_count :: int
  r_deadline :: "time option"
  r_last_error :: "string option"
  r_await_jobs :: "ulid list option"
  r_kind :: string
  r_tenant_id :: string

record 'p codec =
  to_json :: "job_record \<Rightarrow> string + 'p"
  from_json :: "'p \<Rightarrow> string + job_record"
  parse_value :: "string \<Rightarrow> json option"

definition codec_ok :: "'p codec \<Rightarrow> bool" where
  "codec_ok c \<longleftrightarrow> (\<forall>r. \<exists>p. to_json c r = Inr p \<and> from_json c p = Inr r)"

record 'p store =
  st_jobs :: "'p row list"
  st_events :: "queue_event list"

type_synonym ('p, 'a) op = "'p store \<Rightarrow> (queue_error, 'a) result \<times> 'p store"

definition empty_store :: "'p store" where
  "empty_store = \<lparr>st_jobs = [], st_events = []\<rparr>"

definition publish :: "queue_event \<Rightarrow> 'p store \<Rightarrow> 'p store" where
  "publish e s = s\<lparr>st_events := st_events s @ [e]\<rparr>"

definition serialize_record :: "'p codec \<Rightarrow> job_record \<Rightarrow> (queue_error, 'p) result" where
  "serialize_record c r = (case to_json c r of Inl e \<Rightarrow> Inl (Serialization e) | Inr p \<Rightarrow> Inr p)"

definition deserialize_record :: "'p codec \<Rightarrow> 'p \<Rightarrow> (queue_error, job_record) result" where
  "deserialize_record c p = (case from_json c p of Inl e \<Rightarrow> Inl (Serialization e) | Inr r \<Rightarrow> Inr r)"

fun status_to_str :: "job_status \<Rightarrow> string" where
  "status_to_str Pending = ''Pending''"
| "status_to_str Running = ''Running''"
| "status_to_str Waiting = ''Waiting''"
| "status_to_str Done = ''Done''"
| "status_to_str Failed = ''Failed''"
| "status_to_str DLQ = ''DLQ''"
| "status_to_str Cancelled = ''Cancelled''"
| "status_to_str Conflict = ''Conflict''"

definition str_to_status :: "string \<Rightarrow> (queue_error, job_status) result" where
  "str_to_status s =
     (if s = ''Pending'' then Inr Pending
      else if s = ''Running'' then Inr Running
      else if s = ''Waiting'' then Inr Waiting
      else if s = ''Done'' then Inr Done
      else if s = ''Failed'' then Inr Failed
      else if s = ''DLQ'' then Inr DLQ
      else if s = ''Cancelled'' then Inr Cancelled
      else if s = ''Conflict'' then Inr Conflict
      else Inl (InvalidTransition (''unknown status: '' @ [CHR 0x27] @ s @ [CHR 0x27])))"

text \<open>The \<open>Debug\<close> text of a class, which is the content of the column \<open>class\<close>.\<close>

fun class_debug :: "job_class \<Rightarrow> string" where
  "class_debug ClassSystem = ''System''"
| "class_debug ClassAgent = ''Agent''"
| "class_debug ClassHuman = ''Human''"
| "class_debug ClassApi = ''Api''"

definition set_status :: "job_status \<Rightarrow> job_record \<Rightarrow> job_record" where
  "set_status st r = r\<lparr>jr_lifecycle := (jr_lifecycle r)\<lparr>lc_status := st\<rparr>\<rparr>"

definition set_completed_at :: "time option \<Rightarrow> job_record \<Rightarrow> job_record" where
  "set_completed_at t r = r\<lparr>jr_lifecycle := (jr_lifecycle r)\<lparr>lc_completed_at := t\<rparr>\<rparr>"

definition set_result :: "job_result option \<Rightarrow> job_record \<Rightarrow> job_record" where
  "set_result x r = r\<lparr>jr_lifecycle := (jr_lifecycle r)\<lparr>lc_result := x\<rparr>\<rparr>"

text \<open>The SQL columns override the status fields of the JSON record.\<close>

definition apply_sql_authority ::
  "job_record \<Rightarrow> string \<Rightarrow> int \<Rightarrow> string option \<Rightarrow> time option \<Rightarrow> job_record" where
  "apply_sql_authority record sql_status sql_attempts sql_last_error sql_completed_at =
     (let st = (case str_to_status sql_status of Inl _ \<Rightarrow> Pending | Inr st \<Rightarrow> st);
          r1 = set_status st record;
          r2 = r1\<lparr>jr_retry := (jr_retry r1)\<lparr>rt_count := word_of_int sql_attempts\<rparr>\<rparr>;
          r3 = (if sql_last_error \<noteq> None
                then r2\<lparr>jr_retry := (jr_retry r2)\<lparr>rt_last_error := sql_last_error\<rparr>\<rparr> else r2)
      in if sql_completed_at \<noteq> None \<and> lc_completed_at (jr_lifecycle r3) = None
         then set_completed_at sql_completed_at r3 else r3)"

subsection \<open>Enqueue and dequeue\<close>

definition await_column :: "ulid list \<Rightarrow> ulid list option" where
  "await_column ids = (if ids = [] then None else Some ids)"

definition await_ids :: "job_record \<Rightarrow> ulid list" where
  "await_ids r = map jt_job_id (sc_await_jobs (jr_scheduling r))"

definition new_row :: "job_record \<Rightarrow> 'p \<Rightarrow> 'p row" where
  "new_row job payload =
     \<lparr>r_id = jr_id job, r_payload = payload,
      r_status = status_to_str (lc_status (jr_lifecycle job)),
      r_priority = uint (as_u8 (js_priority (jr_spec job))),
      r_class = class_debug (js_class (jr_spec job)),
      r_created_at = lc_created_at (jr_lifecycle job),
      r_scheduled_at = sc_scheduled_at (jr_scheduling job),
      r_started_at = None, r_completed_at = None, r_lease_until = None, r_attempt_count = 0,
      r_deadline = sc_deadline (jr_scheduling job), r_last_error = None,
      r_await_jobs = await_column (await_ids job),
      r_kind = job_kind_str (js_kind (jr_spec job)),
      r_tenant_id = spec_tenant (jr_spec job)\<rparr>"

definition enqueue :: "'p codec \<Rightarrow> job_record \<Rightarrow> ('p, ulid) op" where
  "enqueue c job s =
     (case serialize_record c job of
        Inl e \<Rightarrow> (Inl e, s)
      | Inr payload \<Rightarrow>
          if \<exists>r\<in>set (st_jobs s). r_id r = jr_id job
          then (Inl (Storage ''UNIQUE constraint failed: gradatum_jobs.id''), s)
          else (Inr (jr_id job),
                publish (JobInserted (jr_id job))
                  (s\<lparr>st_jobs := st_jobs s @ [new_row job payload]\<rparr>)))"

text \<open>The row a worker leases: marked running, one more attempt, a lease until \<open>lease\<close>.\<close>

definition lease_row :: "time \<Rightarrow> time \<Rightarrow> 'p row \<Rightarrow> 'p row" where
  "lease_row lease now r =
     r\<lparr>r_status := ''Running'', r_lease_until := Some lease, r_started_at := Some now,
       r_attempt_count := r_attempt_count r + 1\<rparr>"

definition lease_and_return ::
  "'p codec \<Rightarrow> time \<Rightarrow> time \<Rightarrow> 'p row \<Rightarrow> ('p, job_record option) op" where
  "lease_and_return c now lease r s =
     (let s' = s\<lparr>st_jobs := upd_where (\<lambda>x. r_id x = r_id r) (lease_row lease now) (st_jobs s)\<rparr>
      in case deserialize_record c (r_payload r) of
           Inl e \<Rightarrow> (Inl e, s')
         | Inr record \<Rightarrow> (Inr (Some (set_status Running record)), s'))"

definition dequeue ::
  "'p codec \<Rightarrow> time \<Rightarrow> time \<Rightarrow> string option \<Rightarrow> ('p, job_record option) op" where
  "dequeue c now now2 tenant_filter s =
     (case select_first
             (\<lambda>r. r_status r = ''Pending'' \<and> r_scheduled_at r \<le> now
                \<and> opt_eq tenant_filter (r_tenant_id r))
             (\<lambda>r. (- r_priority r, r_scheduled_at r)) (st_jobs s) of
        None \<Rightarrow> (Inr None, s)
      | Some r \<Rightarrow> lease_and_return c now (now2 + secs 300) r s)"

definition dequeue_by_kind ::
  "'p codec \<Rightarrow> time \<Rightarrow> time \<Rightarrow> string \<Rightarrow> string option \<Rightarrow> ('p, job_record option) op" where
  "dequeue_by_kind c now now2 kind tenant_filter s =
     (if kind = JOB_KIND_MESSAGE then (Inr None, s)
      else case select_first
             (\<lambda>r. r_status r = ''Pending'' \<and> r_kind r = kind \<and> r_scheduled_at r \<le> now
                \<and> opt_eq tenant_filter (r_tenant_id r))
             (\<lambda>r. (- r_priority r, r_scheduled_at r)) (st_jobs s) of
        None \<Rightarrow> (Inr None, s)
      | Some r \<Rightarrow> lease_and_return c now (now2 + secs 300) r s)"

subsection \<open>Chaining\<close>

text \<open>\<open>collect\<close> of an iterator of results: all the values, or the first error.\<close>

fun collect_results :: "('e + 'a) list \<Rightarrow> 'e + 'a list" where
  "collect_results [] = Inr []"
| "collect_results (Inl e # _) = Inl e"
| "collect_results (Inr x # rs) =
     (case collect_results rs of Inl e \<Rightarrow> Inl e | Inr xs \<Rightarrow> Inr (x # xs))"

definition find_awaiting :: "'p codec \<Rightarrow> ulid \<Rightarrow> 'p store \<Rightarrow> (queue_error, job_record list) result" where
  "find_awaiting c job_id s =
     collect_results (map (\<lambda>r. deserialize_record c (r_payload r))
       (filter (\<lambda>r. r_status r = ''Waiting''
                  \<and> (case r_await_jobs r of None \<Rightarrow> False | Some ids \<Rightarrow> job_id \<in> set ids))
         (st_jobs s)))"

definition set_pending :: "ulid \<Rightarrow> 'p store \<Rightarrow> 'p store" where
  "set_pending i s =
     s\<lparr>st_jobs := upd_where (\<lambda>r. r_id r = i \<and> r_status r = ''Waiting'')
                    (\<lambda>r. r\<lparr>r_status := ''Pending''\<rparr>) (st_jobs s)\<rparr>"

definition all_jobs_done :: "ulid list \<Rightarrow> 'p store \<Rightarrow> bool" where
  "all_jobs_done ids s =
     (if ids = [] then True
      else rows_affected (\<lambda>r. r_id r \<in> set ids \<and> r_status r = ''Done'') (st_jobs s) = length ids)"

fun promote_dependents :: "job_record list \<Rightarrow> 'p store \<Rightarrow> 'p store" where
  "promote_dependents [] s = s"
| "promote_dependents (dep # deps) s =
     promote_dependents deps
       (if all_jobs_done (await_ids dep) s then set_pending (jr_id dep) s else s)"

definition cascade_check_and_promote :: "'p codec \<Rightarrow> ulid \<Rightarrow> ('p, unit) op" where
  "cascade_check_and_promote c done_id s =
     (case find_awaiting c done_id s of
        Inl e \<Rightarrow> (Inl e, s)
      | Inr deps \<Rightarrow> (Inr (), promote_dependents deps s))"

subsection \<open>Ends of an attempt\<close>

definition lease_live :: "time \<Rightarrow> 'p row \<Rightarrow> bool" where
  "lease_live now r = (case r_lease_until r of None \<Rightarrow> False | Some l \<Rightarrow> now < l)"

definition complete :: "'p codec \<Rightarrow> time \<Rightarrow> time \<Rightarrow> ulid \<Rightarrow> job_result \<Rightarrow> ('p, unit) op" where
  "complete c now now2 i result s =
     (case List.find (\<lambda>r. r_id r = i \<and> r_status r = ''Running'') (st_jobs s) of
        None \<Rightarrow> (Inl (NotFound i), s)
      | Some r \<Rightarrow>
          case deserialize_record c (r_payload r) of
            Inl e \<Rightarrow> (Inl e, s)
          | Inr record \<Rightarrow>
              if lc_status (jr_lifecycle record) = Conflict then (Inr (), s)
              else
                case serialize_record c
                       (set_result (Some result) (set_completed_at (Some now2) (set_status Done record))) of
                  Inl e \<Rightarrow> (Inl e, s)
                | Inr new_payload \<Rightarrow>
                    let P = (\<lambda>r. r_id r = i \<and> r_status r = ''Running'' \<and> lease_live now r) in
                    if rows_affected P (st_jobs s) = 0 then (Inl (NotLeased i), s)
                    else
                      let s1 = s\<lparr>st_jobs := upd_where P
                                 (\<lambda>r. r\<lparr>r_status := ''Done'', r_completed_at := Some now,
                                        r_lease_until := None, r_payload := new_payload\<rparr>) (st_jobs s)\<rparr>;
                          s2 = publish (JobCompleted i (if re_success result then Done else Failed) result) s1
                      in (Inr (), snd (cascade_check_and_promote c i s2)))"

definition complete_message_delivery ::
  "'p codec \<Rightarrow> time \<Rightarrow> time \<Rightarrow> ulid \<Rightarrow> job_result \<Rightarrow> ('p, unit) op" where
  "complete_message_delivery c now now2 i result s =
     (let P = (\<lambda>r. r_id r = i \<and> r_kind r = JOB_KIND_MESSAGE \<and> r_status r = ''Pending'') in
      case List.find P (st_jobs s) of
        None \<Rightarrow> (Inl (NotFound i), s)
      | Some r \<Rightarrow>
          case deserialize_record c (r_payload r) of
            Inl e \<Rightarrow> (Inl e, s)
          | Inr record \<Rightarrow>
              if \<not> (case js_kind (jr_spec record) of JobMessage _ \<Rightarrow> True | _ \<Rightarrow> False)
              then (Inl (NotFound i), s)
              else
                case serialize_record c
                       (set_result (Some result) (set_completed_at (Some now2) (set_status Done record))) of
                  Inl e \<Rightarrow> (Inl e, s)
                | Inr new_payload \<Rightarrow>
                    if rows_affected P (st_jobs s) = 0 then (Inl (NotFound i), s)
                    else (Inr (),
                      publish (JobCompleted i Done result)
                        (s\<lparr>st_jobs := upd_where P
                            (\<lambda>r. r\<lparr>r_status := ''Done'', r_completed_at := Some now,
                                   r_lease_until := None, r_payload := new_payload\<rparr>) (st_jobs s)\<rparr>)))"

definition fail_record :: "string \<Rightarrow> 32 word \<Rightarrow> time \<Rightarrow> job_record \<Rightarrow> job_record" where
  "fail_record err attempt now2 record =
     (let r1 = set_status Failed record;
          rt = jr_retry r1
      in r1\<lparr>jr_retry := rt\<lparr>rt_count := attempt, rt_last_error := Some err,
              rt_errors := rt_errors rt @ [\<lparr>er_at = now2, er_message = err, er_attempt = attempt\<rparr>]\<rparr>\<rparr>)"

definition fail :: "'p codec \<Rightarrow> time \<Rightarrow> time \<Rightarrow> ulid \<Rightarrow> string \<Rightarrow> 32 word \<Rightarrow> ('p, unit) op" where
  "fail c now now2 i err attempt s =
     (let err_truncated = take_chars 2048 err in
      case List.find (\<lambda>r. r_id r = i \<and> r_status r = ''Running'') (st_jobs s) of
        None \<Rightarrow> (Inl (NotFound i), s)
      | Some r \<Rightarrow>
          case deserialize_record c (r_payload r) of
            Inl e \<Rightarrow> (Inl e, s)
          | Inr record \<Rightarrow>
              case serialize_record c (fail_record err_truncated attempt now2 record) of
                Inl e \<Rightarrow> (Inl e, s)
              | Inr new_payload \<Rightarrow>
                  let P = (\<lambda>r. r_id r = i \<and> r_status r = ''Running'' \<and> lease_live now r) in
                  if rows_affected P (st_jobs s) = 0 then (Inl (NotLeased i), s)
                  else (Inr (),
                    publish (JobFailed i attempt)
                      (s\<lparr>st_jobs := upd_where P
                          (\<lambda>r. r\<lparr>r_status := ''Failed'', r_lease_until := None,
                                 r_last_error := Some err_truncated,
                                 r_attempt_count := uint attempt, r_payload := new_payload\<rparr>)
                          (st_jobs s)\<rparr>)))"

definition not_terminal_row :: "'p row \<Rightarrow> bool" where
  "not_terminal_row r = (r_status r \<notin> set TERMINAL_SQL)"

definition cancel :: "'p codec \<Rightarrow> time \<Rightarrow> ulid \<Rightarrow> string option \<Rightarrow> ('p, unit) op" where
  "cancel c now i tenant_filter s =
     (let P = (\<lambda>r. r_id r = i \<and> not_terminal_row r \<and> opt_eq tenant_filter (r_tenant_id r)) in
      case List.find P (st_jobs s) of
        None \<Rightarrow> (Inr (), s)
      | Some r \<Rightarrow>
          case deserialize_record c (r_payload r) of
            Inl e \<Rightarrow> (Inl e, s)
          | Inr record \<Rightarrow>
              case serialize_record c (set_completed_at (Some now) (set_status Cancelled record)) of
                Inl e \<Rightarrow> (Inl e, s)
              | Inr new_payload \<Rightarrow>
                  (Inr (),
                   publish (JobCancelled i)
                     (s\<lparr>st_jobs := upd_where P
                         (\<lambda>r. r\<lparr>r_status := ''Cancelled'', r_completed_at := Some now,
                                r_lease_until := None, r_payload := new_payload\<rparr>) (st_jobs s)\<rparr>)))"

text \<open>The message kept on a DLQ row: the last real cause, a dash, and the reason of the DLQ.\<close>

definition dlq_message :: "job_record \<Rightarrow> string \<Rightarrow> string" where
  "dlq_message record err =
     take_chars 2048
       (if rt_errors (jr_retry record) \<noteq> []
           \<and> er_message (last (rt_errors (jr_retry record))) \<noteq> err
        then er_message (last (rt_errors (jr_retry record))) @ '' '' @ em_dash @ '' '' @ err
        else err)"

definition dlq_record :: "string \<Rightarrow> time \<Rightarrow> job_record \<Rightarrow> job_record" where
  "dlq_record msg now2 record =
     (let r1 = set_completed_at (Some now2) (set_status DLQ record)
      in r1\<lparr>jr_retry := (jr_retry r1)\<lparr>rt_last_error := Some msg\<rparr>\<rparr>)"

definition fail_dlq :: "'p codec \<Rightarrow> time \<Rightarrow> time \<Rightarrow> ulid \<Rightarrow> string \<Rightarrow> ('p, unit) op" where
  "fail_dlq c now now2 i err s =
     (case List.find (\<lambda>r. r_id r = i) (st_jobs s) of
        None \<Rightarrow> (Inl (NotFound i), s)
      | Some r \<Rightarrow>
          case deserialize_record c (r_payload r) of
            Inl e \<Rightarrow> (Inl e, s)
          | Inr record \<Rightarrow>
              let last_error = dlq_message record err in
              case serialize_record c (dlq_record last_error now2 record) of
                Inl e \<Rightarrow> (Inl e, s)
              | Inr new_payload \<Rightarrow>
                  (Inr (),
                   s\<lparr>st_jobs := upd_where (\<lambda>r. r_id r = i)
                       (\<lambda>r. r\<lparr>r_status := ''DLQ'', r_completed_at := Some now, r_lease_until := None,
                              r_last_error := Some last_error, r_payload := new_payload\<rparr>)
                       (st_jobs s)\<rparr>))"

definition conflict_result :: "32 word \<Rightarrow> json option \<Rightarrow> job_result" where
  "conflict_result duration_ms v =
     \<lparr>re_success = False, re_duration_ms = duration_ms, re_cost_usd = None,
      re_result_note = None, re_conflict_payload = v\<rparr>"

definition mark_conflict ::
  "'p codec \<Rightarrow> time \<Rightarrow> time \<Rightarrow> ulid \<Rightarrow> string \<Rightarrow> 32 word \<Rightarrow> ('p, unit) op" where
  "mark_conflict c now now2 i result_note_md duration_ms s =
     (case List.find (\<lambda>r. r_id r = i) (st_jobs s) of
        None \<Rightarrow> (Inl (NotFound i), s)
      | Some r \<Rightarrow>
          case deserialize_record c (r_payload r) of
            Inl e \<Rightarrow> (Inl e, s)
          | Inr record \<Rightarrow>
              case serialize_record c
                     (set_result (Some (conflict_result duration_ms (parse_value c result_note_md)))
                       (set_completed_at (Some now2) (set_status Conflict record))) of
                Inl e \<Rightarrow> (Inl e, s)
              | Inr new_payload \<Rightarrow>
                  (Inr (),
                   publish (JobCompleted i Conflict (conflict_result duration_ms None))
                     (s\<lparr>st_jobs := upd_where (\<lambda>r. r_id r = i)
                         (\<lambda>r. r\<lparr>r_status := ''Conflict'', r_completed_at := Some now,
                                r_lease_until := None, r_last_error := Some (take 256 result_note_md),
                                r_payload := new_payload\<rparr>)
                         (st_jobs s)\<rparr>)))"

subsection \<open>Maintenance\<close>

text \<open>\<open>ttl\<close> is \<open>None\<close> when the duration is outside the range of the \<open>chrono\<close> crate.\<close>

definition recover_stale_leases :: "time \<Rightarrow> time \<Rightarrow> time option \<Rightarrow> ('p, ulid list) op" where
  "recover_stale_leases now now2 ttl s =
     (case ttl of
        None \<Rightarrow> (Inr [], s)
      | Some d \<Rightarrow>
          let P = (\<lambda>r. r_status r = ''Running''
                     \<and> (case r_lease_until r of None \<Rightarrow> False | Some l \<Rightarrow> l < now - d)) in
          (Inr (map r_id (filter P (st_jobs s))),
           s\<lparr>st_jobs := upd_where P
               (\<lambda>r. r\<lparr>r_status := ''Pending'', r_lease_until := None, r_scheduled_at := now2\<rparr>)
               (st_jobs s)\<rparr>))"

definition cancel_expired_deadlines :: "time \<Rightarrow> ('p, ulid list) op" where
  "cancel_expired_deadlines now s =
     (let P = (\<lambda>r. (case r_deadline r of None \<Rightarrow> False | Some d \<Rightarrow> d < now) \<and> not_terminal_row r);
          ids = map r_id (filter P (st_jobs s));
          s1 = s\<lparr>st_jobs := upd_where P
                   (\<lambda>r. r\<lparr>r_status := ''Cancelled'', r_completed_at := Some now\<rparr>) (st_jobs s)\<rparr>
      in (Inr ids, fold (\<lambda>i. publish (JobCancelled i)) ids s1))"

definition max_retries_message :: "32 word \<Rightarrow> 32 word \<Rightarrow> string" where
  "max_retries_message n m =
     ''max_retries atteint ('' @ show_nat (unat n) @ '' / '' @ show_nat (unat m) @ '')''"

text \<open>The loop over the rows selected by \<open>promote_retries\<close>; \<open>clk\<close> gives the two clock readings of
  the \<open>fail_dlq\<close> call made for a row.\<close>

fun promote_retries_loop ::
  "'p codec \<Rightarrow> time \<Rightarrow> (ulid \<Rightarrow> time \<times> time) \<Rightarrow> (ulid \<times> 'p \<times> int) list \<Rightarrow> ulid list
   \<Rightarrow> ('p, ulid list) op" where
  "promote_retries_loop c now clk [] promoted s = (Inr promoted, s)"
| "promote_retries_loop c now clk ((id_str, payload, attempts) # rows) promoted s =
     (case deserialize_record c payload of
        Inl e \<Rightarrow> (Inl e, s)
      | Inr record \<Rightarrow>
          let count = word_of_int attempts :: 32 word;
              mx = rt_max (jr_retry record);
              i = jr_id record
          in if mx \<le> count then
               (case fail_dlq c (fst (clk id_str)) (snd (clk id_str)) i (max_retries_message count mx) s of
                  (Inl e, s') \<Rightarrow> (Inl e, s')
                | (Inr _, s') \<Rightarrow> promote_retries_loop c now clk rows promoted s')
             else
               promote_retries_loop c now clk rows (promoted @ [i])
                 (s\<lparr>st_jobs := upd_where (\<lambda>r. r_id r = id_str \<and> r_status r = ''Failed'')
                     (\<lambda>r. r\<lparr>r_status := ''Pending'', r_scheduled_at := now\<rparr>) (st_jobs s)\<rparr>))"

definition promote_retries :: "'p codec \<Rightarrow> time \<Rightarrow> (ulid \<Rightarrow> time \<times> time) \<Rightarrow> ('p, ulid list) op" where
  "promote_retries c now clk s =
     promote_retries_loop c now clk
       (map (\<lambda>r. (r_id r, r_payload r, r_attempt_count r))
         (filter (\<lambda>r. r_status r = ''Failed'' \<and> r_scheduled_at r \<le> now) (st_jobs s)))
       [] s"

definition schedule_retry :: "ulid \<Rightarrow> time \<Rightarrow> ('p, unit) op" where
  "schedule_retry i retry_at s =
     (Inr (), s\<lparr>st_jobs := upd_where (\<lambda>r. r_id r = i \<and> r_status r = ''Running'')
                 (\<lambda>r. r\<lparr>r_status := ''Failed'', r_lease_until := None, r_scheduled_at := retry_at\<rparr>)
                 (st_jobs s)\<rparr>)"

fun promote_stranded_loop :: "'p codec \<Rightarrow> 'p list \<Rightarrow> 32 word \<Rightarrow> ('p, 32 word) op" where
  "promote_stranded_loop c [] promoted s = (Inr promoted, s)"
| "promote_stranded_loop c (payload # ps) promoted s =
     (case deserialize_record c payload of
        Inl e \<Rightarrow> (Inl e, s)
      | Inr record \<Rightarrow>
          if await_ids record = [] then promote_stranded_loop c ps promoted s
          else if all_jobs_done (await_ids record) s
          then promote_stranded_loop c ps (promoted + 1) (set_pending (jr_id record) s)
          else promote_stranded_loop c ps promoted s)"

definition promote_stranded_waiting_jobs :: "'p codec \<Rightarrow> ('p, 32 word) op" where
  "promote_stranded_waiting_jobs c s =
     promote_stranded_loop c
       (map r_payload (filter (\<lambda>r. r_status r = ''Waiting'' \<and> r_await_jobs r \<noteq> None
                                \<and> r_await_jobs r \<noteq> Some []) (st_jobs s)))
       0 s"

definition dlq_older :: "time option \<Rightarrow> 'p row \<Rightarrow> bool" where
  "dlq_older older_than r =
     (r_status r = ''DLQ'' \<and> (case older_than of None \<Rightarrow> True | Some t \<Rightarrow> r_created_at r < t))"

definition delete_dlq_jobs :: "time option \<Rightarrow> ('p, nat) op" where
  "delete_dlq_jobs older_than s =
     (Inr (rows_affected (dlq_older older_than) (st_jobs s)),
      s\<lparr>st_jobs := del_where (dlq_older older_than) (st_jobs s)\<rparr>)"

definition count_dlq_jobs :: "time option \<Rightarrow> 'p store \<Rightarrow> (queue_error, nat) result" where
  "count_dlq_jobs older_than s = Inr (rows_affected (dlq_older older_than) (st_jobs s))"

subsection \<open>Lemmas\<close>

lemma status_to_str_inject [simp, status_simps]: "status_to_str a = status_to_str b \<longleftrightarrow> a = b"
  by (cases a; cases b) simp_all

lemma str_to_status_to_str [simp, status_simps]: "str_to_status (status_to_str st) = Inr st"
  by (cases st) (simp_all add: str_to_status_def)

lemma str_to_status_Inr: "str_to_status s = Inr st \<Longrightarrow> s = status_to_str st"
  by (auto simp: str_to_status_def split: if_splits)

text \<open>The SQL list of terminal statuses is the Rust predicate.\<close>

lemma terminal_sql_iff [status_simps]: "status_to_str st \<in> set TERMINAL_SQL \<longleftrightarrow> is_terminal st"
  by (cases st) (simp_all add: TERMINAL_SQL_def)

lemma terminal_sql_cases:
  "s \<in> set TERMINAL_SQL \<longleftrightarrow> s = ''Done'' \<or> s = ''DLQ'' \<or> s = ''Cancelled'' \<or> s = ''Conflict''"
  by (auto simp: TERMINAL_SQL_def)

lemma class_debug_inject: "class_debug a = class_debug b \<longleftrightarrow> a = b"
  by (cases a; cases b) simp_all

lemma serialize_Inr: "serialize_record c r = Inr p \<longleftrightarrow> to_json c r = Inr p"
  by (auto simp: serialize_record_def split: sum.splits)

lemma deserialize_Inr: "deserialize_record c p = Inr r \<longleftrightarrow> from_json c p = Inr r"
  by (auto simp: deserialize_record_def split: sum.splits)

lemma codec_ok_serialize:
  assumes "codec_ok c"
  obtains p where "serialize_record c r = Inr p" "deserialize_record c p = Inr r"
  using assms unfolding codec_ok_def serialize_Inr deserialize_Inr by blast

lemma codec_ok_read_back:
  assumes "codec_ok c" "to_json c r = Inr p"
  shows "from_json c p = Inr r"
proof -
  from assms(1) obtain q where "to_json c r = Inr q" "from_json c q = Inr r"
    unfolding codec_ok_def by blast
  with assms(2) show ?thesis by simp
qed

lemma publish_jobs [simp]: "st_jobs (publish e s) = st_jobs s"
  by (simp add: publish_def)

lemma fold_publish_jobs [simp]: "st_jobs (fold (\<lambda>i. publish (f i)) is s) = st_jobs s"
  by (induction "is" arbitrary: s) simp_all

text \<open>What the record updates leave alone.\<close>

lemma set_status_simps [simp]:
  "jr_id (set_status st r) = jr_id r" "jr_spec (set_status st r) = jr_spec r"
  "jr_scheduling (set_status st r) = jr_scheduling r" "jr_retry (set_status st r) = jr_retry r"
  "jr_lineage (set_status st r) = jr_lineage r"
  "jr_lifecycle (set_status st r) = (jr_lifecycle r)\<lparr>lc_status := st\<rparr>"
  by (simp_all add: set_status_def)

lemma set_completed_at_simps [simp]:
  "jr_id (set_completed_at t r) = jr_id r" "jr_spec (set_completed_at t r) = jr_spec r"
  "jr_scheduling (set_completed_at t r) = jr_scheduling r"
  "jr_retry (set_completed_at t r) = jr_retry r"
  "jr_lineage (set_completed_at t r) = jr_lineage r"
  "jr_lifecycle (set_completed_at t r) = (jr_lifecycle r)\<lparr>lc_completed_at := t\<rparr>"
  by (simp_all add: set_completed_at_def)

lemma set_result_simps [simp]:
  "jr_id (set_result x r) = jr_id r" "jr_spec (set_result x r) = jr_spec r"
  "jr_scheduling (set_result x r) = jr_scheduling r" "jr_retry (set_result x r) = jr_retry r"
  "jr_lineage (set_result x r) = jr_lineage r"
  "jr_lifecycle (set_result x r) = (jr_lifecycle r)\<lparr>lc_result := x\<rparr>"
  by (simp_all add: set_result_def)

lemma fail_record_simps [simp]:
  "jr_id (fail_record e a t r) = jr_id r" "jr_spec (fail_record e a t r) = jr_spec r"
  "jr_scheduling (fail_record e a t r) = jr_scheduling r"
  "lc_created_at (jr_lifecycle (fail_record e a t r)) = lc_created_at (jr_lifecycle r)"
  "lc_status (jr_lifecycle (fail_record e a t r)) = Failed"
  by (simp_all add: fail_record_def Let_def)

lemma dlq_record_simps [simp]:
  "jr_id (dlq_record m t r) = jr_id r" "jr_spec (dlq_record m t r) = jr_spec r"
  "jr_scheduling (dlq_record m t r) = jr_scheduling r"
  "lc_created_at (jr_lifecycle (dlq_record m t r)) = lc_created_at (jr_lifecycle r)"
  "lc_status (jr_lifecycle (dlq_record m t r)) = DLQ"
  by (simp_all add: dlq_record_def Let_def)

lemma lease_row_simps [simp]:
  "r_id (lease_row l n r) = r_id r" "r_payload (lease_row l n r) = r_payload r"
  "r_status (lease_row l n r) = ''Running''" "r_lease_until (lease_row l n r) = Some l"
  "r_tenant_id (lease_row l n r) = r_tenant_id r" "r_kind (lease_row l n r) = r_kind r"
  "r_attempt_count (lease_row l n r) = r_attempt_count r + 1"
  "r_priority (lease_row l n r) = r_priority r" "r_class (lease_row l n r) = r_class r"
  "r_created_at (lease_row l n r) = r_created_at r" "r_await_jobs (lease_row l n r) = r_await_jobs r"
  "r_deadline (lease_row l n r) = r_deadline r"
  by (simp_all add: lease_row_def)

lemma collect_results_Inr:
  "collect_results rs = Inr xs \<longleftrightarrow> rs = map Inr xs"
proof (induction rs arbitrary: xs rule: collect_results.induct)
  case (3 x rs)
  show ?case
  proof (cases "collect_results rs")
    case (Inl e)
    with 3 have "rs \<noteq> map Inr ys" for ys by auto
    with Inl show ?thesis by (cases xs) auto
  next
    case (Inr ys)
    with 3 have "rs = map Inr ys" by auto
    with Inr show ?thesis by (cases xs) auto
  qed
qed auto

text \<open>A count of distinct keys reaches the number of keys exactly when every key is counted.\<close>

lemma all_jobs_done_distinct:
  assumes "distinct (map r_id (st_jobs s))" "distinct ids"
  shows "all_jobs_done ids s
     \<longleftrightarrow> (\<forall>i\<in>set ids. \<exists>r\<in>set (st_jobs s). r_id r = i \<and> r_status r = ''Done'')"
proof -
  let ?done = "\<lambda>i. \<exists>r\<in>set (st_jobs s). r_id r = i \<and> r_status r = ''Done''"
  let ?D = "filter (\<lambda>r. r_id r \<in> set ids \<and> r_status r = ''Done'') (st_jobs s)"
  have card: "length ?D = card (r_id ` set ?D)"
    using distinct_card [OF distinct_map_filter [OF assms(1)]] by simp
  have sub: "r_id ` set ?D \<subseteq> set ids"
    by auto
  have "length ids = card (set ids)"
    using assms(2) by (simp add: distinct_card)
  with card have "length ?D = length ids \<longleftrightarrow> card (r_id ` set ?D) = card (set ids)"
    by simp
  also have "\<dots> \<longleftrightarrow> r_id ` set ?D = set ids"
    using card_subset_eq [OF _ sub] by auto
  also have "r_id ` set ?D = {i \<in> set ids. ?done i}"
    by auto
  also have "{i \<in> set ids. ?done i} = set ids \<longleftrightarrow> (\<forall>i\<in>set ids. ?done i)"
    by (simp add: set_eq_iff) blast
  finally have "length ?D = length ids \<longleftrightarrow> (\<forall>i\<in>set ids. ?done i)" .
  then show ?thesis
    by (cases "ids = []") (simp_all add: all_jobs_done_def rows_affected_def)
qed

end
