(* ===== verification/Queue_Machine.thy ===== *)
theory Queue_Machine
  imports Queue_Store
begin

text \<open>
  What a queue store promises of one job, apart from the SQL that implements it.  \<open>row_step\<close> is the
  life of a job row as a state machine with one rule per cause of a change; \<open>evolves\<close> lifts it to
  the table: rows change by \<open>row_step\<close>, a new row is appended, or dead-lettered rows are deleted.
  The refinement lemmas \<open>*_evolves\<close> show that each operation of \<open>Queue_Store\<close> implements it.
  Properties of every operation are then proved once, by cases on \<open>row_step\<close>.
\<close>

subsection \<open>The machine\<close>

text \<open>A rewritten payload is the same job: identity, specification, schedule and creation stay.\<close>

definition same_job :: "job_record \<Rightarrow> job_record \<Rightarrow> bool" where
  "same_job a b \<longleftrightarrow> jr_id a = jr_id b \<and> jr_spec a = jr_spec b \<and> jr_scheduling a = jr_scheduling b
     \<and> lc_created_at (jr_lifecycle a) = lc_created_at (jr_lifecycle b)"

definition payload_upd :: "'p codec \<Rightarrow> job_status \<Rightarrow> 'p \<Rightarrow> 'p \<Rightarrow> bool" where
  "payload_upd c st p p' \<longleftrightarrow>
     (\<exists>a b. from_json c p = Inr a \<and> to_json c b = Inr p' \<and> same_job a b
        \<and> lc_status (jr_lifecycle b) = st)"

definition payload_purged :: "'p codec \<Rightarrow> 'p \<Rightarrow> 'p \<Rightarrow> bool" where
  "payload_purged c p p' \<longleftrightarrow>
     (\<exists>a. from_json c p = Inr a
        \<and> to_json c (a\<lparr>jr_spec := (jr_spec a)\<lparr>js_kind := JobPayloadPurged\<rparr>\<rparr>) = Inr p')"

inductive row_step :: "'p codec \<Rightarrow> 'p row \<Rightarrow> 'p row \<Rightarrow> bool" for c :: "'p codec" where
  rs_lease: "r_status r = ''Pending'' \<Longrightarrow> row_step c r (lease_row l n r)"
| rs_complete:
    "\<lbrakk>r_status r = ''Running''; lease_live now r; payload_upd c Done (r_payload r) p\<rbrakk> \<Longrightarrow>
     row_step c r (r\<lparr>r_status := ''Done'', r_completed_at := Some now, r_lease_until := None,
                     r_payload := p\<rparr>)"
| rs_deliver:
    "\<lbrakk>r_status r = ''Pending''; r_kind r = JOB_KIND_MESSAGE; payload_upd c Done (r_payload r) p\<rbrakk> \<Longrightarrow>
     row_step c r (r\<lparr>r_status := ''Done'', r_completed_at := Some now, r_lease_until := None,
                     r_payload := p\<rparr>)"
| rs_fail:
    "\<lbrakk>r_status r = ''Running''; lease_live now r; payload_upd c Failed (r_payload r) p; 0 \<le> n\<rbrakk> \<Longrightarrow>
     row_step c r (r\<lparr>r_status := ''Failed'', r_lease_until := None, r_last_error := Some e,
                     r_attempt_count := n, r_payload := p\<rparr>)"
| rs_cancel:
    "\<lbrakk>not_terminal_row r; payload_upd c Cancelled (r_payload r) p\<rbrakk> \<Longrightarrow>
     row_step c r (r\<lparr>r_status := ''Cancelled'', r_completed_at := Some now, r_lease_until := None,
                     r_payload := p\<rparr>)"
| rs_expire:
    "\<lbrakk>not_terminal_row r; r_deadline r = Some d; d < now\<rbrakk> \<Longrightarrow>
     row_step c r (r\<lparr>r_status := ''Cancelled'', r_completed_at := Some now\<rparr>)"
| rs_dlq:
    "payload_upd c DLQ (r_payload r) p \<Longrightarrow>
     row_step c r (r\<lparr>r_status := ''DLQ'', r_completed_at := Some now, r_lease_until := None,
                     r_last_error := Some e, r_payload := p\<rparr>)"
| rs_conflict:
    "payload_upd c Conflict (r_payload r) p \<Longrightarrow>
     row_step c r (r\<lparr>r_status := ''Conflict'', r_completed_at := Some now, r_lease_until := None,
                     r_last_error := Some e, r_payload := p\<rparr>)"
| rs_recover:
    "\<lbrakk>r_status r = ''Running''; r_lease_until r = Some l; l < limit\<rbrakk> \<Longrightarrow>
     row_step c r (r\<lparr>r_status := ''Pending'', r_lease_until := None, r_scheduled_at := now\<rparr>)"
| rs_retry:
    "r_status r = ''Failed'' \<Longrightarrow>
     row_step c r (r\<lparr>r_status := ''Pending'', r_scheduled_at := now\<rparr>)"
| rs_reschedule:
    "r_status r = ''Running'' \<Longrightarrow>
     row_step c r (r\<lparr>r_status := ''Failed'', r_lease_until := None, r_scheduled_at := now\<rparr>)"
| rs_release:
    "r_status r = ''Waiting'' \<Longrightarrow> row_step c r (r\<lparr>r_status := ''Pending''\<rparr>)"
| rs_purge:
    "\<lbrakk>r_status r \<in> set TERMINAL_SQL; payload_purged c (r_payload r) p\<rbrakk> \<Longrightarrow>
     row_step c r (r\<lparr>r_payload := p\<rparr>)"

text \<open>What the callers of \<open>enqueue\<close> submit: a fresh job, waiting or ready, with its payload.\<close>

definition enqueue_ok :: "job_record \<Rightarrow> bool" where
  "enqueue_ok job \<longleftrightarrow>
     lc_status (jr_lifecycle job) \<in> {Pending, Waiting} \<and> js_kind (jr_spec job) \<noteq> JobPayloadPurged"

inductive evolves :: "'p codec \<Rightarrow> 'p row list \<Rightarrow> 'p row list \<Rightarrow> bool" for c :: "'p codec" where
  ev_rows: "list_all2 (row_step c)\<^sup>*\<^sup>* t t' \<Longrightarrow> evolves c t t'"
| ev_insert:
    "\<lbrakk>enqueue_ok job; to_json c job = Inr p; jr_id job \<notin> r_id ` set t\<rbrakk> \<Longrightarrow>
     evolves c t (t @ [new_row job p])"
| ev_delete:
    "(\<And>r. r \<in> set t \<Longrightarrow> P r \<Longrightarrow> r_status r = ''DLQ'') \<Longrightarrow> evolves c t (del_where P t)"

subsection \<open>Laws of the machine\<close>

inductive_cases row_stepE: "row_step c r r'"

lemma row_step_id: "row_step c r r' \<Longrightarrow> r_id r' = r_id r"
  by (induction rule: row_step.induct) simp_all

text \<open>The columns written at insertion never change.\<close>

lemma row_step_static:
  "row_step c r r' \<Longrightarrow>
   r_id r' = r_id r \<and> r_priority r' = r_priority r \<and> r_class r' = r_class r
   \<and> r_created_at r' = r_created_at r \<and> r_deadline r' = r_deadline r
   \<and> r_await_jobs r' = r_await_jobs r \<and> r_kind r' = r_kind r \<and> r_tenant_id r' = r_tenant_id r"
  by (induction rule: row_step.induct) simp_all

lemma row_steps_static:
  assumes "(row_step c)\<^sup>*\<^sup>* r r'"
  shows "r_id r' = r_id r" "r_priority r' = r_priority r" "r_class r' = r_class r"
    "r_created_at r' = r_created_at r" "r_deadline r' = r_deadline r"
    "r_await_jobs r' = r_await_jobs r" "r_kind r' = r_kind r" "r_tenant_id r' = r_tenant_id r"
  using assms by (induction rule: rtranclp_induct) (auto dest: row_step_static)

text \<open>A terminal row stays terminal.\<close>

lemma row_step_terminal:
  "row_step c r r' \<Longrightarrow> r_status r \<in> set TERMINAL_SQL \<Longrightarrow> r_status r' \<in> set TERMINAL_SQL"
  by (induction rule: row_step.induct) (auto simp: TERMINAL_SQL_def not_terminal_row_def)

lemma row_steps_terminal:
  "(row_step c)\<^sup>*\<^sup>* r r' \<Longrightarrow> r_status r \<in> set TERMINAL_SQL \<Longrightarrow> r_status r' \<in> set TERMINAL_SQL"
  by (induction rule: rtranclp_induct) (auto dest: row_step_terminal)

lemma row_steps_inv:
  assumes "\<And>r r'. row_step c r r' \<Longrightarrow> I r \<Longrightarrow> I r'"
  shows "(row_step c)\<^sup>*\<^sup>* r r' \<Longrightarrow> I r \<Longrightarrow> I r'"
  by (induction rule: rtranclp_induct) (auto dest: assms)

lemma list_all2_row_steps_ids:
  "list_all2 (row_step c)\<^sup>*\<^sup>* t t' \<Longrightarrow> map r_id t' = map r_id t"
  by (induction rule: list_all2_induct) (auto dest: row_steps_static(1))

lemma list_all2_row_steps_refl [simp]: "list_all2 (row_step c)\<^sup>*\<^sup>* t t"
  by (simp add: list_all2_refl)

lemma list_all2_row_steps_trans:
  "list_all2 (row_step c)\<^sup>*\<^sup>* t u \<Longrightarrow> list_all2 (row_step c)\<^sup>*\<^sup>* u v \<Longrightarrow> list_all2 (row_step c)\<^sup>*\<^sup>* t v"
  by (erule list_all2_trans [rotated], assumption) auto

lemma evolves_refl [simp]: "evolves c t t"
  by (rule ev_rows) simp

text \<open>An \<open>UPDATE\<close> whose rows each make one step.\<close>

lemma upd_where_steps:
  assumes "\<And>r. r \<in> set t \<Longrightarrow> P r \<Longrightarrow> row_step c r (f r)"
  shows "list_all2 (row_step c)\<^sup>*\<^sup>* t (upd_where P f t)"
  using assms by (induction t) auto

text \<open>Invariants of rows lift to tables.\<close>

lemma evolves_rows_inv:
  assumes "evolves c t t'" "\<forall>r\<in>set t. I r"
    and step: "\<And>r r'. row_step c r r' \<Longrightarrow> I r \<Longrightarrow> I r'"
    and new: "\<And>job p. enqueue_ok job \<Longrightarrow> to_json c job = Inr p \<Longrightarrow> I (new_row job p)"
  shows "\<forall>r\<in>set t'. I r"
  using assms(1,2)
proof (induction rule: evolves.induct)
  case (ev_rows t t')
  then show ?case
    using row_steps_inv [of c I, OF step] by (induction rule: list_all2_induct) auto
next
  case (ev_insert job p t)
  then show ?case by (auto intro: new)
next
  case (ev_delete t P)
  then show ?case by (auto simp: table_simps)
qed

lemma evolves_distinct:
  "evolves c t t' \<Longrightarrow> distinct (map r_id t) \<Longrightarrow> distinct (map r_id t')"
proof (induction rule: evolves.induct)
  case (ev_rows t t')
  then show ?case by (simp add: list_all2_row_steps_ids)
next
  case (ev_insert job p t)
  then show ?case by (auto simp: new_row_def)
next
  case (ev_delete t P)
  then show ?case by (simp add: del_where_def distinct_map_filter)
qed

text \<open>A row that survives has made steps of the machine.\<close>

lemma evolves_row:
  assumes "evolves c t t'" "distinct (map r_id t)" "r \<in> set t" "r' \<in> set t'" "r_id r' = r_id r"
  shows "(row_step c)\<^sup>*\<^sup>* r r'"
  using assms
proof (induction rule: evolves.induct)
  case (ev_rows t t')
  from ev_rows(1) have len: "length t = length t'"
    by (rule list_all2_lengthD)
  from ev_rows.prems(3) obtain k where k: "k < length t'" "t' ! k = r'"
    by (auto simp: in_set_conv_nth)
  with ev_rows(1) len have "(row_step c)\<^sup>*\<^sup>* (t ! k) r'"
    by (auto simp: list_all2_conv_all_nth)
  moreover from this have "r_id (t ! k) = r_id r"
    using ev_rows.prems(4) by (simp add: row_steps_static(1))
  then have "t ! k = r"
    by (rule distinct_key_eq [OF ev_rows.prems(1) _ ev_rows.prems(2), rotated]) (simp add: k len)
  ultimately show ?case by simp
next
  case (ev_insert job p t)
  then show ?case by (auto simp: new_row_def dest: distinct_key_eq)
next
  case (ev_delete t P)
  then show ?case by (auto simp: table_simps dest: distinct_key_eq)
qed

subsection \<open>The store operations implement the machine\<close>

abbreviation steps :: "'p codec \<Rightarrow> 'p row list \<Rightarrow> 'p row list \<Rightarrow> bool" where
  "steps c \<equiv> list_all2 (row_step c)\<^sup>*\<^sup>*"

abbreviation unique_ids :: "'p store \<Rightarrow> bool" where
  "unique_ids s \<equiv> distinct (map r_id (st_jobs s))"

lemma payload_updI:
  "deserialize_record c p = Inr a \<Longrightarrow> serialize_record c b = Inr p' \<Longrightarrow> same_job a b \<Longrightarrow>
   lc_status (jr_lifecycle b) = st \<Longrightarrow> payload_upd c st p p'"
  by (auto simp: payload_upd_def deserialize_Inr serialize_Inr)

lemma same_job_simps [simp]:
  "same_job a (set_result x b) = same_job a b"
  "same_job a (set_completed_at t b) = same_job a b"
  "same_job a (set_status st b) = same_job a b"
  "same_job a (fail_record e n t2 b) = same_job a b"
  "same_job a (dlq_record m t2 b) = same_job a b"
  "same_job a a"
  by (simp_all add: same_job_def)

text \<open>An \<open>UPDATE\<close> of the row that a \<open>SELECT\<close> by primary key has just returned.\<close>

lemma update_found_steps:
  assumes "distinct (map r_id t)" "List.find Q t = Some r" "\<And>x. Q x \<Longrightarrow> r_id x = i"
    and "\<And>x. P x \<Longrightarrow> r_id x = i" "Q r \<Longrightarrow> P r \<Longrightarrow> row_step c r (f r)"
  shows "steps c t (upd_where P f t)"
proof (rule upd_where_steps)
  fix x assume x: "x \<in> set t" "P x"
  from assms(2) have r: "r \<in> set t" "Q r"
    by (auto dest: find_Some_iff)
  with x assms(3,4) have "r_id x = r_id r" by simp
  with x r assms(1) have "x = r" by (blast dest: distinct_key_eq)
  with x r assms(5) show "row_step c x (f x)" by simp
qed

lemma set_pending_steps: "steps c (st_jobs s) (st_jobs (set_pending i s))"
  by (auto simp: set_pending_def intro!: upd_where_steps rs_release)

lemma promote_dependents_steps: "steps c (st_jobs s) (st_jobs (promote_dependents deps s))"
proof (induction deps s rule: promote_dependents.induct)
  case (2 dep deps s)
  then show ?case
    using list_all2_row_steps_trans [OF set_pending_steps] by (simp split: if_splits)
qed simp

lemma cascade_steps: "steps c (st_jobs s) (st_jobs (snd (cascade_check_and_promote c i s)))"
  by (simp add: cascade_check_and_promote_def promote_dependents_steps split: sum.split)

lemma lease_and_return_steps:
  assumes "unique_ids s" "r \<in> set (st_jobs s)" "r_status r = ''Pending''"
  shows "steps c (st_jobs s) (st_jobs (snd (lease_and_return c now l r s)))"
proof -
  have "steps c (st_jobs s) (upd_where (\<lambda>x. r_id x = r_id r) (lease_row l now) (st_jobs s))"
    using assms by (auto intro!: upd_where_steps rs_lease dest: distinct_key_eq)
  then show ?thesis
    by (simp add: lease_and_return_def Let_def split: sum.split)
qed

lemma dequeue_steps:
  assumes "unique_ids s"
  shows "steps c (st_jobs s) (st_jobs (snd (dequeue c now now2 tf s)))"
  unfolding dequeue_def
  using assms
  by (auto split: option.split intro!: lease_and_return_steps dest: select_first_Some(1,2))

lemma dequeue_by_kind_steps:
  assumes "unique_ids s"
  shows "steps c (st_jobs s) (st_jobs (snd (dequeue_by_kind c now now2 k tf s)))"
  unfolding dequeue_by_kind_def
  using assms
  by (auto split: option.split intro!: lease_and_return_steps dest: select_first_Some(1,2))

lemma complete_steps:
  assumes u: "unique_ids s"
  shows "steps c (st_jobs s) (st_jobs (snd (complete c now now2 i res s)))"
proof -
  let ?Q = "\<lambda>r. r_id r = i \<and> r_status r = ''Running''"
  let ?P = "\<lambda>r. r_id r = i \<and> r_status r = ''Running'' \<and> lease_live now r"
  have "steps c (st_jobs s) (upd_where ?P
          (\<lambda>r. r\<lparr>r_status := ''Done'', r_completed_at := Some now, r_lease_until := None,
                 r_payload := p\<rparr>) (st_jobs s))"
    if "List.find ?Q (st_jobs s) = Some r" "deserialize_record c (r_payload r) = Inr a"
      "serialize_record c (set_result x (set_completed_at y (set_status Done a))) = Inr p" for r a p x y
    by (rule update_found_steps [OF u that(1)])
      (auto intro!: rs_complete payload_updI [OF that(2,3)])
  then show ?thesis
    unfolding complete_def Let_def
    by (auto split: option.split sum.split intro: list_all2_row_steps_trans [OF _ cascade_steps])
qed

lemma complete_message_delivery_steps:
  assumes u: "unique_ids s"
  shows "steps c (st_jobs s) (st_jobs (snd (complete_message_delivery c now now2 i res s)))"
proof -
  let ?P = "\<lambda>r. r_id r = i \<and> r_kind r = JOB_KIND_MESSAGE \<and> r_status r = ''Pending''"
  have "steps c (st_jobs s) (upd_where ?P
          (\<lambda>r. r\<lparr>r_status := ''Done'', r_completed_at := Some now, r_lease_until := None,
                 r_payload := p\<rparr>) (st_jobs s))"
    if "List.find ?P (st_jobs s) = Some r" "deserialize_record c (r_payload r) = Inr a"
      "serialize_record c (set_result x (set_completed_at y (set_status Done a))) = Inr p" for r a p x y
    by (rule update_found_steps [OF u that(1)])
      (auto intro!: rs_deliver payload_updI [OF that(2,3)])
  then show ?thesis
    unfolding complete_message_delivery_def Let_def
    by (auto split: option.split sum.split)
qed

lemma fail_steps:
  assumes u: "unique_ids s"
  shows "steps c (st_jobs s) (st_jobs (snd (fail c now now2 i err n s)))"
proof -
  let ?Q = "\<lambda>r. r_id r = i \<and> r_status r = ''Running''"
  let ?P = "\<lambda>r. r_id r = i \<and> r_status r = ''Running'' \<and> lease_live now r"
  have "steps c (st_jobs s) (upd_where ?P
          (\<lambda>r. r\<lparr>r_status := ''Failed'', r_lease_until := None, r_last_error := Some e,
                 r_attempt_count := uint n, r_payload := p\<rparr>) (st_jobs s))"
    if "List.find ?Q (st_jobs s) = Some r" "deserialize_record c (r_payload r) = Inr a"
      "serialize_record c (fail_record e n now2 a) = Inr p" for r a p e
    by (rule update_found_steps [OF u that(1)])
      (auto intro!: rs_fail payload_updI [OF that(2,3)])
  then show ?thesis
    unfolding fail_def Let_def by (auto split: option.split sum.split)
qed

lemma cancel_steps:
  assumes u: "unique_ids s"
  shows "steps c (st_jobs s) (st_jobs (snd (cancel c now i tf s)))"
proof -
  let ?P = "\<lambda>r. r_id r = i \<and> not_terminal_row r \<and> opt_eq tf (r_tenant_id r)"
  have "steps c (st_jobs s) (upd_where ?P
          (\<lambda>r. r\<lparr>r_status := ''Cancelled'', r_completed_at := Some now, r_lease_until := None,
                 r_payload := p\<rparr>) (st_jobs s))"
    if "List.find ?P (st_jobs s) = Some r" "deserialize_record c (r_payload r) = Inr a"
      "serialize_record c (set_completed_at y (set_status Cancelled a)) = Inr p" for r a p y
    by (rule update_found_steps [OF u that(1)])
      (auto intro!: rs_cancel payload_updI [OF that(2,3)])
  then show ?thesis
    unfolding cancel_def Let_def by (auto split: option.split sum.split)
qed

lemma fail_dlq_steps:
  assumes u: "unique_ids s"
  shows "steps c (st_jobs s) (st_jobs (snd (fail_dlq c now now2 i err s)))"
proof -
  have "steps c (st_jobs s) (upd_where (\<lambda>r. r_id r = i)
          (\<lambda>r. r\<lparr>r_status := ''DLQ'', r_completed_at := Some now, r_lease_until := None,
                 r_last_error := Some e, r_payload := p\<rparr>) (st_jobs s))"
    if "List.find (\<lambda>r. r_id r = i) (st_jobs s) = Some r"
      "deserialize_record c (r_payload r) = Inr a"
      "serialize_record c (dlq_record e now2 a) = Inr p" for r a p e
    by (rule update_found_steps [OF u that(1)])
      (auto intro!: rs_dlq payload_updI [OF that(2,3)])
  then show ?thesis
    unfolding fail_dlq_def Let_def by (auto split: option.split sum.split)
qed

lemma mark_conflict_steps:
  assumes u: "unique_ids s"
  shows "steps c (st_jobs s) (st_jobs (snd (mark_conflict c now now2 i md d s)))"
proof -
  have "steps c (st_jobs s) (upd_where (\<lambda>r. r_id r = i)
          (\<lambda>r. r\<lparr>r_status := ''Conflict'', r_completed_at := Some now, r_lease_until := None,
                 r_last_error := Some e, r_payload := p\<rparr>) (st_jobs s))"
    if "List.find (\<lambda>r. r_id r = i) (st_jobs s) = Some r"
      "deserialize_record c (r_payload r) = Inr a"
      "serialize_record c (set_result x (set_completed_at y (set_status Conflict a))) = Inr p"
    for r a p e x y
    by (rule update_found_steps [OF u that(1)])
      (auto intro!: rs_conflict payload_updI [OF that(2,3)])
  then show ?thesis
    unfolding mark_conflict_def by (auto split: option.split sum.split)
qed

lemma steps_unique_ids: "steps c (st_jobs s) (st_jobs s') \<Longrightarrow> unique_ids s \<Longrightarrow> unique_ids s'"
  by (simp add: list_all2_row_steps_ids)

lemma recover_stale_leases_steps:
  "steps c (st_jobs s) (st_jobs (snd (recover_stale_leases now now2 ttl s)))"
  by (auto simp: recover_stale_leases_def Let_def split: option.splits
      intro!: upd_where_steps intro: rs_recover)

lemma cancel_expired_deadlines_steps:
  "steps c (st_jobs s) (st_jobs (snd (cancel_expired_deadlines now s)))"
  by (auto simp: cancel_expired_deadlines_def Let_def split: option.splits
      intro!: upd_where_steps intro: rs_expire)

lemma schedule_retry_steps: "steps c (st_jobs s) (st_jobs (snd (schedule_retry i t s)))"
  by (auto simp: schedule_retry_def intro!: upd_where_steps rs_reschedule)

lemma promote_retries_loop_steps:
  "unique_ids s \<Longrightarrow> steps c (st_jobs s) (st_jobs (snd (promote_retries_loop c now clk rows acc s)))"
proof (induction c now clk rows acc s rule: promote_retries_loop.induct)
  case (2 c now clk i p n rows acc s)
  show ?case
  proof (cases "deserialize_record c p")
    case (Inr rec)
    let ?m = "max_retries_message (word_of_int n) (rt_max (jr_retry rec))"
    let ?d = "fail_dlq c (fst (clk i)) (snd (clk i)) (jr_id rec) ?m s"
    let ?s' = "s\<lparr>st_jobs := upd_where (\<lambda>r. r_id r = i \<and> r_status r = ''Failed'')
                     (\<lambda>r. r\<lparr>r_status := ''Pending'', r_scheduled_at := now\<rparr>) (st_jobs s)\<rparr>"
    have dlq: "steps c (st_jobs s) (st_jobs (snd ?d))"
      by (rule fail_dlq_steps [OF 2(3)])
    have upd: "steps c (st_jobs s) (st_jobs ?s')"
      by (auto intro!: upd_where_steps rs_retry)
    show ?thesis
    proof (cases "rt_max (jr_retry rec) \<le> word_of_int n")
      case True
      show ?thesis
      proof (cases ?d)
        case (Pair res s2)
        with dlq have "steps c (st_jobs s) (st_jobs s2)" "unique_ids s2"
          using steps_unique_ids [OF dlq 2(3)] by simp_all
        with Inr True Pair 2(1) [OF Inr refl refl refl True Pair [symmetric]] show ?thesis
          by (cases res) (auto intro: list_all2_row_steps_trans)
      qed
    next
      case False
      with Inr 2(2) [OF Inr refl refl refl False] steps_unique_ids [OF upd 2(3)] upd show ?thesis
        by (auto simp: Let_def intro: list_all2_row_steps_trans)
    qed
  qed simp
qed simp

lemma promote_retries_steps:
  "unique_ids s \<Longrightarrow> steps c (st_jobs s) (st_jobs (snd (promote_retries c now clk s)))"
  by (simp add: promote_retries_def promote_retries_loop_steps)

lemma promote_stranded_loop_steps:
  "steps c (st_jobs s) (st_jobs (snd (promote_stranded_loop c ps n s)))"
proof (induction c ps n s rule: promote_stranded_loop.induct)
  case (2 c p ps n s)
  then show ?case
    by (auto split: sum.split intro: list_all2_row_steps_trans [OF set_pending_steps])
qed simp

lemma promote_stranded_steps:
  "steps c (st_jobs s) (st_jobs (snd (promote_stranded_waiting_jobs c s)))"
  by (simp add: promote_stranded_waiting_jobs_def promote_stranded_loop_steps)

lemma enqueue_evolves:
  "enqueue_ok job \<Longrightarrow> evolves c (st_jobs s) (st_jobs (snd (enqueue c job s)))"
  by (auto simp: enqueue_def serialize_Inr split: sum.split intro!: ev_insert)

lemma delete_dlq_jobs_evolves: "evolves c (st_jobs s) (st_jobs (snd (delete_dlq_jobs t s)))"
  by (auto simp: delete_dlq_jobs_def dlq_older_def intro!: ev_delete)

lemmas store_steps =
  dequeue_steps dequeue_by_kind_steps complete_steps complete_message_delivery_steps fail_steps
  cancel_steps fail_dlq_steps mark_conflict_steps recover_stale_leases_steps
  cancel_expired_deadlines_steps schedule_retry_steps promote_retries_steps promote_stranded_steps
  set_pending_steps

end
