(* ===== verification/Queue_Examples.thy ===== *)
theory Queue_Examples
  imports Queue_Machine
begin

text \<open>
  Concrete jobs, rows and stores, and a concrete codec, at which the properties of the queue
  theories are instantiated.  The codec writes a record as itself, so it satisfies \<open>codec_ok\<close>.
\<close>

definition plain_codec :: "job_record codec" where
  "plain_codec = \<lparr>to_json = Inr, from_json = Inr, parse_value = (\<lambda>_. None)\<rparr>"

lemma plain_codec_simps [simp]:
  "to_json plain_codec r = Inr r" "from_json plain_codec r = Inr r" "parse_value plain_codec s = None"
  "serialize_record plain_codec r = Inr r" "deserialize_record plain_codec r = Inr r"
  by (simp_all add: plain_codec_def serialize_record_def deserialize_record_def)

lemma plain_codec_ok [simp]: "codec_ok plain_codec"
  by (simp add: codec_ok_def)

definition sample_job :: "ulid \<Rightarrow> job_status \<Rightarrow> job \<Rightarrow> ulid list \<Rightarrow> job_record" where
  "sample_job i st k deps =
     \<lparr>jr_id = i,
      jr_spec = \<lparr>js_kind = k, js_class = ClassAgent, js_mode = ModeBatch, js_scope = ScopeVault ''acme'',
                 js_priority = PriorityHigh\<rparr>,
      jr_scheduling = \<lparr>sc_trigger = TriggerDemand, sc_scheduled_at = 0,
                       sc_await_jobs = map (\<lambda>d. \<lparr>jt_job_id = d, jt_condition = OnDone\<rparr>) deps,
                       sc_deadline = None, sc_cron_expr = None\<rparr>,
      jr_lifecycle = \<lparr>lc_status = st, lc_created_at = 0, lc_started_at = None, lc_completed_at = None,
                      lc_lease_until = None, lc_result = None\<rparr>,
      jr_retry = job_retry_default,
      jr_lineage = \<lparr>li_triggered_by = None, li_parent_job = None, li_pipeline_id = None,
                    li_pipeline_step = None, li_children = [], li_cost_usd = None\<rparr>\<rparr>"

definition sample_row :: "ulid \<Rightarrow> job_status \<Rightarrow> job \<Rightarrow> ulid list \<Rightarrow> job_record row" where
  "sample_row i st k deps = new_row (sample_job i st k deps) (sample_job i st k deps)"

definition sample_store :: "job_record row list \<Rightarrow> job_record store" where
  "sample_store rows = \<lparr>st_jobs = rows, st_events = []\<rparr>"

definition sample_result :: job_result where
  "sample_result = \<lparr>re_success = True, re_duration_ms = 7, re_cost_usd = None, re_result_note = None,
     re_conflict_payload = None\<rparr>"

text \<open>A row leased by a worker until instant \<open>l\<close>.\<close>

definition leased_row :: "ulid \<Rightarrow> job \<Rightarrow> time \<Rightarrow> job_record row" where
  "leased_row i k l = lease_row l 0 (sample_row i Pending k [])"

lemma sample_job_simps [simp]:
  "jr_id (sample_job i st k d) = i" "js_kind (jr_spec (sample_job i st k d)) = k"
  "lc_status (jr_lifecycle (sample_job i st k d)) = st" "await_ids (sample_job i st k d) = d"
  "jr_retry (sample_job i st k d) = job_retry_default"
  by (simp_all add: sample_job_def await_ids_def comp_def)

lemma sample_row_simps [simp]:
  "r_id (sample_row i st k d) = i" "r_status (sample_row i st k d) = status_to_str st"
  "r_payload (sample_row i st k d) = sample_job i st k d"
  "r_kind (sample_row i st k d) = job_kind_str k"
  "r_tenant_id (sample_row i st k d) = spec_tenant (jr_spec (sample_job i st k d))"
  "r_scheduled_at (sample_row i st k d) = 0" "r_created_at (sample_row i st k d) = 0"
  "r_priority (sample_row i st k d) = 3" "r_await_jobs (sample_row i st k d) = await_column d"
  "r_lease_until (sample_row i st k d) = None" "r_deadline (sample_row i st k d) = None"
  "r_attempt_count (sample_row i st k d) = 0"
  by (simp_all add: sample_row_def new_row_def sample_job_def await_ids_def comp_def)

lemma sample_store_simps [simp]:
  "st_jobs (sample_store rows) = rows" "st_events (sample_store rows) = []"
  by (simp_all add: sample_store_def)

end
