(* ===== verification/Queue_Purge.thy ===== *)
theory Queue_Purge
  imports Queue_Examples
begin

text \<open>
  The purge of terminal payloads of \<open>queue_store_sqlite.rs\<close>: candidate selection, one batch, the
  batch loop of \<open>purge_terminal_payloads\<close> and the dry-run counter.  The loop is a total function:
  its termination proof is that the cursor moves past at least one row at each full batch.  The
  lemmas relate the batched loop to \<open>purge_spec\<close>, the purge of all candidates at once, and show that
  it keeps every column and everything of the record but the job's payload.
  \<open>checkpoint_wal\<close> truncates the write-ahead log and has no effect on the table.
\<close>

definition PURGE_BATCH_ROWS :: nat where
  "PURGE_BATCH_ROWS = 500"

definition terminal_row :: "'p row \<Rightarrow> bool" where
  "terminal_row r \<longleftrightarrow> r_status r \<in> set TERMINAL_SQL"

text \<open>The ids of the keep window: the highest terminal ids.\<close>

definition kept_ids :: "'p row list \<Rightarrow> ulid list" where
  "kept_ids t = take TERMINAL_PAYLOAD_KEEP (rev (sort (map r_id (filter terminal_row t))))"

definition before_opt :: "time option \<Rightarrow> time \<Rightarrow> bool" where
  "before_opt cutoff x = (case cutoff of None \<Rightarrow> True | Some t \<Rightarrow> x < t)"

definition after_opt :: "ulid option \<Rightarrow> ulid \<Rightarrow> bool" where
  "after_opt after i = (case after of None \<Rightarrow> True | Some a \<Rightarrow> a < i)"

definition purge_candidate :: "time option \<Rightarrow> ulid option \<Rightarrow> ulid list \<Rightarrow> 'p row \<Rightarrow> bool" where
  "purge_candidate cutoff after kept r \<longleftrightarrow>
     terminal_row r \<and> before_opt cutoff (r_created_at r) \<and> after_opt after (r_id r)
     \<and> r_id r \<notin> set kept"

text \<open>The rows returned by the statement of \<open>purge_candidate_sql\<close>.\<close>

definition purge_candidates :: "time option \<Rightarrow> ulid option \<Rightarrow> 'p row list \<Rightarrow> 'p row list" where
  "purge_candidates cutoff after t =
     select_page (purge_candidate cutoff after (kept_ids t)) r_id PURGE_BATCH_ROWS t"

definition record_is_purgeable :: "job_record \<Rightarrow> bool" where
  "record_is_purgeable record \<longleftrightarrow> js_kind (jr_spec record) \<noteq> JobPayloadPurged"

definition purge_record :: "job_record \<Rightarrow> job_record" where
  "purge_record record = record\<lparr>jr_spec := (jr_spec record)\<lparr>js_kind := JobPayloadPurged\<rparr>\<rparr>"

record purge_batch =
  pb_selected :: nat
  pb_purged :: nat
  pb_skipped :: nat
  pb_last_id :: "ulid option"

fun purge_rows ::
  "'p codec \<Rightarrow> (ulid \<times> 'p) list \<Rightarrow> nat \<Rightarrow> nat \<Rightarrow> 'p row list
   \<Rightarrow> (queue_error, nat \<times> nat \<times> 'p row list) result" where
  "purge_rows c [] purged skipped t = Inr (purged, skipped, t)"
| "purge_rows c ((i, payload) # rows) purged skipped t =
     (case deserialize_record c payload of
        Inl _ \<Rightarrow> purge_rows c rows purged (skipped + 1) t
      | Inr record \<Rightarrow>
          if \<not> record_is_purgeable record then purge_rows c rows purged skipped t
          else case serialize_record c (purge_record record) of
                 Inl e \<Rightarrow> Inl e
               | Inr rewritten \<Rightarrow>
                   purge_rows c rows (purged + 1) skipped
                     (upd_where (\<lambda>r. r_id r = i) (\<lambda>r. r\<lparr>r_payload := rewritten\<rparr>) t))"

definition purge_one_batch ::
  "'p codec \<Rightarrow> time option \<Rightarrow> ulid option \<Rightarrow> 'p row list
   \<Rightarrow> (queue_error, purge_batch \<times> 'p row list) result" where
  "purge_one_batch c cutoff after t =
     (let rows = map (\<lambda>r. (r_id r, r_payload r)) (purge_candidates cutoff after t) in
      case purge_rows c rows 0 0 t of
        Inl e \<Rightarrow> Inl e
      | Inr (purged, skipped, t') \<Rightarrow>
          Inr (\<lparr>pb_selected = length rows, pb_purged = purged, pb_skipped = skipped,
                pb_last_id = (if rows = [] then None else Some (fst (last rows)))\<rparr>, t'))"

lemma purge_rows_ids:
  "purge_rows c rows p sk t = Inr (p', sk', t') \<Longrightarrow> map r_id t' = map r_id t"
proof (induction c rows p sk t rule: purge_rows.induct)
  case (2 c i payload rows p sk t)
  then show ?case
    by (auto simp: map_upd_where_same split: sum.splits if_splits)
qed simp

lemma length_filter_strict:
  assumes "\<And>x. P x \<Longrightarrow> Q x" "y \<in> set xs" "Q y" "\<not> P y"
  shows "length (filter P xs) < length (filter Q xs)"
proof -
  have le: "length (filter P ys) \<le> length (filter Q ys)" for ys
    using assms(1) by (induction ys) auto
  from assms(2-) show ?thesis
    by (induction xs) (auto simp: assms(1) less_Suc_eq_le le)
qed

lemma cursor_progress:
  fixes t t' :: "'p row list"
  assumes ne: "purge_candidates cutoff after t \<noteq> []" and ids: "map r_id t' = map r_id t"
  shows "length (filter (\<lambda>r. after_opt (Some (r_id (last (purge_candidates cutoff after t)))) (r_id r)) t')
       < length (filter (\<lambda>r. after_opt after (r_id r)) t)"
proof -
  let ?l = "last (purge_candidates cutoff after t)"
  have len: "length (filter (\<lambda>r. Q (r_id r)) u) = length (filter Q (map r_id u))"
    for Q and u :: "'p row list"
    by (simp add: filter_map comp_def)
  from ne have "?l \<in> set (purge_candidates cutoff after t)" by simp
  then have "?l \<in> set t" "after_opt after (r_id ?l)"
    by (auto simp: purge_candidates_def select_page_def purge_candidate_def dest!: in_set_takeD)
  then show ?thesis
    unfolding len ids
    by (intro length_filter_strict [where y = "r_id ?l"])
      (auto simp: after_opt_def split: option.splits)
qed

lemma purge_one_batch_progress:
  assumes "purge_one_batch c cutoff after t = Inr (b, t')" "\<not> pb_selected b < PURGE_BATCH_ROWS"
  shows "length (filter (\<lambda>r. after_opt (pb_last_id b) (r_id r)) t')
       < length (filter (\<lambda>r. after_opt after (r_id r)) t)"
proof -
  let ?rows = "purge_candidates cutoff after t"
  from assms have "PURGE_BATCH_ROWS \<le> length ?rows" and ids: "map r_id t' = map r_id t"
    and last: "?rows \<noteq> [] \<Longrightarrow> pb_last_id b = Some (r_id (last ?rows))"
    by (auto simp: purge_one_batch_def Let_def last_map dest: purge_rows_ids split: sum.splits)
  then have ne: "?rows \<noteq> []" by (auto simp: PURGE_BATCH_ROWS_def)
  show ?thesis
    using cursor_progress [OF ne ids] last [OF ne] by simp
qed

function purge_loop ::
  "'p codec \<Rightarrow> time option \<Rightarrow> ulid option \<Rightarrow> nat \<Rightarrow> nat \<Rightarrow> 'p row list
   \<Rightarrow> (queue_error, nat) result \<times> 'p row list" where
  "purge_loop c cutoff after purged skipped t =
     (case purge_one_batch c cutoff after t of
        Inl e \<Rightarrow> (Inl e, t)
      | Inr (b, t') \<Rightarrow>
          if pb_selected b < PURGE_BATCH_ROWS then (Inr (purged + pb_purged b), t')
          else purge_loop c cutoff (pb_last_id b) (purged + pb_purged b) (skipped + pb_skipped b) t')"
  by pat_completeness auto
termination
  by (relation "measure (\<lambda>(c, cutoff, after, purged, skipped, t).
        length (filter (\<lambda>r. after_opt after (r_id r)) t))")
    (auto dest: purge_one_batch_progress)

declare purge_loop.simps [simp del]

definition purge_terminal_payloads :: "'p codec \<Rightarrow> time option \<Rightarrow> ('p, nat) op" where
  "purge_terminal_payloads c older_than s =
     (let (res, t') = purge_loop c older_than None 0 0 (st_jobs s) in (res, s\<lparr>st_jobs := t'\<rparr>))"

definition purgeable_row :: "'p codec \<Rightarrow> 'p row \<Rightarrow> bool" where
  "purgeable_row c r \<longleftrightarrow>
     (case deserialize_record c (r_payload r) of
        Inl _ \<Rightarrow> False | Inr record \<Rightarrow> record_is_purgeable record)"

function count_loop ::
  "'p codec \<Rightarrow> time option \<Rightarrow> ulid option \<Rightarrow> nat \<Rightarrow> 'p row list \<Rightarrow> nat" where
  "count_loop c cutoff after count t =
     (let rows = purge_candidates cutoff after t;
          count' = count + length (filter (purgeable_row c) rows)
      in if length rows < PURGE_BATCH_ROWS then count'
         else count_loop c cutoff (if rows = [] then None else Some (r_id (last rows))) count' t)"
  by pat_completeness auto

termination
  by (relation "measure (\<lambda>(c, cutoff, after, count, t). length (filter (\<lambda>r. after_opt after (r_id r)) t))")
    (auto simp: PURGE_BATCH_ROWS_def intro: cursor_progress)

declare count_loop.simps [simp del]

definition count_purgeable_terminal_payloads ::
  "'p codec \<Rightarrow> time option \<Rightarrow> 'p store \<Rightarrow> (queue_error, nat) result" where
  "count_purgeable_terminal_payloads c older_than s =
     Inr (count_loop c older_than None 0 (st_jobs s))"

subsection \<open>The purge at once\<close>

definition purge_row :: "'p codec \<Rightarrow> 'p row \<Rightarrow> 'p row" where
  "purge_row c r =
     (case deserialize_record c (r_payload r) of
        Inl _ \<Rightarrow> r
      | Inr record \<Rightarrow>
          if record_is_purgeable record
          then (case serialize_record c (purge_record record) of
                  Inl _ \<Rightarrow> r | Inr p \<Rightarrow> r\<lparr>r_payload := p\<rparr>)
          else r)"

definition purge_spec :: "'p codec \<Rightarrow> time option \<Rightarrow> 'p row list \<Rightarrow> 'p row list" where
  "purge_spec c cutoff t = upd_where (purge_candidate cutoff None (kept_ids t)) (purge_row c) t"

definition purge_count :: "'p codec \<Rightarrow> time option \<Rightarrow> 'p row list \<Rightarrow> nat" where
  "purge_count c cutoff t =
     length (filter (\<lambda>r. purge_candidate cutoff None (kept_ids t) r \<and> purgeable_row c r) t)"

subsection \<open>Lemmas\<close>

lemma purgeable_rowE:
  assumes "purgeable_row c r"
  obtains a where "from_json c (r_payload r) = Inr a" "record_is_purgeable a"
  using assms unfolding purgeable_row_def
  by (cases "deserialize_record c (r_payload r)") (auto simp: deserialize_Inr)

lemma purgeable_rowI:
  "from_json c (r_payload r) = Inr a \<Longrightarrow> purgeable_row c r = record_is_purgeable a"
  by (simp add: purgeable_row_def deserialize_record_def)

lemma purge_row_not: "\<not> purgeable_row c r \<Longrightarrow> purge_row c r = r"
  by (simp add: purgeable_row_def purge_row_def split: sum.splits)

lemma purge_row_purgeable:
  "from_json c (r_payload r) = Inr a \<Longrightarrow> record_is_purgeable a \<Longrightarrow>
   purge_row c r = (case to_json c (purge_record a) of Inl _ \<Rightarrow> r | Inr p \<Rightarrow> r\<lparr>r_payload := p\<rparr>)"
  by (simp add: purge_row_def deserialize_record_def serialize_record_def split: sum.split)

lemma purge_row_cases:
  obtains "purge_row c r = r"
  | a p where "from_json c (r_payload r) = Inr a" "record_is_purgeable a"
      "to_json c (purge_record a) = Inr p" "purge_row c r = r\<lparr>r_payload := p\<rparr>"
proof (cases "purgeable_row c r")
  case True
  then obtain a where a: "from_json c (r_payload r) = Inr a" "record_is_purgeable a"
    by (rule purgeable_rowE)
  with that show ?thesis
    by (cases "to_json c (purge_record a)") (auto simp: purge_row_purgeable)
qed (use that purge_row_not in auto)

lemma purge_row_columns [simp]:
  "r_id (purge_row c r) = r_id r" "r_status (purge_row c r) = r_status r"
  "r_created_at (purge_row c r) = r_created_at r" "r_kind (purge_row c r) = r_kind r"
  "r_tenant_id (purge_row c r) = r_tenant_id r"
  by (rule purge_row_cases [of c r]; simp)+

lemma purge_row_only_payload: "purge_row c r = r\<lparr>r_payload := r_payload (purge_row c r)\<rparr>"
  by (rule purge_row_cases [of c r]) simp_all

lemma terminal_purge_row [simp]: "terminal_row (purge_row c r) = terminal_row r"
  by (simp add: terminal_row_def)

lemma purge_candidate_purge_row [simp]:
  "purge_candidate cutoff after kept (purge_row c r) = purge_candidate cutoff after kept r"
  by (simp add: purge_candidate_def)

text \<open>With a codec that reads back what it writes, a purgeable row loses its payload and nothing else.\<close>

lemma purge_row_codec_ok:
  assumes "codec_ok c" "from_json c (r_payload r) = Inr a" "record_is_purgeable a"
  obtains p where "to_json c (purge_record a) = Inr p" "from_json c p = Inr (purge_record a)"
    "purge_row c r = r\<lparr>r_payload := p\<rparr>"
proof -
  from assms(1) obtain p where "to_json c (purge_record a) = Inr p" "from_json c p = Inr (purge_record a)"
    unfolding codec_ok_def by blast
  with assms that show ?thesis by (simp add: purge_row_purgeable)
qed

lemma not_purgeable_purge_row:
  assumes "codec_ok c"
  shows "\<not> purgeable_row c (purge_row c r)"
proof (cases "purgeable_row c r")
  case True
  then obtain a where a: "from_json c (r_payload r) = Inr a" "record_is_purgeable a"
    by (rule purgeable_rowE)
  then obtain p where "from_json c p = Inr (purge_record a)" "purge_row c r = r\<lparr>r_payload := p\<rparr>"
    using purge_row_codec_ok [OF assms] by blast
  then show ?thesis
    by (simp add: purgeable_rowI record_is_purgeable_def purge_record_def)
qed (simp add: purge_row_not)

lemma purge_row_idem: "codec_ok c \<Longrightarrow> purge_row c (purge_row c r) = purge_row c r"
  by (simp add: purge_row_not not_purgeable_purge_row)

text \<open>One batch: the selected rows are purged, all others are untouched.\<close>

definition skipped_row :: "'p codec \<Rightarrow> 'p row \<Rightarrow> bool" where
  "skipped_row c r \<longleftrightarrow> (case deserialize_record c (r_payload r) of Inl _ \<Rightarrow> True | Inr _ \<Rightarrow> False)"

lemma purge_rows_spec:
  assumes "codec_ok c" "distinct (map r_id B)" "distinct (map r_id t)" "set B \<subseteq> set t"
  shows "purge_rows c (map (\<lambda>r. (r_id r, r_payload r)) B) p sk t
       = Inr (p + length (filter (purgeable_row c) B), sk + length (filter (skipped_row c) B),
              upd_where (\<lambda>r. r \<in> set B) (purge_row c) t)"
proof -
  have inB: "r_id r \<in> r_id ` set X \<longleftrightarrow> r \<in> set X" if "r \<in> set t" "set X \<subseteq> set t" for r X
    using that assms(3) by (auto dest: distinct_key_eq)
  have "purge_rows c (map (\<lambda>r. (r_id r, r_payload r)) B) p sk u
       = Inr (p + length (filter (purgeable_row c) B), sk + length (filter (skipped_row c) B),
              upd_where (\<lambda>r. r_id r \<in> r_id ` set B) (purge_row c) u)"
    if "distinct (map r_id B)" "\<And>b r. b \<in> set B \<Longrightarrow> r \<in> set u \<Longrightarrow> r_id r = r_id b \<Longrightarrow> r_payload r = r_payload b"
    for u
    using that
  proof (induction B arbitrary: p sk u)
    case Nil
    then show ?case by (simp add: upd_where_none)
  next
    case (Cons b B)
    let ?u = "upd_where (\<lambda>r. r_id r = r_id b) (purge_row c) u"
    have pay: "r_payload r = r_payload b" if "r \<in> set u" "r_id r = r_id b" for r
      by (rule Cons.prems(2)) (simp_all add: that)
    have comp: "upd_where (\<lambda>r. r_id r \<in> r_id ` set B) (purge_row c) ?u
        = upd_where (\<lambda>r. r_id r \<in> r_id ` set (b # B)) (purge_row c) u"
      using Cons.prems(1) by (auto simp: upd_where_compose upd_where_def)
    have same: "?u = u" if "\<not> purgeable_row c b"
    proof -
      have "purge_row c r = r" if "r \<in> set u" "r_id r = r_id b" for r
        using pay [OF that] \<open>\<not> purgeable_row c b\<close> by (intro purge_row_not) (simp add: purgeable_row_def)
      then show ?thesis by (simp add: upd_where_def map_idI)
    qed
    have IH: "purge_rows c (map (\<lambda>r. (r_id r, r_payload r)) B) p' sk' ?u
       = Inr (p' + length (filter (purgeable_row c) B), sk' + length (filter (skipped_row c) B),
              upd_where (\<lambda>r. r_id r \<in> r_id ` set (b # B)) (purge_row c) u)" for p' sk'
      unfolding comp [symmetric]
    proof (rule Cons.IH)
      show "distinct (map r_id B)" using Cons.prems(1) by simp
      fix x r assume x: "x \<in> set B" "r \<in> set ?u" "r_id r = r_id x"
      with Cons.prems(1) have "r_id r \<noteq> r_id b" by (metis distinct.simps(2) imageI list.set_map list.simps(9))
      with x(2) have "r \<in> set u" by (auto simp: set_upd_where split: if_splits)
      with x show "r_payload r = r_payload x" by (intro Cons.prems(2)) simp_all
    qed
    show ?case
    proof (cases "deserialize_record c (r_payload b)")
      case (Inl e)
      then have "\<not> purgeable_row c b" "skipped_row c b"
        by (simp_all add: purgeable_row_def skipped_row_def)
      with Inl IH [of p "Suc sk"] same show ?thesis by simp
    next
      case (Inr a)
      show ?thesis
      proof (cases "record_is_purgeable a")
        case True
        obtain q where q: "serialize_record c (purge_record a) = Inr q"
          by (rule codec_ok_serialize [OF assms(1)])
        have "upd_where (\<lambda>r. r_id r = r_id b) (\<lambda>r. r\<lparr>r_payload := q\<rparr>) u = ?u"
          unfolding upd_where_def using pay by (intro map_cong) (simp_all add: purge_row_def Inr True q)
        moreover have "purgeable_row c b" "\<not> skipped_row c b"
          using Inr True by (simp_all add: purgeable_row_def skipped_row_def)
        ultimately show ?thesis using Inr True q IH [of "Suc p" sk] by simp
      next
        case False
        with Inr have "\<not> purgeable_row c b" "\<not> skipped_row c b"
          by (simp_all add: purgeable_row_def skipped_row_def)
        with Inr False IH [of p sk] same show ?thesis by simp
      qed
    qed
  qed
  from this [OF assms(2), of t]
  have "purge_rows c (map (\<lambda>r. (r_id r, r_payload r)) B) p sk t
       = Inr (p + length (filter (purgeable_row c) B), sk + length (filter (skipped_row c) B),
              upd_where (\<lambda>r. r_id r \<in> r_id ` set B) (purge_row c) t)"
    using assms(3,4) by (blast dest: distinct_key_eq)
  also have "upd_where (\<lambda>r. r_id r \<in> r_id ` set B) (purge_row c) t
      = upd_where (\<lambda>r. r \<in> set B) (purge_row c) t"
    unfolding upd_where_def by (rule map_cong) (simp_all add: inB assms(4))
  finally show ?thesis .
qed

text \<open>A page of a table sorted by its key ends at the key of its last row.\<close>

lemma in_take_sorted_iff:
  fixes k :: "'a \<Rightarrow> 'k::linorder"
  assumes "sorted_wrt (\<lambda>a b. k a < k b) xs" "x \<in> set xs" "take n xs \<noteq> []"
  shows "x \<in> set (take n xs) \<longleftrightarrow> k x \<le> k (last (take n xs))"
proof -
  let ?B = "take n xs" and ?D = "drop n xs"
  have "sorted_wrt (\<lambda>a b. k a < k b) (?B @ ?D)"
    using assms(1) by simp
  then have cross: "a \<in> set ?B \<Longrightarrow> d \<in> set ?D \<Longrightarrow> k a < k d" for a d
    by (simp only: sorted_wrt_append)
  have last: "last ?B \<in> set ?B"
    using assms(3) by simp
  have "sorted_wrt (\<lambda>a b. k a < k b) (butlast ?B @ [last ?B])"
    using assms(1,3) by (simp add: sorted_wrt_take)
  then have "a \<in> set (butlast ?B) \<Longrightarrow> k a < k (last ?B)" for a
    by (simp only: sorted_wrt_append list.set) simp
  moreover have "set ?B = insert (last ?B) (set (butlast ?B))"
    using arg_cong [OF append_butlast_last_id [OF assms(3)], of set] by simp
  ultimately have le: "a \<in> set ?B \<Longrightarrow> k a \<le> k (last ?B)" for a
    by (metis insert_iff less_imp_le order_refl)
  have "set xs = set ?B \<union> set ?D"
    by (metis append_take_drop_id set_append)
  with assms(2) have "x \<in> set ?B \<or> x \<in> set ?D" by simp
  then show ?thesis
    using cross [OF last, of x] le [of x] by auto
qed

lemma sort_key_strict:
  assumes "distinct (map k xs)"
  shows "sorted_wrt (\<lambda>a b. k a < k b) (sort_key k xs)"
proof -
  have "sorted (map k (sort_key k xs))" "distinct (map k (sort_key k xs))"
    using assms by (simp_all add: distinct_map)
  then have "sorted_wrt (<) (map k (sort_key k xs))"
    by (simp add: strict_sorted_iff)
  then show ?thesis by (simp add: sorted_wrt_map)
qed

lemma candidates_facts:
  fixes cutoff :: "time option" and after :: "ulid option"
  assumes "distinct (map r_id t)"
  defines "B \<equiv> purge_candidates cutoff after t"
  shows "distinct (map r_id B)" "set B \<subseteq> set t"
    "\<And>r. r \<in> set B \<Longrightarrow> purge_candidate cutoff after (kept_ids t) r"
proof -
  let ?C = "sort_key r_id (filter (purge_candidate cutoff after (kept_ids t)) t)"
  have "distinct (map r_id (filter (purge_candidate cutoff after (kept_ids t)) t))"
    using assms(1) by (rule distinct_map_filter)
  then have "sorted_wrt (\<lambda>a b. r_id a < r_id b) ?C"
    by (rule sort_key_strict)
  then have "sorted_wrt (<) (map r_id B)"
    by (simp add: B_def purge_candidates_def select_page_def sorted_wrt_map sorted_wrt_take)
  then show "distinct (map r_id B)"
    by (simp add: strict_sorted_iff)
  show "set B \<subseteq> set t" "\<And>r. r \<in> set B \<Longrightarrow> purge_candidate cutoff after (kept_ids t) r"
    by (auto simp: B_def purge_candidates_def select_page_def dest!: in_set_takeD)
qed

text \<open>A candidate is in the page exactly when its id is at most the last id of a full page, and a
  page that is not full holds every candidate.\<close>

lemma in_candidates_iff:
  assumes "distinct (map r_id t)" "r \<in> set t" "purge_candidate cutoff after (kept_ids t) r"
  defines "B \<equiv> purge_candidates cutoff after t"
  shows "length B < PURGE_BATCH_ROWS \<Longrightarrow> r \<in> set B"
    and "B \<noteq> [] \<Longrightarrow> r \<in> set B \<longleftrightarrow> r_id r \<le> r_id (last B)"
proof -
  let ?C = "sort_key r_id (filter (purge_candidate cutoff after (kept_ids t)) t)"
  have B: "B = take PURGE_BATCH_ROWS ?C"
    by (simp add: B_def purge_candidates_def select_page_def)
  have r: "r \<in> set ?C" using assms by simp
  show "length B < PURGE_BATCH_ROWS \<Longrightarrow> r \<in> set B"
    using r by (simp add: B del: length_sort)
  have "sorted_wrt (\<lambda>a b. r_id a < r_id b) ?C"
    by (rule sort_key_strict [OF distinct_map_filter [OF assms(1)]])
  then show "B \<noteq> [] \<Longrightarrow> r \<in> set B \<longleftrightarrow> r_id r \<le> r_id (last B)"
    unfolding B by (rule in_take_sorted_iff [OF _ r])
qed

lemma kept_ids_upd [simp]: "kept_ids (upd_where P (purge_row c) t) = kept_ids t"
  by (simp add: kept_ids_def filter_upd_where_same map_upd_where_same)

lemma purge_one_batch_spec:
  fixes cutoff :: "time option" and after :: "ulid option"
  assumes "codec_ok c" "distinct (map r_id t)"
  defines "B \<equiv> purge_candidates cutoff after t"
  shows "purge_one_batch c cutoff after t
       = Inr (\<lparr>pb_selected = length B, pb_purged = length (filter (purgeable_row c) B),
               pb_skipped = length (filter (skipped_row c) B),
               pb_last_id = (if B = [] then None else Some (r_id (last B)))\<rparr>,
              upd_where (\<lambda>r. r \<in> set B) (purge_row c) t)"
  using purge_rows_spec [OF assms(1) candidates_facts(1) [OF assms(2)] assms(2) candidates_facts(2) [OF assms(2)]]
  by (simp add: purge_one_batch_def B_def last_map)

lemma length_filter_split:
  assumes "\<And>x. x \<in> set xs \<Longrightarrow> P x \<longleftrightarrow> Q x \<or> R x" "\<And>x. x \<in> set xs \<Longrightarrow> \<not> (Q x \<and> R x)"
  shows "length (filter P xs) = length (filter Q xs) + length (filter R xs)"
  using assms by (induction xs) fastforce+

lemma length_filter_sublist:
  assumes "distinct xs" "distinct ys" "set ys \<subseteq> set xs"
  shows "length (filter P ys) = length (filter (\<lambda>x. x \<in> set ys \<and> P x) xs)"
  using assms by (simp add: distinct_length_filter Int_def) (metis subsetD)

text \<open>After a full page the candidates that remain are those beyond the cursor.\<close>

lemma candidates_split:
  assumes u: "distinct (map r_id t)" and r: "r \<in> set t" and ne: "purge_candidates cutoff after t \<noteq> []"
  defines "B \<equiv> purge_candidates cutoff after t"
  shows "purge_candidate cutoff after (kept_ids t) r
     \<longleftrightarrow> r \<in> set B \<or> purge_candidate cutoff (Some (r_id (last B))) (kept_ids t) r"
    and "\<not> (r \<in> set B \<and> purge_candidate cutoff (Some (r_id (last B))) (kept_ids t) r)"
proof -
  note facts = candidates_facts [OF u, where cutoff = cutoff and after = after, folded B_def]
  have page: "r \<in> set B \<longleftrightarrow> r_id r \<le> r_id (last B)"
    if "purge_candidate cutoff after (kept_ids t) r"
    using in_candidates_iff(2) [OF u r that] ne by (simp add: B_def)
  have "last B \<in> set B" using ne by (simp add: B_def)
  then have "after_opt after (r_id (last B))"
    using facts(3) by (simp add: purge_candidate_def)
  then have up: "purge_candidate cutoff after (kept_ids t) r"
    if "purge_candidate cutoff (Some (r_id (last B))) (kept_ids t) r"
    using that by (auto simp: purge_candidate_def after_opt_def split: option.splits)
  have beyond: "purge_candidate cutoff (Some (r_id (last B))) (kept_ids t) r \<longleftrightarrow> r \<notin> set B"
    if "purge_candidate cutoff after (kept_ids t) r"
    using that by (simp add: page [OF that] not_le) (simp add: purge_candidate_def after_opt_def)
  have out: "r \<notin> set B" if "\<not> purge_candidate cutoff after (kept_ids t) r"
    using facts(3) that by blast
  show "purge_candidate cutoff after (kept_ids t) r
     \<longleftrightarrow> r \<in> set B \<or> purge_candidate cutoff (Some (r_id (last B))) (kept_ids t) r"
    using beyond up out by blast
  show "\<not> (r \<in> set B \<and> purge_candidate cutoff (Some (r_id (last B))) (kept_ids t) r)"
    using beyond up by blast
qed

lemma purge_loop_spec:
  assumes "codec_ok c" "distinct (map r_id t)"
  shows "purge_loop c cutoff after p sk t
    = (Inr (p + length (filter (\<lambda>r. purge_candidate cutoff after (kept_ids t) r \<and> purgeable_row c r) t)),
       upd_where (purge_candidate cutoff after (kept_ids t)) (purge_row c) t)"
  using assms
proof (induction c cutoff after p sk t rule: purge_loop.induct)
  case (1 c cutoff after p sk t)
  note ok = 1(2) and u = 1(3)
  let ?B = "purge_candidates cutoff after t"
  let ?t = "upd_where (\<lambda>r. r \<in> set ?B) (purge_row c) t"
  note facts = candidates_facts [OF u, where cutoff = cutoff and after = after]
  have dt: "distinct t" "distinct ?B"
    using u facts(1) by (simp_all add: distinct_map)
  have cnt: "length (filter (purgeable_row c) ?B)
      = length (filter (\<lambda>r. r \<in> set ?B \<and> purgeable_row c r) t)"
    by (rule length_filter_sublist [OF dt facts(2)])
  show ?case
  proof (cases "length ?B < PURGE_BATCH_ROWS")
    case True
    have eq: "r \<in> set ?B \<longleftrightarrow> purge_candidate cutoff after (kept_ids t) r" if "r \<in> set t" for r
      using in_candidates_iff(1) [OF u that _ True] facts(3) by blast
    have "?t = upd_where (purge_candidate cutoff after (kept_ids t)) (purge_row c) t"
      unfolding upd_where_def by (rule map_cong) (simp_all add: eq)
    moreover have "filter (\<lambda>r. r \<in> set ?B \<and> purgeable_row c r) t
        = filter (\<lambda>r. purge_candidate cutoff after (kept_ids t) r \<and> purgeable_row c r) t"
      by (rule filter_cong) (simp_all add: eq)
    ultimately show ?thesis
      using True by (simp add: purge_loop.simps [of c cutoff after] purge_one_batch_spec [OF ok u] cnt)
  next
    case False
    then have ne: "?B \<noteq> []" by (auto simp: PURGE_BATCH_ROWS_def)
    let ?l = "Some (r_id (last ?B))"
    note split = candidates_split [OF u _ ne]
    have u': "distinct (map r_id ?t)" using u by (simp add: map_upd_where_same)
    have rows: "upd_where (purge_candidate cutoff ?l (kept_ids t)) (purge_row c) ?t
        = upd_where (purge_candidate cutoff after (kept_ids t)) (purge_row c) t"
      unfolding upd_where_def map_map comp_def
      by (rule map_cong) (use split in auto)
    have "length (filter (\<lambda>r. purge_candidate cutoff ?l (kept_ids t) r \<and> purgeable_row c r) ?t)
        = length (filter (\<lambda>r. purge_candidate cutoff ?l (kept_ids t) r \<and> purgeable_row c r) t)"
      unfolding upd_where_def filter_map length_map comp_def
      by (rule arg_cong [where f = length], rule filter_cong) (use split in auto)
    moreover have "length (filter (\<lambda>r. purge_candidate cutoff after (kept_ids t) r \<and> purgeable_row c r) t)
        = length (filter (\<lambda>r. r \<in> set ?B \<and> purgeable_row c r) t)
        + length (filter (\<lambda>r. purge_candidate cutoff ?l (kept_ids t) r \<and> purgeable_row c r) t)"
      by (rule length_filter_split) (use split in auto)
    ultimately show ?thesis
      using False ne rows 1(1) [OF purge_one_batch_spec [OF ok u] refl _ ok u']
      by (simp add: purge_loop.simps [of c cutoff after] purge_one_batch_spec [OF ok u] cnt)
  qed
qed

lemma count_loop_spec:
  assumes "distinct (map r_id t)"
  shows "count_loop c cutoff after n t
    = n + length (filter (\<lambda>r. purge_candidate cutoff after (kept_ids t) r \<and> purgeable_row c r) t)"
  using assms
proof (induction c cutoff after n t rule: count_loop.induct)
  case (1 c cutoff after n t)
  note u = 1(2)
  let ?B = "purge_candidates cutoff after t"
  note facts = candidates_facts [OF u, where cutoff = cutoff and after = after]
  have dt: "distinct t" "distinct ?B"
    using u facts(1) by (simp_all add: distinct_map)
  have cnt: "length (filter (purgeable_row c) ?B)
      = length (filter (\<lambda>r. r \<in> set ?B \<and> purgeable_row c r) t)"
    by (rule length_filter_sublist [OF dt facts(2)])
  show ?case
  proof (cases "length ?B < PURGE_BATCH_ROWS")
    case True
    have eq: "r \<in> set ?B \<longleftrightarrow> purge_candidate cutoff after (kept_ids t) r" if "r \<in> set t" for r
      using in_candidates_iff(1) [OF u that _ True] facts(3) by blast
    have "filter (\<lambda>r. r \<in> set ?B \<and> purgeable_row c r) t
        = filter (\<lambda>r. purge_candidate cutoff after (kept_ids t) r \<and> purgeable_row c r) t"
      by (rule filter_cong) (simp_all add: eq)
    with True cnt show ?thesis by (simp add: count_loop.simps [of c cutoff after] Let_def)
  next
    case False
    then have ne: "?B \<noteq> []" by (auto simp: PURGE_BATCH_ROWS_def)
    have "length (filter (\<lambda>r. purge_candidate cutoff after (kept_ids t) r \<and> purgeable_row c r) t)
        = length (filter (\<lambda>r. r \<in> set ?B \<and> purgeable_row c r) t)
        + length (filter (\<lambda>r. purge_candidate cutoff (Some (r_id (last ?B))) (kept_ids t) r
                           \<and> purgeable_row c r) t)"
      by (rule length_filter_split) (use candidates_split [OF u _ ne] in auto)
    with False ne cnt 1(1) [OF refl refl False u] show ?thesis
      by (simp add: count_loop.simps [of c cutoff after] Let_def)
  qed
qed

text \<open>Purging is a sequence of purge steps of the row machine.\<close>

lemma purge_row_step:
  "terminal_row r \<Longrightarrow> purge_row c r = r \<or> row_step c r (purge_row c r)"
  by (rule purge_row_cases [of c r])
    (auto simp: terminal_row_def payload_purged_def purge_record_def intro!: rs_purge)

lemma purge_spec_steps: "steps c t (purge_spec c cutoff t)"
proof -
  have "(row_step c)\<^sup>*\<^sup>* r (if purge_candidate cutoff None k r then purge_row c r else r)" for k r
    using purge_row_step [of r c] by (auto simp: purge_candidate_def)
  then show ?thesis
    unfolding purge_spec_def upd_where_def list_all2_map2 by (simp add: list_all2_refl)
qed

lemma purge_terminal_payloads_eq:
  assumes "codec_ok c" "unique_ids s"
  shows "purge_terminal_payloads c cutoff s
       = (Inr (purge_count c cutoff (st_jobs s)), s\<lparr>st_jobs := purge_spec c cutoff (st_jobs s)\<rparr>)"
  by (simp add: purge_terminal_payloads_def purge_loop_spec [OF assms] purge_count_def purge_spec_def)

lemma purge_terminal_payloads_steps:
  assumes "codec_ok c" "unique_ids s"
  shows "steps c (st_jobs s) (st_jobs (snd (purge_terminal_payloads c cutoff s)))"
  using assms by (simp add: purge_terminal_payloads_eq purge_spec_steps)

lemma purge_spec_again:
  assumes "codec_ok c"
  shows "purge_spec c cutoff (purge_spec c cutoff t) = purge_spec c cutoff t"
    and "purge_count c cutoff (purge_spec c cutoff t) = 0"
  using purge_row_idem [OF assms] not_purgeable_purge_row [OF assms]
  by (auto simp: purge_spec_def purge_count_def upd_where_compose filter_empty_conv set_upd_where)
    (simp add: upd_where_def)

text \<open>A table one row larger than the keep window.\<close>

definition full_window :: "job_record store" where
  "full_window = sample_store (map (\<lambda>i. sample_row i Done JobBackup []) [0..<Suc TERMINAL_PAYLOAD_KEEP])"

lemma full_window_facts:
  "unique_ids full_window" "purge_count plain_codec None (st_jobs full_window) = 1"
proof -
  let ?n = "Suc TERMINAL_PAYLOAD_KEEP"
  have ids: "map r_id (st_jobs full_window) = [0..<?n]"
    by (simp add: full_window_def comp_def del: upt_Suc)
  then show "unique_ids full_window" by (metis distinct_upt)
  have all: "filter terminal_row (st_jobs full_window) = st_jobs full_window"
    by (auto simp: full_window_def terminal_row_def TERMINAL_SQL_def simp del: upt_Suc)
  have kept: "kept_ids (st_jobs full_window) = rev [1..<?n]"
    unfolding kept_ids_def all ids by (simp add: sorted_sort_id take_rev del: upt_Suc)
  have "[0..<?n] = 0 # [1..<?n]"
    by (simp add: upt_conv_Cons del: upt_Suc)
  then have one: "filter (\<lambda>i. i \<notin> set [1..<?n]) [0..<?n] = [0]"
    by (simp add: filter_empty_conv del: upt_Suc)
  have "purge_candidate None None (rev [1..<?n]) (sample_row i Done JobBackup [])
      \<and> purgeable_row plain_codec (sample_row i Done JobBackup []) \<longleftrightarrow> i \<notin> set [1..<?n]" for i
    by (simp add: purge_candidate_def terminal_row_def TERMINAL_SQL_def before_opt_def after_opt_def
        purgeable_row_def record_is_purgeable_def del: upt_Suc)
  with one show "purge_count plain_codec None (st_jobs full_window) = 1"
    unfolding purge_count_def kept
    by (simp add: full_window_def filter_map comp_def del: set_rev set_upt upt_Suc)
qed

subsection \<open>Properties\<close>

text \<open>C22: the batched purge loop terminates with success and equals the purge of all candidates at
  once: it returns the number of purged rows, and the table it leaves is the table in which exactly
  the terminal rows older than the cutoff and outside the keep window have lost their payload.\<close>

theorem purge_batches_equal_purge_at_once:
  assumes "codec_ok c" "unique_ids s"
  shows "purge_terminal_payloads c cutoff s
       = (Inr (purge_count c cutoff (st_jobs s)), s\<lparr>st_jobs := purge_spec c cutoff (st_jobs s)\<rparr>)"
  using assms by (rule purge_terminal_payloads_eq)

theorem purge_batches_equal_purge_at_once_witness:
  "purge_terminal_payloads plain_codec None full_window
   = (Inr 1, full_window\<lparr>st_jobs := purge_spec plain_codec None (st_jobs full_window)\<rparr>)"
  using purge_batches_equal_purge_at_once [OF plain_codec_ok full_window_facts(1), of None]
  by (simp add: full_window_facts(2))

text \<open>the dry-run counter announces exactly the number of rows that the purge then rewrites.\<close>

theorem purge_dry_run_count_exact:
  assumes "codec_ok c" "unique_ids s"
  shows "count_purgeable_terminal_payloads c cutoff s = fst (purge_terminal_payloads c cutoff s)"
  using assms
  by (simp add: count_purgeable_terminal_payloads_def count_loop_spec purge_terminal_payloads_eq
      purge_count_def)

theorem purge_dry_run_count_exact_witness:
  "count_purgeable_terminal_payloads plain_codec None full_window = Inr 1"
  using purge_dry_run_count_exact [OF plain_codec_ok full_window_facts(1), of None]
  by (simp add: purge_terminal_payloads_eq [OF plain_codec_ok full_window_facts(1)] full_window_facts(2))

text \<open>purging is idempotent: a second purge with the same cutoff rewrites no row and leaves the
  store as it is.\<close>

theorem purge_idempotent:
  assumes "codec_ok c" "unique_ids s"
  shows "purge_terminal_payloads c cutoff (snd (purge_terminal_payloads c cutoff s))
       = (Inr 0, snd (purge_terminal_payloads c cutoff s))"
proof -
  let ?s = "snd (purge_terminal_payloads c cutoff s)"
  have "unique_ids ?s"
    using purge_terminal_payloads_steps [OF assms] assms(2) by (rule steps_unique_ids)
  then show ?thesis
    using assms by (simp add: purge_terminal_payloads_eq purge_spec_again)
qed

theorem purge_idempotent_witness:
  "purge_terminal_payloads plain_codec None (snd (purge_terminal_payloads plain_codec None full_window))
   = (Inr 0, snd (purge_terminal_payloads plain_codec None full_window))"
  by (rule purge_idempotent [OF plain_codec_ok full_window_facts(1)])

text \<open>the purge changes nothing but payloads.  Row by row, every column other than the payload is
  kept; a terminal row that is older than the cutoff, outside the keep window and still holds its
  payload keeps its whole record except the job kind, which becomes the purged marker; every other
  row is untouched.\<close>

theorem purge_minimal_effect:
  assumes "codec_ok c" "unique_ids s"
  shows "list_all2 (\<lambda>r r'. r' = r\<lparr>r_payload := r_payload r'\<rparr> \<and>
           (if r_status r \<in> set TERMINAL_SQL \<and> before_opt cutoff (r_created_at r)
               \<and> r_id r \<notin> set (kept_ids (st_jobs s)) \<and> purgeable_row c r
            then \<exists>a. from_json c (r_payload r) = Inr a \<and>
                   from_json c (r_payload r') = Inr (a\<lparr>jr_spec := (jr_spec a)\<lparr>js_kind := JobPayloadPurged\<rparr>\<rparr>)
            else r' = r))
         (st_jobs s) (st_jobs (snd (purge_terminal_payloads c cutoff s)))"
proof -
  have "\<exists>a. from_json c (r_payload r) = Inr a \<and>
          from_json c (r_payload (purge_row c r)) = Inr (purge_record a)" if "purgeable_row c r" for r
    using purgeable_rowE [OF that] purge_row_codec_ok [OF assms(1)]
    by (metis row.select_convs(2) row.surjective row.update_convs(2))
  then show ?thesis
    using purge_row_only_payload [of c] purge_row_not [of c]
    unfolding purge_terminal_payloads_eq [OF assms] purge_spec_def upd_where_def
    by (auto simp: list_all2_map2 purge_candidate_def terminal_row_def after_opt_def purge_record_def
        intro!: list_all2_refl)
qed

theorem purge_minimal_effect_witness:
  "list_all2 (\<lambda>r r'. r' = r\<lparr>r_payload := r_payload r'\<rparr>) (st_jobs full_window)
     (st_jobs (snd (purge_terminal_payloads plain_codec None full_window)))"
  using purge_minimal_effect [OF plain_codec_ok full_window_facts(1), of None]
  by (rule list_all2_mono) simp

end
