(* ===== verification/Queue_Invariant.thy ===== *)
theory Queue_Invariant
  imports Queue_Purge
begin

text \<open>
  The queue as a transition system.  \<open>qop\<close> lists the operations of the trait that write the store,
  each with its arguments and clock readings, \<open>exec_op\<close> runs one, \<open>qstep\<close> is the step relation, and
  \<open>store_ok\<close> the well-formedness of a store: unique ids, status texts of the enum, columns that agree
  with the stored record, a lease on every running row.  Every operation keeps \<open>store_ok\<close>, so every
  reachable store has it; the properties of whole runs are about sequences of operations.
\<close>

subsection \<open>Operations as data\<close>

datatype qop =
    Enqueue job_record
  | Dequeue time time "string option"
  | DequeueByKind time time string "string option"
  | Complete time time ulid job_result
  | CompleteMessage time time ulid job_result
  | Fail time time ulid string "32 word"
  | Cancel time ulid "string option"
  | FailDlq time time ulid string
  | SetPending ulid
  | RecoverStale time time "time option"
  | CancelExpired time
  | PromoteRetries time "ulid \<Rightarrow> time \<times> time"
  | ScheduleRetry ulid time
  | DeleteDlq "time option"
  | PurgeTerminal "time option"
  | PromoteStranded
  | MarkConflict time time ulid string "32 word"

fun exec_op :: "'p codec \<Rightarrow> qop \<Rightarrow> 'p store \<Rightarrow> 'p store" where
  "exec_op c (Enqueue job) s = snd (enqueue c job s)"
| "exec_op c (Dequeue n n2 tf) s = snd (dequeue c n n2 tf s)"
| "exec_op c (DequeueByKind n n2 k tf) s = snd (dequeue_by_kind c n n2 k tf s)"
| "exec_op c (Complete n n2 i res) s = snd (complete c n n2 i res s)"
| "exec_op c (CompleteMessage n n2 i res) s = snd (complete_message_delivery c n n2 i res s)"
| "exec_op c (Fail n n2 i e a) s = snd (fail c n n2 i e a s)"
| "exec_op c (Cancel n i tf) s = snd (cancel c n i tf s)"
| "exec_op c (FailDlq n n2 i e) s = snd (fail_dlq c n n2 i e s)"
| "exec_op c (SetPending i) s = set_pending i s"
| "exec_op c (RecoverStale n n2 ttl) s = snd (recover_stale_leases n n2 ttl s)"
| "exec_op c (CancelExpired n) s = snd (cancel_expired_deadlines n s)"
| "exec_op c (PromoteRetries n clk) s = snd (promote_retries c n clk s)"
| "exec_op c (ScheduleRetry i t) s = snd (schedule_retry i t s)"
| "exec_op c (DeleteDlq t) s = snd (delete_dlq_jobs t s)"
| "exec_op c (PurgeTerminal t) s = snd (purge_terminal_payloads c t s)"
| "exec_op c PromoteStranded s = snd (promote_stranded_waiting_jobs c s)"
| "exec_op c (MarkConflict n n2 i md d) s = snd (mark_conflict c n n2 i md d s)"

definition exec_ops :: "'p codec \<Rightarrow> qop list \<Rightarrow> 'p store \<Rightarrow> 'p store" where
  "exec_ops c ops s = fold (exec_op c) ops s"

text \<open>The only operation with a condition on its argument is the submission of a fresh job.\<close>

fun op_allowed :: "qop \<Rightarrow> bool" where
  "op_allowed (Enqueue job) = enqueue_ok job"
| "op_allowed _ = True"

inductive qstep :: "'p codec \<Rightarrow> 'p store \<Rightarrow> 'p store \<Rightarrow> bool" for c :: "'p codec" where
  qstep_op: "op_allowed op \<Longrightarrow> qstep c s (exec_op c op s)"

inductive_cases qstepE: "qstep c s s'"

subsection \<open>Well-formed stores\<close>

definition status_texts :: "string list" where
  "status_texts = map status_to_str [Pending, Running, Waiting, Done, Failed, DLQ, Cancelled, Conflict]"

text \<open>The columns agree with the record.  A purged record has lost its job, so its kind and tenant are
  known from the columns only; such a row is terminal.  A record in conflict is terminal too.\<close>

definition payload_matches :: "job_record \<Rightarrow> 'p row \<Rightarrow> bool" where
  "payload_matches a r \<longleftrightarrow>
     jr_id a = r_id r
     \<and> r_priority r = uint (as_u8 (js_priority (jr_spec a)))
     \<and> r_class r = class_debug (js_class (jr_spec a))
     \<and> r_created_at r = lc_created_at (jr_lifecycle a)
     \<and> r_deadline r = sc_deadline (jr_scheduling a)
     \<and> r_await_jobs r = await_column (await_ids a)
     \<and> (if js_kind (jr_spec a) = JobPayloadPurged then r_status r \<in> set TERMINAL_SQL
        else r_kind r = job_kind_str (js_kind (jr_spec a)) \<and> r_tenant_id r = spec_tenant (jr_spec a))
     \<and> (lc_status (jr_lifecycle a) = Conflict \<longrightarrow> r_status r \<in> set TERMINAL_SQL)"

definition row_ok :: "'p codec \<Rightarrow> 'p row \<Rightarrow> bool" where
  "row_ok c r \<longleftrightarrow>
     (case from_json c (r_payload r) of Inl _ \<Rightarrow> False | Inr a \<Rightarrow> payload_matches a r)
     \<and> r_status r \<in> set status_texts
     \<and> 0 \<le> r_attempt_count r
     \<and> (r_status r = ''Running'' \<longrightarrow> r_lease_until r \<noteq> None)"

definition store_ok :: "'p codec \<Rightarrow> 'p store \<Rightarrow> bool" where
  "store_ok c s \<longleftrightarrow> unique_ids s \<and> (\<forall>r\<in>set (st_jobs s). row_ok c r)"

lemma row_okE:
  assumes "row_ok c r"
  obtains a where "from_json c (r_payload r) = Inr a" "deserialize_record c (r_payload r) = Inr a"
    "payload_matches a r"
  using assms unfolding row_ok_def
  by (cases "from_json c (r_payload r)") (auto simp: deserialize_record_def)

lemma store_okD:
  "store_ok c s \<Longrightarrow> unique_ids s" "store_ok c s \<Longrightarrow> r \<in> set (st_jobs s) \<Longrightarrow> row_ok c r"
  by (simp_all add: store_ok_def)

lemma status_text_cases:
  "s \<in> set status_texts \<longleftrightarrow> s \<in> {''Pending'', ''Running'', ''Waiting'', ''Done'', ''Failed'', ''DLQ'',
     ''Cancelled'', ''Conflict''}"
  by (simp add: status_texts_def)

lemma payload_matches_upd:
  assumes "payload_matches a r" "same_job a b" "r_status r' \<in> set TERMINAL_SQL \<or> r_status r \<notin> set TERMINAL_SQL"
    and "lc_status (jr_lifecycle b) = Conflict \<Longrightarrow> r_status r' \<in> set TERMINAL_SQL"
    and "r_id r' = r_id r" "r_priority r' = r_priority r" "r_class r' = r_class r"
    "r_created_at r' = r_created_at r" "r_deadline r' = r_deadline r"
    "r_await_jobs r' = r_await_jobs r" "r_kind r' = r_kind r" "r_tenant_id r' = r_tenant_id r"
  shows "payload_matches b r'"
  using assms by (auto simp: payload_matches_def same_job_def await_ids_def split: if_splits)

text \<open>A row whose status leaves no terminal status keeps agreeing with its record.\<close>

lemma payload_matches_cols:
  assumes "payload_matches a r" "r_status r' \<in> set TERMINAL_SQL \<or> r_status r \<notin> set TERMINAL_SQL"
    and "r_id r' = r_id r" "r_priority r' = r_priority r" "r_class r' = r_class r"
    "r_created_at r' = r_created_at r" "r_deadline r' = r_deadline r"
    "r_await_jobs r' = r_await_jobs r" "r_kind r' = r_kind r" "r_tenant_id r' = r_tenant_id r"
  shows "payload_matches a r'"
  using assms by (auto simp: payload_matches_def split: if_splits)

text \<open>Every payload the machine writes can be read back and is the same job.\<close>

lemma row_step_payload:
  assumes "codec_ok c" "row_step c r r'" "from_json c (r_payload r) = Inr a" "payload_matches a r"
  shows "\<exists>b. from_json c (r_payload r') = Inr b \<and> payload_matches b r'"
proof -
  have upd: "\<exists>b. from_json c p = Inr b \<and> same_job a b \<and> lc_status (jr_lifecycle b) = st"
    if "payload_upd c st (r_payload r) p" for st p
    using that assms(1,3) unfolding payload_upd_def
    by (auto dest: codec_ok_read_back)
  have pur: "from_json c p = Inr (a\<lparr>jr_spec := (jr_spec a)\<lparr>js_kind := JobPayloadPurged\<rparr>\<rparr>)"
    if "payload_purged c (r_payload r) p" for p
    using that assms(1,3) unfolding payload_purged_def by (auto dest: codec_ok_read_back)
  note m = assms(4)
  note upd_ok = payload_matches_upd [OF m] and cols_ok = payload_matches_cols [OF m]
  from assms(2) show ?thesis
  proof (cases rule: row_step.cases)
    case (rs_purge p)
    with pur [of p] m show ?thesis
      by (auto simp: payload_matches_def await_ids_def)
  qed (use assms(3) in \<open>(fastforce simp: TERMINAL_SQL_def dest!: upd intro!: upd_ok
        | fastforce simp: TERMINAL_SQL_def not_terminal_row_def intro!: cols_ok)+\<close>)
qed

lemma row_step_status:
  "row_step c r r' \<Longrightarrow> r_status r \<in> set status_texts \<Longrightarrow> 0 \<le> r_attempt_count r \<Longrightarrow>
   (r_status r = ''Running'' \<longrightarrow> r_lease_until r \<noteq> None) \<Longrightarrow>
   r_status r' \<in> set status_texts \<and> 0 \<le> r_attempt_count r'
   \<and> (r_status r' = ''Running'' \<longrightarrow> r_lease_until r' \<noteq> None)"
  by (induction rule: row_step.induct) (simp_all add: status_texts_def)

lemma row_ok_step:
  assumes "codec_ok c" "row_step c r r'" "row_ok c r"
  shows "row_ok c r'"
proof -
  from assms(3) obtain a where a: "from_json c (r_payload r) = Inr a" "payload_matches a r"
    by (rule row_okE)
  from row_step_payload [OF assms(1,2) a] obtain b
    where "from_json c (r_payload r') = Inr b" "payload_matches b r'" by blast
  with row_step_status [OF assms(2)] assms(3) show ?thesis by (simp add: row_ok_def)
qed

lemma row_ok_new:
  assumes "codec_ok c" "enqueue_ok job" "to_json c job = Inr p"
  shows "row_ok c (new_row job p)"
  using assms codec_ok_read_back [OF assms(1,3)]
  by (auto simp: row_ok_def new_row_def enqueue_ok_def payload_matches_def status_texts_def)

lemma exec_op_evolves:
  assumes "codec_ok c" "unique_ids s" "op_allowed op"
  shows "evolves c (st_jobs s) (st_jobs (exec_op c op s))"
proof (cases op)
  case (Enqueue job)
  with assms show ?thesis by (simp add: enqueue_evolves)
next
  case (DeleteDlq t)
  then show ?thesis by (simp add: delete_dlq_jobs_evolves)
next
  case (PurgeTerminal t)
  with assms show ?thesis by (simp add: ev_rows purge_terminal_payloads_steps)
qed (simp_all add: assms(2) ev_rows store_steps)

lemma store_ok_exec:
  assumes "codec_ok c" "op_allowed op" "store_ok c s"
  shows "store_ok c (exec_op c op s)"
proof -
  have ev: "evolves c (st_jobs s) (st_jobs (exec_op c op s))"
    using assms by (intro exec_op_evolves) (simp_all add: store_ok_def)
  have "\<forall>r\<in>set (st_jobs (exec_op c op s)). row_ok c r"
    by (rule evolves_rows_inv [OF ev]) (use assms in \<open>auto simp: store_ok_def intro: row_ok_step row_ok_new\<close>)
  with evolves_distinct [OF ev] assms(3) show ?thesis
    by (simp add: store_ok_def)
qed

lemma store_ok_empty [simp]: "store_ok c empty_store"
  by (simp add: store_ok_def empty_store_def)

text \<open>The queue is a transition system for every codec; its invariant is \<open>store_ok\<close> when the codec
  reads back what it writes.\<close>

interpretation queue: transition_system "\<lambda>s. s = empty_store" "qstep c" "\<lambda>s. codec_ok c \<longrightarrow> store_ok c s"
  for c
  by unfold_locales (auto elim!: qstepE intro: store_ok_exec)

lemma exec_ops_simps [simp]:
  "exec_ops c [] s = s" "exec_ops c (op # ops) s = exec_ops c ops (exec_op c op s)"
  by (simp_all add: exec_ops_def)

lemma exec_ops_snoc: "exec_ops c (ops @ [op]) s = exec_op c op (exec_ops c ops s)"
  by (simp add: exec_ops_def)

lemma exec_ops_run:
  "\<forall>op\<in>set ops. op_allowed op \<Longrightarrow> run (qstep c) s (exec_ops c ops s)"
  by (induction ops rule: rev_induct) (auto simp: exec_ops_snoc intro: run.intros qstep_op)

lemma reach_exec_ops:
  "\<forall>op\<in>set ops. op_allowed op \<Longrightarrow> reach (\<lambda>s. s = empty_store) (qstep c) (exec_ops c ops empty_store)"
  by (rule queue.reach_run [OF reach_init exec_ops_run]) simp_all

lemma store_ok_exec_ops:
  "codec_ok c \<Longrightarrow> \<forall>op\<in>set ops. op_allowed op \<Longrightarrow> store_ok c s \<Longrightarrow> store_ok c (exec_ops c ops s)"
  using queue.run_inv [OF exec_ops_run, of ops c s] by simp

text \<open>What is found by its id in the store that an operation leaves.\<close>

lemma exec_op_row:
  assumes "codec_ok c" "store_ok c s" "op_allowed op"
    and "r \<in> set (st_jobs s)" "r' \<in> set (st_jobs (exec_op c op s))" "r_id r' = r_id r"
  shows "(row_step c)\<^sup>*\<^sup>* r r'"
  using evolves_row [OF exec_op_evolves [OF assms(1) store_okD(1) [OF assms(2)] assms(3)]
      store_okD(1) [OF assms(2)] assms(4-6)] .

text \<open>Operations that may bring a row with id \<open>i\<close> into the table.\<close>

fun inserts :: "ulid \<Rightarrow> qop \<Rightarrow> bool" where
  "inserts i (Enqueue job) = (jr_id job = i)"
| "inserts i _ = False"

lemma steps_ids: "steps c t t' \<Longrightarrow> r_id ` set t' = r_id ` set t"
  by (metis list.set_map list_all2_row_steps_ids)

lemma exec_op_ids:
  assumes "codec_ok c" "unique_ids s"
  shows "(\<forall>job. op \<noteq> Enqueue job) \<Longrightarrow> (\<forall>t. op \<noteq> DeleteDlq t) \<Longrightarrow>
           r_id ` set (st_jobs (exec_op c op s)) = r_id ` set (st_jobs s)"
    and "\<not> inserts i op \<Longrightarrow> i \<notin> r_id ` set (st_jobs s) \<Longrightarrow> i \<notin> r_id ` set (st_jobs (exec_op c op s))"
    and "(\<forall>t. op \<noteq> DeleteDlq t) \<Longrightarrow> i \<in> r_id ` set (st_jobs s) \<Longrightarrow> i \<in> r_id ` set (st_jobs (exec_op c op s))"
proof -
  have same: "r_id ` set (st_jobs (exec_op c op s)) = r_id ` set (st_jobs s)"
    if "\<forall>job. op \<noteq> Enqueue job" "\<forall>t. op \<noteq> DeleteDlq t"
  proof (rule steps_ids [of c])
    show "steps c (st_jobs s) (st_jobs (exec_op c op s))"
      using assms that
      by (cases op) (simp_all add: store_steps purge_terminal_payloads_steps)
  qed
  then show "(\<forall>job. op \<noteq> Enqueue job) \<Longrightarrow> (\<forall>t. op \<noteq> DeleteDlq t) \<Longrightarrow>
      r_id ` set (st_jobs (exec_op c op s)) = r_id ` set (st_jobs s)" .
  have ins: "r_id ` set (st_jobs (snd (enqueue c job s))) \<subseteq> insert (jr_id job) (r_id ` set (st_jobs s))"
    "r_id ` set (st_jobs s) \<subseteq> r_id ` set (st_jobs (snd (enqueue c job s)))" for job
    by (auto simp: enqueue_def new_row_def split: sum.split)
  have del: "r_id ` set (st_jobs (snd (delete_dlq_jobs t s))) \<subseteq> r_id ` set (st_jobs s)" for t
    by (auto simp: delete_dlq_jobs_def table_simps)
  consider (enq) job where "op = Enqueue job" | (del) t where "op = DeleteDlq t"
    | (other) "\<forall>job. op \<noteq> Enqueue job" "\<forall>t. op \<noteq> DeleteDlq t"
    by blast
  then show "\<not> inserts i op \<Longrightarrow> i \<notin> r_id ` set (st_jobs s) \<Longrightarrow> i \<notin> r_id ` set (st_jobs (exec_op c op s))"
  proof cases
    case enq
    then show "\<not> inserts i op \<Longrightarrow> i \<notin> r_id ` set (st_jobs s) \<Longrightarrow> ?thesis"
      using ins(1) [of job] by auto
  next
    case (del t)
    then show "i \<notin> r_id ` set (st_jobs s) \<Longrightarrow> ?thesis"
      using \<open>\<And>t. r_id ` set (st_jobs (snd (delete_dlq_jobs t s))) \<subseteq> r_id ` set (st_jobs s)\<close> [of t] by auto
  qed (simp add: same)
  show "(\<forall>t. op \<noteq> DeleteDlq t) \<Longrightarrow> i \<in> r_id ` set (st_jobs s) \<Longrightarrow> i \<in> r_id ` set (st_jobs (exec_op c op s))"
  proof (cases "\<exists>job. op = Enqueue job")
    case True
    then obtain job where "op = Enqueue job" by blast
    then show "i \<in> r_id ` set (st_jobs s) \<Longrightarrow> ?thesis"
      using subsetD [OF ins(2) [of job], of i] by simp
  qed (simp add: same)
qed

lemma terminal_exec_op:
  assumes "codec_ok c" "store_ok c s" "op_allowed op" "\<not> inserts i op"
    and "\<forall>r\<in>set (st_jobs s). r_id r = i \<longrightarrow> r_status r \<in> set TERMINAL_SQL"
  shows "\<forall>r\<in>set (st_jobs (exec_op c op s)). r_id r = i \<longrightarrow> r_status r \<in> set TERMINAL_SQL"
proof (intro ballI impI)
  fix r' assume r': "r' \<in> set (st_jobs (exec_op c op s))" "r_id r' = i"
  with exec_op_ids(2) [OF assms(1) store_okD(1) [OF assms(2)] assms(4)] obtain r
    where r: "r \<in> set (st_jobs s)" "r_id r = i" by blast
  with r' have "(row_step c)\<^sup>*\<^sup>* r r'"
    by (intro exec_op_row [OF assms(1-3)]) simp_all
  with r assms(5) show "r_status r' \<in> set TERMINAL_SQL"
    by (blast intro: row_steps_terminal)
qed

subsection \<open>Leases\<close>

definition holds_lease :: "ulid \<Rightarrow> time \<Rightarrow> 'p store \<Rightarrow> bool" where
  "holds_lease i l s \<longleftrightarrow>
     (\<exists>r\<in>set (st_jobs s). r_id r = i \<and> r_status r = ''Running'' \<and> r_lease_until r = Some l)"

text \<open>The operations that may end the lease \<open>l\<close> of job \<open>i\<close>: those the holder or an operator calls on
  that job, the cancellation of expired deadlines, and a recovery that finds the lease stale.\<close>

fun ends_lease :: "ulid \<Rightarrow> time \<Rightarrow> qop \<Rightarrow> bool" where
  "ends_lease i l (Complete _ _ j _) = (j = i)"
| "ends_lease i l (Fail _ _ j _ _) = (j = i)"
| "ends_lease i l (Cancel _ j _) = (j = i)"
| "ends_lease i l (FailDlq _ _ j _) = (j = i)"
| "ends_lease i l (ScheduleRetry j _) = (j = i)"
| "ends_lease i l (MarkConflict _ _ j _ _) = (j = i)"
| "ends_lease i l (CancelExpired _) = True"
| "ends_lease i l (RecoverStale now _ ttl) = (case ttl of None \<Rightarrow> False | Some d \<Rightarrow> l < now - d)"
| "ends_lease i l _ = False"

text \<open>The job a dequeue hands out.\<close>

fun handed_out :: "'p codec \<Rightarrow> qop \<Rightarrow> 'p store \<Rightarrow> ulid option" where
  "handed_out c (Dequeue n n2 tf) s =
     (case fst (dequeue c n n2 tf s) of Inr (Some a) \<Rightarrow> Some (jr_id a) | _ \<Rightarrow> None)"
| "handed_out c (DequeueByKind n n2 k tf) s =
     (case fst (dequeue_by_kind c n n2 k tf s) of Inr (Some a) \<Rightarrow> Some (jr_id a) | _ \<Rightarrow> None)"
| "handed_out c _ s = None"

lemma in_upd_where_miss: "r \<in> set t \<Longrightarrow> \<not> P r \<Longrightarrow> r \<in> set (upd_where P f t)"
  by (force simp: set_upd_where)

lemma set_pending_keep:
  "r \<in> set (st_jobs s) \<Longrightarrow> r_status r \<noteq> ''Waiting'' \<Longrightarrow> r \<in> set (st_jobs (set_pending i s))"
  by (simp add: set_pending_def in_upd_where_miss)

lemma promote_dependents_keep:
  "r \<in> set (st_jobs s) \<Longrightarrow> r_status r \<noteq> ''Waiting'' \<Longrightarrow> r \<in> set (st_jobs (promote_dependents deps s))"
  by (induction deps s rule: promote_dependents.induct) (simp_all add: set_pending_keep)

lemma cascade_keep:
  "r \<in> set (st_jobs s) \<Longrightarrow> r_status r \<noteq> ''Waiting'' \<Longrightarrow>
   r \<in> set (st_jobs (snd (cascade_check_and_promote c i s)))"
  by (auto simp: cascade_check_and_promote_def promote_dependents_keep split: sum.split)

lemma promote_stranded_loop_keep:
  "r \<in> set (st_jobs s) \<Longrightarrow> r_status r \<noteq> ''Waiting'' \<Longrightarrow>
   r \<in> set (st_jobs (snd (promote_stranded_loop c ps n s)))"
  by (induction c ps n s rule: promote_stranded_loop.induct)
    (simp_all add: set_pending_keep split: sum.split)

lemma lease_and_return_ok:
  assumes "store_ok c s" "r0 \<in> set (st_jobs s)"
  obtains a where "from_json c (r_payload r0) = Inr a" "payload_matches a r0"
    "lease_and_return c n l r0 s
     = (Inr (Some (set_status Running a)),
        s\<lparr>st_jobs := upd_where (\<lambda>x. r_id x = r_id r0) (lease_row l n) (st_jobs s)\<rparr>)"
  using store_okD(2) [OF assms] by (rule row_okE) (use that in \<open>simp add: lease_and_return_def\<close>)

definition due :: "time \<Rightarrow> string option \<Rightarrow> 'p row \<Rightarrow> bool" where
  "due now tf r \<longleftrightarrow> r_status r = ''Pending'' \<and> r_scheduled_at r \<le> now \<and> opt_eq tf (r_tenant_id r)"

text \<open>Both dequeues: nothing is due, or the first due row is leased and its record returned.\<close>

lemma dequeue_cases:
  assumes "store_ok c s"
  obtains (none) "dequeue c n n2 tf s = (Inr None, s)" "\<forall>r\<in>set (st_jobs s). \<not> due n tf r"
  | (some) r0 a where "r0 \<in> set (st_jobs s)" "due n tf r0"
      "\<And>r. r \<in> set (st_jobs s) \<Longrightarrow> due n tf r \<Longrightarrow>
         (- r_priority r0, r_scheduled_at r0) \<le> (- r_priority r, r_scheduled_at r)"
      "from_json c (r_payload r0) = Inr a" "payload_matches a r0"
      "dequeue c n n2 tf s
       = (Inr (Some (set_status Running a)),
          s\<lparr>st_jobs := upd_where (\<lambda>x. r_id x = r_id r0) (lease_row (n2 + secs 300) n) (st_jobs s)\<rparr>)"
proof -
  let ?k = "\<lambda>r :: 'a row. (- r_priority r, r_scheduled_at r)"
  have eq: "dequeue c n n2 tf s = (case select_first (due n tf) ?k (st_jobs s) of
      None \<Rightarrow> (Inr None, s) | Some r \<Rightarrow> lease_and_return c n (n2 + secs 300) r s)"
    by (simp add: dequeue_def due_def [abs_def])
  show ?thesis
  proof (cases "select_first (due n tf) ?k (st_jobs s)")
    case None
    with eq that(1) show ?thesis by (simp add: select_first_None)
  next
    case (Some r0)
    note sel = select_first_Some [OF Some]
    show ?thesis
      using lease_and_return_ok [OF assms sel(1), of n "n2 + secs 300"] that(2) [OF sel] Some eq
      by (metis (no_types, lifting) option.simps(5))
  qed
qed

lemma dequeue_by_kind_cases:
  assumes "store_ok c s"
  obtains (none) "dequeue_by_kind c n n2 k tf s = (Inr None, s)"
      "k = JOB_KIND_MESSAGE \<or> (\<forall>r\<in>set (st_jobs s). \<not> (due n tf r \<and> r_kind r = k))"
  | (some) r0 a where "k \<noteq> JOB_KIND_MESSAGE" "r0 \<in> set (st_jobs s)" "due n tf r0" "r_kind r0 = k"
      "\<And>r. r \<in> set (st_jobs s) \<Longrightarrow> due n tf r \<Longrightarrow> r_kind r = k \<Longrightarrow>
         (- r_priority r0, r_scheduled_at r0) \<le> (- r_priority r, r_scheduled_at r)"
      "from_json c (r_payload r0) = Inr a" "payload_matches a r0"
      "dequeue_by_kind c n n2 k tf s
       = (Inr (Some (set_status Running a)),
          s\<lparr>st_jobs := upd_where (\<lambda>x. r_id x = r_id r0) (lease_row (n2 + secs 300) n) (st_jobs s)\<rparr>)"
proof (cases "k = JOB_KIND_MESSAGE")
  case True
  with that(1) show ?thesis by (simp add: dequeue_by_kind_def)
next
  case False
  let ?k = "\<lambda>r :: 'a row. (- r_priority r, r_scheduled_at r)"
  let ?P = "\<lambda>r :: 'a row. due n tf r \<and> r_kind r = k"
  have P: "(\<lambda>r. r_status r = ''Pending'' \<and> r_kind r = k \<and> r_scheduled_at r \<le> n
      \<and> opt_eq tf (r_tenant_id r)) = ?P"
    by (auto simp: due_def)
  have eq: "dequeue_by_kind c n n2 k tf s = (case select_first ?P ?k (st_jobs s) of
      None \<Rightarrow> (Inr None, s) | Some r \<Rightarrow> lease_and_return c n (n2 + secs 300) r s)"
    using False by (simp add: dequeue_by_kind_def P)
  show ?thesis
  proof (cases "select_first ?P ?k (st_jobs s)")
    case None
    with eq that(1) show ?thesis by (simp add: select_first_None)
  next
    case (Some r0)
    note sel = select_first_Some [OF Some]
    obtain a where "from_json c (r_payload r0) = Inr a" "payload_matches a r0"
      "lease_and_return c n (n2 + secs 300) r0 s = (Inr (Some (set_status Running a)),
        s\<lparr>st_jobs := upd_where (\<lambda>x. r_id x = r_id r0) (lease_row (n2 + secs 300) n) (st_jobs s)\<rparr>)"
      by (rule lease_and_return_ok [OF assms sel(1)])
    then show ?thesis
      using that(2) [OF False sel(1)] sel(2,3) Some eq by auto
  qed
qed

lemma promote_retries_loop_keep:
  assumes "r \<in> set (st_jobs s)" "r_status r \<noteq> ''Failed''"
    and "\<And>j p n a. (j, p, n) \<in> set rows \<Longrightarrow> from_json c p = Inr a \<Longrightarrow> jr_id a \<noteq> r_id r"
  shows "r \<in> set (st_jobs (snd (promote_retries_loop c now clk rows acc s)))"
  using assms
proof (induction c now clk rows acc s rule: promote_retries_loop.induct)
  case (2 c now clk i p n rows acc s)
  have dlq: "r \<in> set (st_jobs (snd (fail_dlq c t1 t2 j e s)))" if "j \<noteq> r_id r" for t1 t2 j e
    using 2(3) that by (auto simp: fail_dlq_def Let_def intro!: in_upd_where_miss split: option.split sum.split)
  show ?case
  proof (cases "deserialize_record c p")
    case (Inr a)
    then have ne: "jr_id a \<noteq> r_id r" using 2(5) [of i p n a] by (simp add: deserialize_Inr)
    show ?thesis
    proof (cases "rt_max (jr_retry a) \<le> word_of_int n")
      case True
      define d where "d = fail_dlq c (fst (clk i)) (snd (clk i)) (jr_id a)
        (max_retries_message (word_of_int n) (rt_max (jr_retry a))) s"
      obtain res s2 where d2: "d = (res, s2)" by (cases d)
      with dlq [OF ne] have "r \<in> set (st_jobs s2)" unfolding d_def by (metis snd_conv)
      then show ?thesis
        using Inr True d2 [unfolded d_def] 2(1) [OF Inr refl refl refl True d2 [unfolded d_def, symmetric]] 2(4,5)
        by (cases res) auto
    next
      case False
      with Inr 2(2) [OF Inr refl refl refl False] 2(3-5) show ?thesis
        by (auto simp: Let_def intro!: in_upd_where_miss)
    qed
  qed (use 2(3) in simp)
qed simp

lemma lease_other_row:
  assumes "unique_ids s" "r \<in> set (st_jobs s)" "r0 \<in> set (st_jobs s)" "r_status r0 \<noteq> r_status r"
  shows "r_id r0 \<noteq> r_id r"
  using assms by (metis distinct_key_eq)

text \<open>The common shape of both dequeues: the outcome \<open>x\<close> leases a pending row, or there is none.\<close>

definition lease_outcome ::
  "'p codec \<Rightarrow> 'p store \<Rightarrow> time \<Rightarrow> time \<Rightarrow> 'p row \<Rightarrow> (queue_error, job_record option) result \<times> 'p store \<Rightarrow> bool"
where
  "lease_outcome c s n l r0 x \<longleftrightarrow>
     r0 \<in> set (st_jobs s) \<and> r_status r0 = ''Pending'' \<and>
     (\<exists>a. from_json c (r_payload r0) = Inr a \<and> payload_matches a r0 \<and>
        x = (Inr (Some (set_status Running a)),
             s\<lparr>st_jobs := upd_where (\<lambda>x. r_id x = r_id r0) (lease_row l n) (st_jobs s)\<rparr>))"

lemma dequeue_outcome:
  assumes "store_ok c s"
  shows "dequeue c n n2 tf s = (Inr None, s)
     \<or> (\<exists>r0. lease_outcome c s n (n2 + secs 300) r0 (dequeue c n n2 tf s))"
    "dequeue_by_kind c n n2 k tf s = (Inr None, s)
     \<or> (\<exists>r0. lease_outcome c s n (n2 + secs 300) r0 (dequeue_by_kind c n n2 k tf s))"
  unfolding lease_outcome_def
  by (rule dequeue_cases [OF assms, of n n2 tf]; unfold due_def; blast)
    (rule dequeue_by_kind_cases [OF assms, of n n2 k tf]; unfold due_def; blast)

lemma lease_outcome_keep:
  assumes "store_ok c s" "r \<in> set (st_jobs s)" "r_status r \<noteq> ''Pending''"
    and "x = (Inr None, s) \<or> (\<exists>r0. lease_outcome c s n l r0 x)"
  shows "r \<in> set (st_jobs (snd x))"
    "(case fst x of Inr (Some a) \<Rightarrow> Some (jr_id a) | _ \<Rightarrow> None) \<noteq> Some (r_id r)"
proof -
  have "r \<in> set (st_jobs (snd x)) \<and>
      (case fst x of Inr (Some a) \<Rightarrow> Some (jr_id a) | _ \<Rightarrow> None) \<noteq> Some (r_id r)"
    if "lease_outcome c s n l r0 x" for r0
  proof -
    from that obtain a where r0: "r0 \<in> set (st_jobs s)" "r_status r0 = ''Pending''"
      and a: "payload_matches a r0" and x: "x = (Inr (Some (set_status Running a)),
        s\<lparr>st_jobs := upd_where (\<lambda>x. r_id x = r_id r0) (lease_row l n) (st_jobs s)\<rparr>)"
      unfolding lease_outcome_def by blast
    from r0 assms(3) have "r_id r0 \<noteq> r_id r"
      by (intro lease_other_row [OF store_okD(1) [OF assms(1)] assms(2)]) simp_all
    with a show ?thesis
      using in_upd_where_miss [OF assms(2), of "\<lambda>x. r_id x = r_id r0"]
      by (simp add: x payload_matches_def)
  qed
  with assms(2,4) show "r \<in> set (st_jobs (snd x))"
    "(case fst x of Inr (Some a) \<Rightarrow> Some (jr_id a) | _ \<Rightarrow> None) \<noteq> Some (r_id r)"
    by auto
qed

lemma dequeue_keep:
  assumes "store_ok c s" "r \<in> set (st_jobs s)" "r_status r \<noteq> ''Pending''"
  shows "r \<in> set (st_jobs (snd (dequeue c n n2 tf s)))"
    "r \<in> set (st_jobs (snd (dequeue_by_kind c n n2 k tf s)))"
    "handed_out c (Dequeue n n2 tf) s \<noteq> Some (r_id r)"
    "handed_out c (DequeueByKind n n2 k tf) s \<noteq> Some (r_id r)"
  using lease_outcome_keep [OF assms dequeue_outcome(1) [OF assms(1)]]
    lease_outcome_keep [OF assms dequeue_outcome(2) [OF assms(1)]]
  by simp_all

lemma promote_retries_keep:
  assumes "store_ok c s" "r \<in> set (st_jobs s)" "r_status r \<noteq> ''Failed''"
  shows "r \<in> set (st_jobs (snd (promote_retries c now clk s)))"
  unfolding promote_retries_def
proof (rule promote_retries_loop_keep [OF assms(2,3)])
  fix j p n a
  assume "(j, p, n) \<in> set (map (\<lambda>r. (r_id r, r_payload r, r_attempt_count r))
      (filter (\<lambda>r. r_status r = ''Failed'' \<and> r_scheduled_at r \<le> now) (st_jobs s)))"
    and a: "from_json c p = Inr a"
  then obtain x where x: "x \<in> set (st_jobs s)" "r_status x = ''Failed''" "p = r_payload x"
    by auto
  with a store_okD(2) [OF assms(1) x(1)] have "jr_id a = r_id x"
    by (auto elim!: row_okE simp: payload_matches_def)
  with lease_other_row [OF store_okD(1) [OF assms(1)] assms(2) x(1)] x(2) assms(3)
  show "jr_id a \<noteq> r_id r" by simp
qed

lemma purge_keep:
  assumes "codec_ok c" "unique_ids s" "r \<in> set (st_jobs s)" "r_status r \<notin> set TERMINAL_SQL"
  shows "r \<in> set (st_jobs (snd (purge_terminal_payloads c cutoff s)))"
  using assms(3,4)
  by (auto simp: purge_terminal_payloads_eq [OF assms(1,2)] purge_spec_def purge_candidate_def
      terminal_row_def intro!: in_upd_where_miss)

text \<open>An operation that does not end the lease leaves the leased row as it is, and hands out
  another job or none.\<close>

lemma running_kept:
  assumes "codec_ok c" "store_ok c s" "op_allowed op"
    and r: "r \<in> set (st_jobs s)" "r_status r = ''Running''" "r_lease_until r = Some l"
    and "\<not> ends_lease (r_id r) l op"
  shows "r \<in> set (st_jobs (exec_op c op s))" "handed_out c op s \<noteq> Some (r_id r)"
proof -
  note ok = store_okD(1) [OF assms(2)]
  have miss: "r \<in> set (upd_where P f (st_jobs s))" if "\<not> P r" for P f
    using r(1) that by (rule in_upd_where_miss)
  show "r \<in> set (st_jobs (exec_op c op s))"
  proof (cases op)
    case (Enqueue job)
    with r show ?thesis by (auto simp: enqueue_def split: sum.split)
  next
    case (Complete n n2 i res)
    with assms(7) r show ?thesis
      by (auto simp: complete_def Let_def intro!: cascade_keep miss split: option.split sum.split)
  next
    case (CompleteMessage n n2 i res)
    with r show ?thesis
      by (auto simp: complete_message_delivery_def Let_def intro!: miss split: option.split sum.split)
  next
    case (Fail n n2 i e a)
    with assms(7) r show ?thesis
      by (auto simp: fail_def Let_def intro!: miss split: option.split sum.split)
  next
    case (Cancel n i tf)
    with assms(7) r show ?thesis
      by (auto simp: cancel_def Let_def intro!: miss split: option.split sum.split)
  next
    case (FailDlq n n2 i e)
    with assms(7) r show ?thesis
      by (auto simp: fail_dlq_def Let_def intro!: miss split: option.split sum.split)
  next
    case (MarkConflict n n2 i md d)
    with assms(7) r show ?thesis
      by (auto simp: mark_conflict_def intro!: miss split: option.split sum.split)
  next
    case (RecoverStale n n2 ttl)
    with assms(7) r show ?thesis
      by (auto simp: recover_stale_leases_def Let_def intro!: miss split: option.splits)
  qed (use assms r in \<open>auto simp: set_pending_keep dequeue_keep promote_retries_keep purge_keep
        promote_stranded_waiting_jobs_def promote_stranded_loop_keep schedule_retry_def
        delete_dlq_jobs_def dlq_older_def TERMINAL_SQL_def table_simps ok intro!: miss\<close>)
  show "handed_out c op s \<noteq> Some (r_id r)"
    using dequeue_keep(3,4) [OF assms(2) r(1)] r(2) by (cases op) simp_all
qed

lemma holds_lease_step:
  assumes "codec_ok c" "store_ok c s" "op_allowed op" "holds_lease i l s" "\<not> ends_lease i l op"
  shows "holds_lease i l (exec_op c op s)" "handed_out c op s \<noteq> Some i"
  using assms running_kept [OF assms(1-3)] unfolding holds_lease_def by blast+

end
