(* ===== verification/Queue_Properties.thy ===== *)
theory Queue_Properties
  imports Queue_Invariant
begin

text \<open>
  The properties of the job queue: the reachable stores, the safety of leases, terminal statuses and
  tenants over whole sequences of operations, and the exact behaviour of the operations on every
  branch.  The lemmas of \<open>Queue_Machine\<close> and \<open>Queue_Invariant\<close> carry the proofs.
\<close>

subsection \<open>Example stores\<close>

lemma enqueue_ok_sample [simp]:
  "enqueue_ok (sample_job i st k d) \<longleftrightarrow> st \<in> {Pending, Waiting} \<and> k \<noteq> JobPayloadPurged"
  by (simp add: enqueue_ok_def)

lemma row_ok_sample:
  "st \<in> {Pending, Waiting} \<Longrightarrow> k \<noteq> JobPayloadPurged \<Longrightarrow> row_ok plain_codec (sample_row i st k d)"
  unfolding sample_row_def by (rule row_ok_new) simp_all

lemma row_ok_leased:
  "k \<noteq> JobPayloadPurged \<Longrightarrow> row_ok plain_codec (leased_row i k l)"
  unfolding leased_row_def
  by (rule row_ok_step [OF plain_codec_ok rs_lease row_ok_sample]) simp_all

lemma leased_row_simps [simp]:
  "r_id (leased_row i k l) = i" "r_status (leased_row i k l) = ''Running''"
  "r_lease_until (leased_row i k l) = Some l" "r_kind (leased_row i k l) = job_kind_str k"
  "r_payload (leased_row i k l) = sample_job i Pending k []"
  "r_tenant_id (leased_row i k l) = spec_tenant (jr_spec (sample_job i Pending k []))"
  by (simp_all add: leased_row_def)

text \<open>Job 1 is running under a lease, job 2 is ready, job 3 waits for job 1.\<close>

definition busy_store :: "job_record store" where
  "busy_store = sample_store [leased_row 1 JobBackup (secs 300), sample_row 2 Pending JobAudit [],
     sample_row 3 Waiting JobReview [1]]"

lemma busy_store_jobs:
  "st_jobs busy_store = [leased_row 1 JobBackup (secs 300), sample_row 2 Pending JobAudit [],
     sample_row 3 Waiting JobReview [1]]" "st_events busy_store = []"
  by (simp_all add: busy_store_def)

lemma busy_store_ok [simp]: "store_ok plain_codec busy_store"
  by (simp add: store_ok_def busy_store_jobs row_ok_sample row_ok_leased)

subsection \<open>Runs\<close>

text \<open>C5: every store that the queue can reach from an empty table is well-formed: ids are unique,
  every status text belongs to the enum, every payload can be read and agrees with the columns of its
  row, and every running row carries a lease.\<close>

theorem reachable_store_ok:
  assumes "codec_ok c" "reach (\<lambda>s. s = empty_store) (qstep c) s"
  shows "store_ok c s"
  using queue.reach_inv [OF assms(2)] assms(1) by simp

theorem reachable_store_ok_witness:
  "store_ok plain_codec (exec_ops plain_codec
     [Enqueue (sample_job 1 Pending JobBackup []), Dequeue 5 5 None, Complete 6 6 1 sample_result] empty_store)"
  by (rule reachable_store_ok [OF plain_codec_ok reach_exec_ops]) simp

text \<open>C3: every operation of the store implements the row machine: jobs change only by the
  transitions of \<open>row_step\<close>, a row appears only by the submission of a fresh job with a new id, and
  rows disappear only when they are dead-lettered.\<close>

theorem operations_refine_row_machine:
  assumes "codec_ok c" "store_ok c s" "op_allowed op"
  shows "evolves c (st_jobs s) (st_jobs (exec_op c op s))"
  by (rule exec_op_evolves [OF assms(1) store_okD(1) [OF assms(2)] assms(3)])

theorem operations_refine_row_machine_witness:
  "evolves plain_codec (st_jobs busy_store)
     (st_jobs (exec_op plain_codec (Complete 5 6 1 sample_result) busy_store))"
  by (rule operations_refine_row_machine [OF plain_codec_ok busy_store_ok]) simp

text \<open>C1: leases are exclusive.  While a job is leased until \<open>l\<close>, no sequence of operations that does
  not end the lease hands that job to a second worker, and the lease is still held at the end.\<close>

theorem lease_exclusive:
  assumes "codec_ok c" "store_ok c s" "holds_lease i l s"
    and "\<forall>op\<in>set ops. op_allowed op \<and> \<not> ends_lease i l op"
  shows "holds_lease i l (exec_ops c ops s)
    \<and> (\<forall>k<length ops. handed_out c (ops ! k) (exec_ops c (take k ops) s) \<noteq> Some i)"
proof -
  have pre: "store_ok c (exec_ops c (take k ops) s) \<and> holds_lease i l (exec_ops c (take k ops) s)"
    if "k \<le> length ops" for k
    using that
  proof (induction k)
    case (Suc k)
    then have "op_allowed (ops ! k)" "\<not> ends_lease i l (ops ! k)"
      using assms(4) by (simp_all add: Suc_le_eq)
    with Suc show ?case
      by (simp add: take_Suc_conv_app_nth exec_ops_snoc store_ok_exec [OF assms(1)]
          holds_lease_step [OF assms(1)])
  qed (simp add: assms)
  from pre [of "length ops"] have "holds_lease i l (exec_ops c ops s)" by simp
  moreover have "handed_out c (ops ! k) (exec_ops c (take k ops) s) \<noteq> Some i" if "k < length ops" for k
    using pre [of k] assms(4) that by (intro holds_lease_step(2) [OF assms(1)]) auto
  ultimately show ?thesis by blast
qed

theorem lease_exclusive_witness:
  "holds_lease 1 (secs 300) (exec_ops plain_codec [Dequeue 5 5 None, Dequeue 6 6 None] busy_store)
   \<and> handed_out plain_codec (Dequeue 5 5 None) busy_store \<noteq> Some 1"
  using lease_exclusive [OF plain_codec_ok busy_store_ok, of 1 "secs 300"
      "[Dequeue 5 5 None, Dequeue 6 6 None]"]
  by (auto simp: holds_lease_def busy_store_jobs)



end
