(* ===== verification/Queue_Behaviour.thy ===== *)
theory Queue_Behaviour
  imports Queue_Properties
begin

text \<open>
  The exact behaviour of the queue operations on well-formed stores: which job a dequeue hands out,
  what each end of an attempt writes and which errors it reports, how retries are promoted or
  dead-lettered, and which waiting jobs a completion releases.
\<close>

subsection \<open>Lemmas\<close>

lemma filter_upd_where_out:
  "(\<And>r. r \<in> set t \<Longrightarrow> P r \<Longrightarrow> \<not> Q r \<and> \<not> Q (f r)) \<Longrightarrow> filter Q (upd_where P f t) = filter Q t"
  by (induction t) auto

lemma find_id_status:
  assumes "unique_ids s" "r \<in> set (st_jobs s)" "Q r"
  shows "List.find (\<lambda>x. r_id x = r_id r \<and> Q x) (st_jobs s) = Some r"
proof (cases "List.find (\<lambda>x. r_id x = r_id r \<and> Q x) (st_jobs s)")
  case None
  with assms(2,3) show ?thesis by (simp add: find_None_iff)
next
  case (Some x)
  then have "x \<in> set (st_jobs s)" "r_id x = r_id r" by (auto dest: find_Some_iff)
  with assms Some show ?thesis by (metis distinct_key_eq)
qed

lemma find_id:
  assumes "unique_ids s" "r \<in> set (st_jobs s)"
  shows "List.find (\<lambda>x. r_id x = r_id r) (st_jobs s) = Some r"
  using find_id_status [OF assms, of "\<lambda>_. True"] by simp

lemma upd_where_at:
  "r \<in> set t \<Longrightarrow> P r \<Longrightarrow> f r \<in> set (upd_where P f t)"
  by (force simp: set_upd_where)

text \<open>An update by primary key only depends on what it does to the row with that key.\<close>

lemma upd_where_key_cong:
  assumes "distinct (map r_id t)" "r \<in> set t" "\<And>x. P x \<Longrightarrow> r_id x = r_id r" "P r \<Longrightarrow> f r = g r"
  shows "upd_where P f t = upd_where P g t"
  unfolding upd_where_def
proof (rule map_cong [OF refl])
  fix x assume x: "x \<in> set t"
  have "x = r" if "P x" using distinct_key_eq [OF assms(1) x assms(2) assms(3) [OF that]] .
  with assms(4) show "(if P x then f x else x) = (if P x then g x else x)" by auto
qed

lemma upd_where_key_only:
  assumes "distinct (map r_id t)" "r \<in> set t" "\<And>x. P x \<Longrightarrow> r_id x = r_id r" "P r"
  shows "upd_where P f t = upd_where (\<lambda>x. r_id x = r_id r) f t"
  unfolding upd_where_def
proof (rule map_cong [OF refl])
  fix x assume x: "x \<in> set t"
  have "P x \<longleftrightarrow> r_id x = r_id r"
    using distinct_key_eq [OF assms(1) x assms(2)] assms(3,4) by blast
  then show "(if P x then f x else x) = (if r_id x = r_id r then f x else x)" by simp
qed

text \<open>Releasing waiting jobs does not change which jobs are done.\<close>

lemma all_jobs_done_set_pending [simp]:
  "all_jobs_done ids (set_pending i s) = all_jobs_done ids s"
proof -
  have "filter (\<lambda>r. r_id r \<in> set ids \<and> r_status r = ''Done'')
          (upd_where (\<lambda>r. r_id r = i \<and> r_status r = ''Waiting'') (\<lambda>r. r\<lparr>r_status := ''Pending''\<rparr>) t)
      = filter (\<lambda>r. r_id r \<in> set ids \<and> r_status r = ''Done'') t" for t :: "'a row list"
    by (rule filter_upd_where_out) simp
  then show ?thesis
    by (simp add: all_jobs_done_def set_pending_def rows_affected_def)
qed

lemma set_pending_events [simp]: "st_events (set_pending i s) = st_events s"
  by (simp add: set_pending_def)

lemma set_pending_update [simp]: "(set_pending i s)\<lparr>st_jobs := t\<rparr> = s\<lparr>st_jobs := t\<rparr>"
  by (simp add: set_pending_def)

lemma set_pending_jobs:
  "st_jobs (set_pending i s) = upd_where (\<lambda>r. r_id r = i \<and> r_status r = ''Waiting'')
     (\<lambda>r. r\<lparr>r_status := ''Pending''\<rparr>) (st_jobs s)"
  by (simp add: set_pending_def)

text \<open>Releasing one job and then the jobs that satisfy \<open>Q\<close> is releasing all of them.\<close>

lemma release_release:
  "upd_where (\<lambda>r. r_status r = ''Waiting'' \<and> Q (r_id r)) (\<lambda>r. r\<lparr>r_status := ''Pending''\<rparr>)
     (st_jobs (set_pending i s))
   = upd_where (\<lambda>r. r_status r = ''Waiting'' \<and> (i = r_id r \<or> Q (r_id r)))
       (\<lambda>r. r\<lparr>r_status := ''Pending''\<rparr>) (st_jobs s)"
  by (auto simp: set_pending_jobs upd_where_def)

lemma promote_dependents_eq:
  "promote_dependents deps s
   = s\<lparr>st_jobs := upd_where
         (\<lambda>r. r_status r = ''Waiting'' \<and> (\<exists>d\<in>set deps. jr_id d = r_id r \<and> all_jobs_done (await_ids d) s))
         (\<lambda>r. r\<lparr>r_status := ''Pending''\<rparr>) (st_jobs s)\<rparr>"
proof (induction deps s rule: promote_dependents.induct)
  case (1 s)
  then show ?case by (simp add: upd_where_none)
next
  case (2 d deps s)
  show ?case
  proof (cases "all_jobs_done (await_ids d) s")
    case True
    with 2 show ?thesis
      by (simp add: release_release
          [where Q = "\<lambda>i. \<exists>d\<in>set deps. jr_id d = i \<and> all_jobs_done (await_ids d) s"])
  next
    case False
    with 2 show ?thesis by simp
  qed
qed

text \<open>In a well-formed store the dependents of a job are the waiting rows that name it.\<close>

lemma find_awaiting_eq:
  assumes "store_ok c s"
  shows "find_awaiting c i s = Inr (map (\<lambda>r. projr (from_json c (r_payload r)))
    (filter (\<lambda>r. r_status r = ''Waiting''
       \<and> (case r_await_jobs r of None \<Rightarrow> False | Some ids \<Rightarrow> i \<in> set ids)) (st_jobs s)))"
proof -
  have "deserialize_record c (r_payload r) = Inr (projr (from_json c (r_payload r)))"
    if "r \<in> set (st_jobs s)" for r
    using store_okD(2) [OF assms that] by (rule row_okE) simp
  then show ?thesis
    by (simp add: find_awaiting_def collect_results_Inr)
qed

lemma record_of_row:
  assumes "store_ok c s" "r \<in> set (st_jobs s)"
  shows "jr_id (projr (from_json c (r_payload r))) = r_id r"
    "await_column (await_ids (projr (from_json c (r_payload r)))) = r_await_jobs r"
  using store_okD(2) [OF assms] by (auto elim!: row_okE simp: payload_matches_def)

lemma cascade_eq:
  assumes "store_ok c s"
  shows "cascade_check_and_promote c i s
    = (Inr (), s\<lparr>st_jobs := upd_where
        (\<lambda>r. r_status r = ''Waiting'' \<and> (\<exists>ids. r_await_jobs r = Some ids \<and> i \<in> set ids \<and> all_jobs_done ids s))
        (\<lambda>r. r\<lparr>r_status := ''Pending''\<rparr>) (st_jobs s)\<rparr>)"
proof -
  let ?W = "\<lambda>r :: 'a row. r_status r = ''Waiting'' \<and> (case r_await_jobs r of None \<Rightarrow> False | Some ids \<Rightarrow> i \<in> set ids)"
  let ?rec = "\<lambda>r :: 'a row. projr (from_json c (r_payload r))"
  have "r_status r = ''Waiting'' \<and> (\<exists>d\<in>set (map ?rec (filter ?W (st_jobs s))). jr_id d = r_id r \<and> all_jobs_done (await_ids d) s)
     \<longleftrightarrow> r_status r = ''Waiting'' \<and> (\<exists>ids. r_await_jobs r = Some ids \<and> i \<in> set ids \<and> all_jobs_done ids s)"
    (is "?L \<longleftrightarrow> ?R") if r: "r \<in> set (st_jobs s)" for r
  proof -
    note rec = record_of_row [OF assms]
    have "?L \<longleftrightarrow> ?W r \<and> all_jobs_done (await_ids (?rec r)) s"
      using rec(1) r store_okD(1) [OF assms] by (auto dest: distinct_key_eq)
    also have "\<dots> \<longleftrightarrow> ?R"
      using rec(2) [OF r] by (auto simp: await_column_def split: option.splits if_splits)
    finally show ?thesis .
  qed
  then show ?thesis
    unfolding cascade_check_and_promote_def find_awaiting_eq [OF assms] sum.case promote_dependents_eq
    by (simp add: upd_where_def)
qed

text \<open>The sweep over stranded jobs releases every waiting job whose dependencies are done.\<close>

lemma promote_stranded_loop_eq:
  assumes "store_ok c s"
    and "\<And>r. r \<in> set L \<Longrightarrow> r \<in> set (st_jobs s) \<and> r_await_jobs r \<noteq> None"
  shows "promote_stranded_loop c (map r_payload L) n s'
    = (Inr (n + of_nat (length (filter (\<lambda>r. all_jobs_done (the (r_await_jobs r)) s') L))),
       s'\<lparr>st_jobs := upd_where
         (\<lambda>r. r_status r = ''Waiting'' \<and> (\<exists>x\<in>set L. r_id x = r_id r \<and> all_jobs_done (the (r_await_jobs x)) s'))
         (\<lambda>r. r\<lparr>r_status := ''Pending''\<rparr>) (st_jobs s')\<rparr>)"
  using assms(2)
proof (induction L arbitrary: n s')
  case Nil
  then show ?case by (simp add: upd_where_none)
next
  case (Cons x L)
  then have x: "x \<in> set (st_jobs s)" "r_await_jobs x \<noteq> None" by auto
  from store_okD(2) [OF assms(1) x(1)] obtain a
    where a: "deserialize_record c (r_payload x) = Inr a" "payload_matches a x"
    by (rule row_okE)
  with x(2) have ids: "await_ids a = the (r_await_jobs x)" "await_ids a \<noteq> []" "jr_id a = r_id x"
    by (auto simp: payload_matches_def await_column_def split: if_splits)
  have IH: "promote_stranded_loop c (map r_payload L) m u
    = (Inr (m + of_nat (length (filter (\<lambda>r. all_jobs_done (the (r_await_jobs r)) u) L))),
       u\<lparr>st_jobs := upd_where
         (\<lambda>r. r_status r = ''Waiting'' \<and> (\<exists>x\<in>set L. r_id x = r_id r \<and> all_jobs_done (the (r_await_jobs x)) u))
         (\<lambda>r. r\<lparr>r_status := ''Pending''\<rparr>) (st_jobs u)\<rparr>)" for m u
    using Cons.prems by (intro Cons.IH) simp
  show ?case
  proof (cases "all_jobs_done (the (r_await_jobs x)) s'")
    case True
    with a ids show ?thesis
      by (simp add: IH add.assoc release_release
          [where Q = "\<lambda>i. \<exists>x\<in>set L. r_id x = i \<and> all_jobs_done (the (r_await_jobs x)) s'"])
  next
    case False
    with a ids show ?thesis by (simp add: IH)
  qed
qed

lemma promote_stranded_eq:
  assumes "store_ok c s"
  shows "snd (promote_stranded_waiting_jobs c s)
    = s\<lparr>st_jobs := upd_where
         (\<lambda>r. r_status r = ''Waiting'' \<and> (\<exists>ids. r_await_jobs r = Some ids \<and> ids \<noteq> [] \<and> all_jobs_done ids s))
         (\<lambda>r. r\<lparr>r_status := ''Pending''\<rparr>) (st_jobs s)\<rparr>"
    and "\<exists>n. fst (promote_stranded_waiting_jobs c s) = Inr n"
proof -
  let ?W = "\<lambda>r :: 'a row. r_status r = ''Waiting'' \<and> r_await_jobs r \<noteq> None \<and> r_await_jobs r \<noteq> Some []"
  let ?L = "filter ?W (st_jobs s)"
  have loop: "promote_stranded_waiting_jobs c s
    = (Inr (0 + of_nat (length (filter (\<lambda>r. all_jobs_done (the (r_await_jobs r)) s) ?L))),
       s\<lparr>st_jobs := upd_where
         (\<lambda>r. r_status r = ''Waiting'' \<and> (\<exists>x\<in>set ?L. r_id x = r_id r \<and> all_jobs_done (the (r_await_jobs x)) s))
         (\<lambda>r. r\<lparr>r_status := ''Pending''\<rparr>) (st_jobs s)\<rparr>)"
    unfolding promote_stranded_waiting_jobs_def
    by (rule promote_stranded_loop_eq [OF assms]) auto
  then show "\<exists>n. fst (promote_stranded_waiting_jobs c s) = Inr n" by simp
  have "r_status r = ''Waiting'' \<and> (\<exists>x\<in>set ?L. r_id x = r_id r \<and> all_jobs_done (the (r_await_jobs x)) s)
     \<longleftrightarrow> r_status r = ''Waiting'' \<and> (\<exists>ids. r_await_jobs r = Some ids \<and> ids \<noteq> [] \<and> all_jobs_done ids s)"
    if "r \<in> set (st_jobs s)" for r
    using that store_okD(1) [OF assms] by (auto dest: distinct_key_eq)
  with loop show "snd (promote_stranded_waiting_jobs c s)
    = s\<lparr>st_jobs := upd_where
         (\<lambda>r. r_status r = ''Waiting'' \<and> (\<exists>ids. r_await_jobs r = Some ids \<and> ids \<noteq> [] \<and> all_jobs_done ids s))
         (\<lambda>r. r\<lparr>r_status := ''Pending''\<rparr>) (st_jobs s)\<rparr>"
    by (simp add: upd_where_def)
qed

subsection \<open>Retries\<close>

text \<open>The row that \<open>fail_dlq\<close> writes for a row whose payload can be read.\<close>

definition dlq_row :: "'p codec \<Rightarrow> time \<times> time \<Rightarrow> string \<Rightarrow> 'p row \<Rightarrow> 'p row" where
  "dlq_row c t err r =
     (let a = projr (from_json c (r_payload r)); msg = dlq_message a err in
      r\<lparr>r_status := ''DLQ'', r_completed_at := Some (fst t), r_lease_until := None,
        r_last_error := Some msg, r_payload := projr (to_json c (dlq_record msg (snd t) a))\<rparr>)"

lemma dlq_row_id [simp]: "r_id (dlq_row c t e r) = r_id r" "r_status (dlq_row c t e r) = ''DLQ''"
  by (simp_all add: dlq_row_def Let_def)

lemma fail_dlq_eq:
  assumes "codec_ok c" "unique_ids s" "r \<in> set (st_jobs s)" "from_json c (r_payload r) = Inr a"
  shows "fail_dlq c t1 t2 (r_id r) err s
       = (Inr (), s\<lparr>st_jobs := upd_where (\<lambda>x. r_id x = r_id r) (dlq_row c (t1, t2) err) (st_jobs s)\<rparr>)"
proof -
  let ?m = "dlq_message a err"
  obtain p where p: "serialize_record c (dlq_record ?m t2 a) = Inr p"
    by (rule codec_ok_serialize [OF assms(1)])
  then have "dlq_row c (t1, t2) err r = r\<lparr>r_status := ''DLQ'', r_completed_at := Some t1,
      r_lease_until := None, r_last_error := Some ?m, r_payload := p\<rparr>"
    using assms(4) by (simp add: dlq_row_def Let_def serialize_Inr)
  then have "upd_where (\<lambda>x. r_id x = r_id r) (\<lambda>x. x\<lparr>r_status := ''DLQ'', r_completed_at := Some t1,
      r_lease_until := None, r_last_error := Some ?m, r_payload := p\<rparr>) (st_jobs s)
    = upd_where (\<lambda>x. r_id x = r_id r) (dlq_row c (t1, t2) err) (st_jobs s)"
    by (intro upd_where_key_cong [OF assms(2,3)]) simp_all
  with p assms show ?thesis
    by (simp add: fail_dlq_def find_id deserialize_record_def)
qed

text \<open>A failed row that is due goes to the dead-letter queue when its attempts are used up, and back
  to the queue otherwise.\<close>

definition exhausted :: "'p codec \<Rightarrow> 'p row \<Rightarrow> bool" where
  "exhausted c r \<longleftrightarrow>
     rt_max (jr_retry (projr (from_json c (r_payload r)))) \<le> word_of_int (r_attempt_count r)"

definition retry_row :: "'p codec \<Rightarrow> time \<Rightarrow> (ulid \<Rightarrow> time \<times> time) \<Rightarrow> 'p row \<Rightarrow> 'p row" where
  "retry_row c now clk r =
     (if exhausted c r
      then dlq_row c (clk (r_id r))
             (max_retries_message (word_of_int (r_attempt_count r))
               (rt_max (jr_retry (projr (from_json c (r_payload r)))))) r
      else r\<lparr>r_status := ''Pending'', r_scheduled_at := now\<rparr>)"

lemma retry_row_id [simp]: "r_id (retry_row c now clk r) = r_id r"
  by (simp add: retry_row_def)

lemma promote_retries_loop_eq:
  assumes "codec_ok c" "distinct (map r_id L)" "unique_ids s"
    and "\<And>r. r \<in> set L \<Longrightarrow> r \<in> set (st_jobs s) \<and> r_status r = ''Failed'' \<and> row_ok c r"
  shows "promote_retries_loop c now clk (map (\<lambda>r. (r_id r, r_payload r, r_attempt_count r)) L) acc s
    = (Inr (acc @ map r_id (filter (\<lambda>r. \<not> exhausted c r) L)),
       s\<lparr>st_jobs := upd_where (\<lambda>r. r \<in> set L) (retry_row c now clk) (st_jobs s)\<rparr>)"
  using assms(2-)
proof (induction L arbitrary: acc s)
  case Nil
  then show ?case by (simp add: upd_where_none)
next
  case (Cons x L)
  from Cons.prems(3) have x: "x \<in> set (st_jobs s)" "r_status x = ''Failed''" "row_ok c x"
    by simp_all
  from x(3) obtain a where a: "from_json c (r_payload x) = Inr a"
      "deserialize_record c (r_payload x) = Inr a" "jr_id a = r_id x"
    by (auto elim!: row_okE simp: payload_matches_def)
  let ?s = "s\<lparr>st_jobs := upd_where (\<lambda>r. r_id r = r_id x) (retry_row c now clk) (st_jobs s)\<rparr>"
  have u: "unique_ids ?s" using Cons.prems(2) by (simp add: map_upd_where_same)
  have L: "r \<in> set (st_jobs ?s) \<and> r_status r = ''Failed'' \<and> row_ok c r" if "r \<in> set L" for r
  proof -
    from that Cons.prems(1) have "r_id r \<noteq> r_id x" by (auto simp: image_iff)
    with that Cons.prems(3) [of r] show ?thesis by (simp add: in_upd_where_miss)
  qed
  have IH: "promote_retries_loop c now clk (map (\<lambda>r. (r_id r, r_payload r, r_attempt_count r)) L) acc' ?s
    = (Inr (acc' @ map r_id (filter (\<lambda>r. \<not> exhausted c r) L)),
       ?s\<lparr>st_jobs := upd_where (\<lambda>r. r \<in> set L) (retry_row c now clk) (st_jobs ?s)\<rparr>)" for acc'
    using Cons.prems(1) by (intro Cons.IH u L) simp_all
  have both: "upd_where (\<lambda>r. r \<in> set L) (retry_row c now clk) (st_jobs ?s)
    = upd_where (\<lambda>r. r \<in> set (x # L)) (retry_row c now clk) (st_jobs s)"
  proof -
    have "r = x \<longleftrightarrow> r_id r = r_id x" if "r \<in> set (st_jobs s)" for r
      using that x(1) Cons.prems(2) by (auto dest: distinct_key_eq)
    moreover have "retry_row c now clk x \<notin> set L"
      using Cons.prems(1) by (auto simp: image_iff)
    ultimately show ?thesis by (auto simp: upd_where_def)
  qed
  show ?case
  proof (cases "exhausted c x")
    case True
    let ?m = "max_retries_message (word_of_int (r_attempt_count x)) (rt_max (jr_retry a))"
    have "upd_where (\<lambda>r. r_id r = r_id x) (dlq_row c (clk (r_id x)) ?m) (st_jobs s) = st_jobs ?s"
      using True a(1)
      by (simp, intro upd_where_key_cong [OF Cons.prems(2) x(1)]) (simp_all add: retry_row_def)
    then have "fail_dlq c (fst (clk (r_id x))) (snd (clk (r_id x))) (r_id x) ?m s = (Inr (), ?s)"
      by (simp add: fail_dlq_eq [OF assms(1) Cons.prems(2) x(1) a(1)])
    moreover have "rt_max (jr_retry a) \<le> word_of_int (r_attempt_count x)"
      using True a(1) by (simp add: exhausted_def)
    ultimately have step: "promote_retries_loop c now clk
        (map (\<lambda>r. (r_id r, r_payload r, r_attempt_count r)) (x # L)) acc s
      = promote_retries_loop c now clk (map (\<lambda>r. (r_id r, r_payload r, r_attempt_count r)) L) acc ?s"
      by (simp add: a(2,3))
    show ?thesis
      unfolding step IH both using True by simp
  next
    case False
    have "upd_where (\<lambda>r. r_id r = r_id x \<and> r_status r = ''Failed'')
        (\<lambda>r. r\<lparr>r_status := ''Pending'', r_scheduled_at := now\<rparr>) (st_jobs s) = st_jobs ?s"
      using False x(2)
      by (simp, intro trans [OF upd_where_key_only [OF Cons.prems(2) x(1)]
            upd_where_key_cong [OF Cons.prems(2) x(1)]]) (simp_all add: retry_row_def)
    moreover have "\<not> rt_max (jr_retry a) \<le> word_of_int (r_attempt_count x)"
      using False a(1) by (simp add: exhausted_def)
    ultimately have step: "promote_retries_loop c now clk
        (map (\<lambda>r. (r_id r, r_payload r, r_attempt_count r)) (x # L)) acc s
      = promote_retries_loop c now clk (map (\<lambda>r. (r_id r, r_payload r, r_attempt_count r)) L)
          (acc @ [r_id x]) ?s"
      by (simp add: a(2,3) Let_def)
    show ?thesis
      unfolding step IH both using False by simp
  qed
qed

end
