(* ===== verification/Queue_Claims.thy ===== *)
theory Queue_Claims
  imports Queue_Behaviour
begin

text \<open>
  The functional properties of the queue operations, with the errors of every branch, stated on
  well-formed stores.
\<close>

subsection \<open>Dequeue\<close>

text \<open>C35: a dequeue always succeeds on a well-formed store.  It returns nothing, and changes nothing,
  exactly when no pending row of the tenant is due; otherwise it returns the record of a due row of
  the highest priority and, among those, the earliest schedule, marks that row running with one more
  attempt and a lease of 300 seconds, and leaves every other row alone.\<close>

theorem dequeue_highest_priority_first:
  assumes "store_ok c s"
  shows "(\<forall>r\<in>set (st_jobs s). \<not> due now tf r) \<and> dequeue c now now2 tf s = (Inr None, s)
    \<or> (\<exists>r\<in>set (st_jobs s). \<exists>a. due now tf r
        \<and> (\<forall>r'\<in>set (st_jobs s). due now tf r' \<longrightarrow>
             r_priority r' < r_priority r
             \<or> r_priority r' = r_priority r \<and> r_scheduled_at r \<le> r_scheduled_at r')
        \<and> from_json c (r_payload r) = Inr a \<and> jr_id a = r_id r
        \<and> dequeue c now now2 tf s
          = (Inr (Some (set_status Running a)),
             s\<lparr>st_jobs := map (\<lambda>x. if r_id x = r_id r
                 then x\<lparr>r_status := ''Running'', r_lease_until := Some (now2 + secs 300),
                        r_started_at := Some now, r_attempt_count := r_attempt_count x + 1\<rparr>
                 else x) (st_jobs s)\<rparr>))"
proof (rule dequeue_cases [OF assms, of now now2 tf])
  fix r0 a
  assume r0: "r0 \<in> set (st_jobs s)" "due now tf r0"
    and best: "\<And>r. r \<in> set (st_jobs s) \<Longrightarrow> due now tf r \<Longrightarrow>
         (- r_priority r0, r_scheduled_at r0) \<le> (- r_priority r, r_scheduled_at r)"
    and a: "from_json c (r_payload r0) = Inr a" "payload_matches a r0"
    and eq: "dequeue c now now2 tf s = (Inr (Some (set_status Running a)),
          s\<lparr>st_jobs := upd_where (\<lambda>x. r_id x = r_id r0) (lease_row (now2 + secs 300) now) (st_jobs s)\<rparr>)"
  have "r_priority r' < r_priority r0
      \<or> r_priority r' = r_priority r0 \<and> r_scheduled_at r0 \<le> r_scheduled_at r'"
    if "r' \<in> set (st_jobs s)" "due now tf r'" for r'
    using best [OF that] by (auto simp: less_eq_prod_def)
  moreover have "jr_id a = r_id r0" using a(2) by (simp add: payload_matches_def)
  moreover note eq [unfolded upd_where_def lease_row_def]
  ultimately show ?thesis using r0 a(1) by blast
qed simp

theorem dequeue_highest_priority_first_witness:
  "\<exists>(r :: job_record row) a. dequeue plain_codec 5 6 None busy_store = (Inr (Some (set_status Running a)),
     busy_store\<lparr>st_jobs := map (\<lambda>x. if r_id x = r_id r
                 then x\<lparr>r_status := ''Running'', r_lease_until := Some (6 + secs 300),
                        r_started_at := Some 5, r_attempt_count := r_attempt_count x + 1\<rparr>
                 else x) (st_jobs busy_store)\<rparr>)"
proof -
  have "\<exists>r\<in>set (st_jobs busy_store). due 5 None r"
    by (simp add: due_def busy_store_jobs)
  then show ?thesis
    using dequeue_highest_priority_first [OF busy_store_ok, of 5 None 6] by blast
qed

text \<open>C15: tenants are isolated.  A dequeue or a cancellation on behalf of tenant \<open>t\<close> leaves every row of
  the other tenants untouched, and the job that a dequeue hands out belongs to tenant \<open>t\<close>.\<close>

theorem tenant_isolation:
  assumes "store_ok c s"
  shows "let others = filter (\<lambda>r. r_tenant_id r \<noteq> t) in
      others (st_jobs (snd (dequeue c n n2 (Some t) s))) = others (st_jobs s)
    \<and> others (st_jobs (snd (dequeue_by_kind c n n2 k (Some t) s))) = others (st_jobs s)
    \<and> others (st_jobs (snd (cancel c n i (Some t) s))) = others (st_jobs s)
    \<and> (\<forall>a. fst (dequeue c n n2 (Some t) s) = Inr (Some a) \<longrightarrow> spec_tenant (jr_spec a) = t)
    \<and> (\<forall>a. fst (dequeue_by_kind c n n2 k (Some t) s) = Inr (Some a) \<longrightarrow> spec_tenant (jr_spec a) = t)"
proof -
  let ?oth = "filter (\<lambda>r. r_tenant_id r \<noteq> t)"
  have lease: "?oth (upd_where (\<lambda>x. r_id x = r_id r0) (lease_row l n) (st_jobs s)) = ?oth (st_jobs s)"
    if "r0 \<in> set (st_jobs s)" "r_tenant_id r0 = t" for r0 l
    using that store_okD(1) [OF assms] by (intro filter_upd_where_out) (auto dest: distinct_key_eq)
  have tenant: "spec_tenant (jr_spec a) = t"
    if "payload_matches a r0" "r_tenant_id r0 = t" "r_status r0 = ''Pending''" for a and r0 :: "'a row"
    using that by (auto simp: payload_matches_def TERMINAL_SQL_def split: if_splits)
  have "?oth (st_jobs (snd (dequeue c n n2 (Some t) s))) = ?oth (st_jobs s)
      \<and> (\<forall>a. fst (dequeue c n n2 (Some t) s) = Inr (Some a) \<longrightarrow> spec_tenant (jr_spec a) = t)"
    by (rule dequeue_cases [OF assms, of n n2 "Some t"]) (simp_all add: lease tenant due_def)
  moreover have "?oth (st_jobs (snd (dequeue_by_kind c n n2 k (Some t) s))) = ?oth (st_jobs s)
      \<and> (\<forall>a. fst (dequeue_by_kind c n n2 k (Some t) s) = Inr (Some a) \<longrightarrow> spec_tenant (jr_spec a) = t)"
    by (rule dequeue_by_kind_cases [OF assms, of n n2 k "Some t"]) (simp_all add: lease tenant due_def)
  moreover have "?oth (st_jobs (snd (cancel c n i (Some t) s))) = ?oth (st_jobs s)"
    by (auto simp: cancel_def Let_def intro!: filter_upd_where_out split: option.split sum.split)
  ultimately show ?thesis by (simp add: Let_def)
qed

theorem tenant_isolation_witness:
  "filter (\<lambda>r. r_tenant_id r \<noteq> ''other'') (st_jobs (snd (dequeue plain_codec 5 6 (Some ''other'') busy_store)))
   = filter (\<lambda>r. r_tenant_id r \<noteq> ''other'') (st_jobs busy_store)"
  using tenant_isolation [OF busy_store_ok, of "''other''" 5 6] by (simp add: Let_def)

text \<open>message deliveries are never leased by kind: whatever the store, a dequeue by kind of
  messages returns nothing and changes nothing, and a dequeue of any other kind hands out only jobs of
  exactly that kind.\<close>

theorem dequeue_by_kind_respects_kind:
  assumes "store_ok c s"
  shows "dequeue_by_kind c n n2 JOB_KIND_MESSAGE tf s = (Inr None, s)
    \<and> (\<forall>k a. fst (dequeue_by_kind c n n2 k tf s) = Inr (Some a) \<longrightarrow> job_kind_str (js_kind (jr_spec a)) = k)"
proof -
  have "job_kind_str (js_kind (jr_spec a)) = k"
    if got: "fst (dequeue_by_kind c n n2 k tf s) = Inr (Some a)" for k a
    by (rule dequeue_by_kind_cases [OF assms, of n n2 k tf])
      (use got in \<open>auto simp: due_def payload_matches_def TERMINAL_SQL_def split: if_splits\<close>)
  then show ?thesis by (simp add: dequeue_by_kind_def)
qed

theorem dequeue_by_kind_respects_kind_witness:
  "dequeue_by_kind plain_codec 5 6 JOB_KIND_MESSAGE None busy_store = (Inr None, busy_store)"
  using dequeue_by_kind_respects_kind [OF busy_store_ok, of 5 6 None] by simp

subsection \<open>Ends of an attempt\<close>

lemma running_record:
  assumes "store_ok c s" "r \<in> set (st_jobs s)" "r_status r = ''Running''"
  obtains a where "from_json c (r_payload r) = Inr a" "deserialize_record c (r_payload r) = Inr a"
    "payload_matches a r" "lc_status (jr_lifecycle a) \<noteq> Conflict"
  using store_okD(2) [OF assms(1,2)]
  by (rule row_okE) (use assms(3) that in \<open>auto simp: payload_matches_def TERMINAL_SQL_def\<close>)

lemma running_affected:
  assumes "unique_ids s" "r \<in> set (st_jobs s)" "r_status r = ''Running''"
  shows "rows_affected (\<lambda>x. r_id x = r_id r \<and> r_status x = ''Running'' \<and> lease_live now x) (st_jobs s) = 0
     \<longleftrightarrow> \<not> lease_live now r"
  using assms by (auto simp: rows_affected_0_iff dest: distinct_key_eq)

lemma cascade_keeps_events [simp]: "st_events (snd (cascade_check_and_promote c i s)) = st_events s"
proof -
  have "st_events (promote_dependents deps s) = st_events s" for deps
    by (induction deps s rule: promote_dependents.induct) simp_all
  then show ?thesis by (simp add: cascade_check_and_promote_def split: sum.split)
qed

lemma complete_live:
  assumes "codec_ok c" "store_ok c s" "r \<in> set (st_jobs s)" "r_status r = ''Running''" "lease_live now r"
  obtains a p where "from_json c (r_payload r) = Inr a"
    "from_json c p = Inr (set_result (Some res) (set_completed_at (Some now2) (set_status Done a)))"
    "complete c now now2 (r_id r) res s
     = (Inr (), snd (cascade_check_and_promote c (r_id r)
         (publish (JobCompleted (r_id r) (if re_success res then Done else Failed) res)
           (s\<lparr>st_jobs := upd_where (\<lambda>x. r_id x = r_id r \<and> r_status x = ''Running'' \<and> lease_live now x)
               (\<lambda>x. x\<lparr>r_status := ''Done'', r_completed_at := Some now, r_lease_until := None,
                      r_payload := p\<rparr>) (st_jobs s)\<rparr>))))"
proof -
  obtain a where a: "from_json c (r_payload r) = Inr a" "deserialize_record c (r_payload r) = Inr a"
    "lc_status (jr_lifecycle a) \<noteq> Conflict"
    using running_record [OF assms(2-4)] .
  obtain p where p: "serialize_record c (set_result (Some res) (set_completed_at (Some now2) (set_status Done a))) = Inr p"
    "deserialize_record c p = Inr (set_result (Some res) (set_completed_at (Some now2) (set_status Done a)))"
    by (rule codec_ok_serialize [OF assms(1)])
  note u = store_okD(1) [OF assms(2)]
  from that [OF a(1) p(2) [unfolded deserialize_Inr]] show ?thesis
    using a p(1) assms(5)
    by (simp add: complete_def find_id_status [OF u assms(3), of "\<lambda>r. r_status r = ''Running''", OF assms(4)]
        running_affected [OF u assms(3,4)] Let_def)
qed

text \<open>completing a job has three outcomes.  Without a running row of that id it reports that the job
  is unknown; with an expired lease it refuses; both leave the store as it was.  With a live lease it
  succeeds: the row is done and carries no lease, its record is done with the worker's result, and one
  completion event is published.\<close>

theorem complete_outcomes:
  assumes "codec_ok c" "store_ok c s"
  shows "((\<forall>r\<in>set (st_jobs s). r_id r = i \<longrightarrow> r_status r \<noteq> ''Running'') \<longrightarrow>
          complete c now now2 i res s = (Inl (NotFound i), s))
    \<and> (\<forall>r\<in>set (st_jobs s). r_id r = i \<and> r_status r = ''Running'' \<and> \<not> lease_live now r \<longrightarrow>
          complete c now now2 i res s = (Inl (NotLeased i), s))
    \<and> (\<forall>r\<in>set (st_jobs s). r_id r = i \<and> r_status r = ''Running'' \<and> lease_live now r \<longrightarrow>
          fst (complete c now now2 i res s) = Inr ()
          \<and> st_events (snd (complete c now now2 i res s))
            = st_events s @ [JobCompleted i (if re_success res then Done else Failed) res]
          \<and> (\<exists>r'\<in>set (st_jobs (snd (complete c now now2 i res s))). \<exists>a.
               r_id r' = i \<and> r_status r' = ''Done'' \<and> r_completed_at r' = Some now
               \<and> r_lease_until r' = None \<and> from_json c (r_payload r') = Inr a
               \<and> lc_status (jr_lifecycle a) = Done \<and> lc_result (jr_lifecycle a) = Some res))"
proof (intro conjI impI ballI)
  note u = store_okD(1) [OF assms(2)]
  show "complete c now now2 i res s = (Inl (NotFound i), s)"
    if "\<forall>r\<in>set (st_jobs s). r_id r = i \<longrightarrow> r_status r \<noteq> ''Running''"
  proof -
    have "List.find (\<lambda>r. r_id r = i \<and> r_status r = ''Running'') (st_jobs s) = None"
      using that by (simp add: find_None_iff)
    then show ?thesis by (simp add: complete_def)
  qed
  fix r assume r: "r \<in> set (st_jobs s)"
  {
    assume "r_id r = i \<and> r_status r = ''Running'' \<and> \<not> lease_live now r"
    then have i: "i = r_id r" and st: "r_status r = ''Running''" and l: "\<not> lease_live now r" by simp_all
    obtain a where a: "deserialize_record c (r_payload r) = Inr a" "lc_status (jr_lifecycle a) \<noteq> Conflict"
      using running_record [OF assms(2) r st] .
    obtain p where "serialize_record c (set_result (Some res) (set_completed_at (Some now2) (set_status Done a))) = Inr p"
      by (rule codec_ok_serialize [OF assms(1)])
    with a l show "complete c now now2 i res s = (Inl (NotLeased i), s)"
      by (simp add: i complete_def find_id_status [OF u r, of "\<lambda>r. r_status r = ''Running''", OF st]
          running_affected [OF u r st] Let_def)
  next
    assume "r_id r = i \<and> r_status r = ''Running'' \<and> lease_live now r"
    then have i: "i = r_id r" and st: "r_status r = ''Running''" and l: "lease_live now r" by simp_all
    obtain a p where p: "from_json c p = Inr (set_result (Some res) (set_completed_at (Some now2) (set_status Done a)))"
      and eq: "complete c now now2 i res s
     = (Inr (), snd (cascade_check_and_promote c i
         (publish (JobCompleted i (if re_success res then Done else Failed) res)
           (s\<lparr>st_jobs := upd_where (\<lambda>x. r_id x = i \<and> r_status x = ''Running'' \<and> lease_live now x)
               (\<lambda>x. x\<lparr>r_status := ''Done'', r_completed_at := Some now, r_lease_until := None,
                      r_payload := p\<rparr>) (st_jobs s)\<rparr>))))"
      unfolding i by (rule complete_live [OF assms r st l])
    have mem: "r\<lparr>r_status := ''Done'', r_completed_at := Some now, r_lease_until := None, r_payload := p\<rparr>
        \<in> set (st_jobs (snd (complete c now now2 i res s)))"
      unfolding eq snd_conv using r st l i
      by (intro cascade_keep) (auto intro!: upd_where_at [of r _ _ "\<lambda>x. x\<lparr>r_status := ''Done'',
          r_completed_at := Some now, r_lease_until := None, r_payload := p\<rparr>", simplified])
    show "fst (complete c now now2 i res s) = Inr ()"
      "st_events (snd (complete c now now2 i res s))
       = st_events s @ [JobCompleted i (if re_success res then Done else Failed) res]"
      by (simp_all add: eq publish_def)
    show "\<exists>r'\<in>set (st_jobs (snd (complete c now now2 i res s))). \<exists>a.
               r_id r' = i \<and> r_status r' = ''Done'' \<and> r_completed_at r' = Some now
               \<and> r_lease_until r' = None \<and> from_json c (r_payload r') = Inr a
               \<and> lc_status (jr_lifecycle a) = Done \<and> lc_result (jr_lifecycle a) = Some res"
      by (rule bexI [OF _ mem]) (simp add: p i)
  }
qed

theorem complete_outcomes_witness:
  "fst (complete plain_codec 5 6 1 sample_result busy_store) = Inr ()
   \<and> complete plain_codec (secs 400) 6 1 sample_result busy_store = (Inl (NotLeased 1), busy_store)
   \<and> complete plain_codec 5 6 2 sample_result busy_store = (Inl (NotFound 2), busy_store)"
  using complete_outcomes [OF plain_codec_ok busy_store_ok, of 1 5 6 sample_result]
    complete_outcomes [OF plain_codec_ok busy_store_ok, of 1 "secs 400" 6 sample_result]
    complete_outcomes [OF plain_codec_ok busy_store_ok, of 2 5 6 sample_result]
  by (simp add: busy_store_jobs lease_live_def secs_def)

lemma fail_running:
  assumes "codec_ok c" "store_ok c s" "r \<in> set (st_jobs s)" "r_status r = ''Running''"
  obtains a p where "from_json c (r_payload r) = Inr a"
    "from_json c p = Inr (fail_record (take_chars 2048 err) n now2 a)"
    "fail c now now2 (r_id r) err n s = (if \<not> lease_live now r then (Inl (NotLeased (r_id r)), s)
       else (Inr (), publish (JobFailed (r_id r) n) (s\<lparr>st_jobs := upd_where
              (\<lambda>x. r_id x = r_id r \<and> r_status x = ''Running'' \<and> lease_live now x)
              (\<lambda>x. x\<lparr>r_status := ''Failed'', r_lease_until := None,
                     r_last_error := Some (take_chars 2048 err),
                     r_attempt_count := uint n, r_payload := p\<rparr>) (st_jobs s)\<rparr>)))"
proof -
  note u = store_okD(1) [OF assms(2)]
  obtain a where a: "from_json c (r_payload r) = Inr a" "deserialize_record c (r_payload r) = Inr a"
    using running_record [OF assms(2-4)] .
  obtain p where p: "serialize_record c (fail_record (take_chars 2048 err) n now2 a) = Inr p"
    "deserialize_record c p = Inr (fail_record (take_chars 2048 err) n now2 a)"
    by (rule codec_ok_serialize [OF assms(1)])
  from that [OF a(1) p(2) [unfolded deserialize_Inr]] show ?thesis
    using a p(1)
    by (simp add: fail_def find_id_status [OF u assms(3), of "\<lambda>r. r_status r = ''Running''", OF assms(4)]
        running_affected [OF u assms(3,4)] Let_def)
qed

text \<open>failing a job has the same three outcomes.  With a live lease the row is failed without a
  lease, its attempt counter is the one the worker reports, the error kept on the row and appended to
  the error history of the record is the message cut to 2048 characters, and one failure event is
  published.\<close>

theorem fail_outcomes:
  assumes "codec_ok c" "store_ok c s"
  shows "((\<forall>r\<in>set (st_jobs s). r_id r = i \<longrightarrow> r_status r \<noteq> ''Running'') \<longrightarrow>
          fail c now now2 i err n s = (Inl (NotFound i), s))
    \<and> (\<forall>r\<in>set (st_jobs s). r_id r = i \<and> r_status r = ''Running'' \<and> \<not> lease_live now r \<longrightarrow>
          fail c now now2 i err n s = (Inl (NotLeased i), s))
    \<and> (\<forall>r\<in>set (st_jobs s). r_id r = i \<and> r_status r = ''Running'' \<and> lease_live now r \<longrightarrow>
          fst (fail c now now2 i err n s) = Inr ()
          \<and> st_events (snd (fail c now now2 i err n s)) = st_events s @ [JobFailed i n]
          \<and> (\<exists>r'\<in>set (st_jobs (snd (fail c now now2 i err n s))). \<exists>a b.
               r_id r' = i \<and> r_status r' = ''Failed'' \<and> r_lease_until r' = None
               \<and> r_attempt_count r' = uint n \<and> r_last_error r' = Some (take_chars 2048 err)
               \<and> from_json c (r_payload r) = Inr a \<and> from_json c (r_payload r') = Inr b
               \<and> lc_status (jr_lifecycle b) = Failed
               \<and> rt_errors (jr_retry b) = rt_errors (jr_retry a)
                   @ [\<lparr>er_at = now2, er_message = take_chars 2048 err, er_attempt = n\<rparr>]))"
proof (intro conjI impI ballI)
  note u = store_okD(1) [OF assms(2)]
  show "fail c now now2 i err n s = (Inl (NotFound i), s)"
    if "\<forall>r\<in>set (st_jobs s). r_id r = i \<longrightarrow> r_status r \<noteq> ''Running''"
  proof -
    have "List.find (\<lambda>r. r_id r = i \<and> r_status r = ''Running'') (st_jobs s) = None"
      using that by (simp add: find_None_iff)
    then show ?thesis by (simp add: fail_def)
  qed
  fix r assume r: "r \<in> set (st_jobs s)"
  let ?P = "\<lambda>x. r_id x = i \<and> r_status x = ''Running'' \<and> lease_live now x"
  have found: "\<exists>a p. from_json c (r_payload r) = Inr a
      \<and> from_json c p = Inr (fail_record (take_chars 2048 err) n now2 a)
      \<and> fail c now now2 i err n s = (if \<not> lease_live now r then (Inl (NotLeased i), s)
          else (Inr (), publish (JobFailed i n) (s\<lparr>st_jobs := upd_where ?P
                 (\<lambda>x. x\<lparr>r_status := ''Failed'', r_lease_until := None,
                        r_last_error := Some (take_chars 2048 err),
                        r_attempt_count := uint n, r_payload := p\<rparr>) (st_jobs s)\<rparr>)))"
    if "i = r_id r" "r_status r = ''Running''"
    unfolding that(1) by (rule fail_running [OF assms r that(2)]) blast
  {
    assume "r_id r = i \<and> r_status r = ''Running'' \<and> \<not> lease_live now r"
    with found show "fail c now now2 i err n s = (Inl (NotLeased i), s)" by auto
  next
    assume l: "r_id r = i \<and> r_status r = ''Running'' \<and> lease_live now r"
    with found obtain a p where a: "from_json c (r_payload r) = Inr a"
      and p: "from_json c p = Inr (fail_record (take_chars 2048 err) n now2 a)"
      and eq: "fail c now now2 i err n s = (Inr (), publish (JobFailed i n) (s\<lparr>st_jobs := upd_where ?P
                 (\<lambda>x. x\<lparr>r_status := ''Failed'', r_lease_until := None,
                        r_last_error := Some (take_chars 2048 err),
                        r_attempt_count := uint n, r_payload := p\<rparr>) (st_jobs s)\<rparr>))"
      by auto
    show "fst (fail c now now2 i err n s) = Inr ()"
      "st_events (snd (fail c now now2 i err n s)) = st_events s @ [JobFailed i n]"
      by (simp_all add: eq publish_def)
    have mem: "r\<lparr>r_status := ''Failed'', r_lease_until := None, r_last_error := Some (take_chars 2048 err),
        r_attempt_count := uint n, r_payload := p\<rparr> \<in> set (st_jobs (snd (fail c now now2 i err n s)))"
      using upd_where_at [OF r, of ?P] l by (simp add: eq)
    show "\<exists>r'\<in>set (st_jobs (snd (fail c now now2 i err n s))). \<exists>a b.
               r_id r' = i \<and> r_status r' = ''Failed'' \<and> r_lease_until r' = None
               \<and> r_attempt_count r' = uint n \<and> r_last_error r' = Some (take_chars 2048 err)
               \<and> from_json c (r_payload r) = Inr a \<and> from_json c (r_payload r') = Inr b
               \<and> lc_status (jr_lifecycle b) = Failed
               \<and> rt_errors (jr_retry b) = rt_errors (jr_retry a)
                   @ [\<lparr>er_at = now2, er_message = take_chars 2048 err, er_attempt = n\<rparr>]"
      by (rule bexI [OF _ mem]) (use l a p in \<open>simp add: fail_record_def Let_def\<close>)
  }
qed

theorem fail_outcomes_witness:
  "fst (fail plain_codec 5 6 1 ''boom'' 1 busy_store) = Inr ()
   \<and> fail plain_codec (secs 400) 6 1 ''boom'' 1 busy_store = (Inl (NotLeased 1), busy_store)"
  using fail_outcomes [OF plain_codec_ok busy_store_ok, of 1 5 6 "''boom''" 1]
    fail_outcomes [OF plain_codec_ok busy_store_ok, of 1 "secs 400" 6 "''boom''" 1]
  by (simp add: busy_store_jobs lease_live_def secs_def)

subsection \<open>Retries\<close>

lemma promote_retries_eq:
  assumes "codec_ok c" "store_ok c s"
  shows "promote_retries c now clk s
    = (Inr (map r_id (filter (\<lambda>r. (r_status r = ''Failed'' \<and> r_scheduled_at r \<le> now) \<and> \<not> exhausted c r) (st_jobs s))),
       s\<lparr>st_jobs := upd_where (\<lambda>r. r_status r = ''Failed'' \<and> r_scheduled_at r \<le> now) (retry_row c now clk) (st_jobs s)\<rparr>)"
proof -
  let ?F = "\<lambda>r :: 'a row. r_status r = ''Failed'' \<and> r_scheduled_at r \<le> now"
  have "promote_retries c now clk s
    = (Inr ([] @ map r_id (filter (\<lambda>r. \<not> exhausted c r) (filter ?F (st_jobs s)))),
       s\<lparr>st_jobs := upd_where (\<lambda>r. r \<in> set (filter ?F (st_jobs s))) (retry_row c now clk) (st_jobs s)\<rparr>)"
    unfolding promote_retries_def
    by (rule promote_retries_loop_eq [OF assms(1) _ store_okD(1) [OF assms(2)]])
      (use store_okD [OF assms(2)] in \<open>auto intro: distinct_map_filter\<close>)
  then show ?thesis
    by (simp add: upd_where_def conj_commute cong: map_cong)
qed

text \<open>C31: the promotion of retries succeeds and treats every failed row that is due in one of two ways,
  decided by the attempts counted in the table against the maximum of the record: a row whose attempts
  are used up is dead-lettered, any other is pending again and due now.  The ids returned are exactly
  those of the rows made pending, and no other row changes.\<close>

theorem promote_retries_exact:
  assumes "codec_ok c" "store_ok c s"
  shows "let failed_due = (\<lambda>r. r_status r = ''Failed'' \<and> r_scheduled_at r \<le> now) in
    promote_retries c now clk s
    = (Inr (map r_id (filter (\<lambda>r. failed_due r \<and> \<not> exhausted c r) (st_jobs s))),
       s\<lparr>st_jobs := map (\<lambda>r. if failed_due r then retry_row c now clk r else r) (st_jobs s)\<rparr>)"
  unfolding promote_retries_eq [OF assms] by (simp add: upd_where_def)

text \<open>Job 1 has failed once, job 2 three times; both allow three attempts.\<close>

definition failed_row :: "ulid \<Rightarrow> int \<Rightarrow> job_record row" where
  "failed_row i n = (leased_row i JobBackup 1)\<lparr>r_status := ''Failed'', r_lease_until := None,
     r_last_error := Some ''boom'', r_attempt_count := n,
     r_payload := set_status Failed (sample_job i Pending JobBackup [])\<rparr>"

definition failed_store :: "job_record store" where
  "failed_store = sample_store [failed_row 1 1, failed_row 2 3]"

lemma failed_store_ok: "store_ok plain_codec failed_store"
proof -
  have "row_ok plain_codec (failed_row i n)" if "0 \<le> n" for i n
    unfolding failed_row_def
    by (rule row_ok_step [OF plain_codec_ok rs_fail [where now = 0] row_ok_leased])
      (use that in \<open>simp_all add: lease_live_def payload_upd_def\<close>)
  then show ?thesis
    by (simp add: store_ok_def failed_store_def) (simp add: failed_row_def)
qed

theorem promote_retries_exact_witness:
  "fst (promote_retries plain_codec 9 (\<lambda>_. (9, 9)) failed_store) = Inr [1]
   \<and> map r_status (st_jobs (snd (promote_retries plain_codec 9 (\<lambda>_. (9, 9)) failed_store)))
     = [''Pending'', ''DLQ'']"
proof -
  have "exhausted plain_codec (failed_row 2 3)" "\<not> exhausted plain_codec (failed_row 1 1)"
    by (simp_all add: exhausted_def failed_row_def job_retry_default_def word_le_nat_alt)
  then show ?thesis
    using promote_retries_exact [OF plain_codec_ok failed_store_ok, of 9 "\<lambda>_. (9, 9)"]
    by (simp add: failed_store_def retry_row_def)
      (simp add: failed_row_def leased_row_def lease_row_def)
qed

subsection \<open>Chaining\<close>



text \<open>the sweep over stranded jobs succeeds and leaves nobody behind: afterwards no row still waits
  on a non-empty set of distinct dependencies that are all done.\<close>

theorem sweep_leaves_no_ready_job_waiting:
  assumes "store_ok c s" "r \<in> set (st_jobs (snd (promote_stranded_waiting_jobs c s)))"
    and "r_status r = ''Waiting''" "r_await_jobs r = Some ids" "distinct ids" "ids \<noteq> []"
  shows "(\<exists>n. fst (promote_stranded_waiting_jobs c s) = Inr n)
    \<and> (\<exists>j\<in>set ids. \<forall>x\<in>set (st_jobs (snd (promote_stranded_waiting_jobs c s))).
         r_id x = j \<longrightarrow> r_status x \<noteq> ''Done'')"
proof -
  let ?P = "\<lambda>r :: 'a row. r_status r = ''Waiting'' \<and> (\<exists>ids. r_await_jobs r = Some ids \<and> ids \<noteq> [] \<and> all_jobs_done ids s)"
  let ?f = "\<lambda>r :: 'a row. r\<lparr>r_status := ''Pending''\<rparr>"
  have eq: "st_jobs (snd (promote_stranded_waiting_jobs c s)) = upd_where ?P ?f (st_jobs s)"
    by (simp add: promote_stranded_eq(1) [OF assms(1)])
  have "\<not> ?P r"
    using assms(2,3) unfolding eq by (auto elim!: in_upd_whereE)
  then have "\<not> all_jobs_done ids s" using assms(3,4,6) by auto
  then obtain j where "j \<in> set ids" "\<forall>x\<in>set (st_jobs s). r_id x = j \<longrightarrow> r_status x \<noteq> ''Done''"
    using all_jobs_done_distinct [OF store_okD(1) [OF assms(1)] assms(5)] by blast
  then have "\<forall>x\<in>set (st_jobs (snd (promote_stranded_waiting_jobs c s))). r_id x = j \<longrightarrow> r_status x \<noteq> ''Done''"
    unfolding eq by (auto elim!: in_upd_whereE)
  with \<open>j \<in> set ids\<close> promote_stranded_eq(2) [OF assms(1)] show ?thesis by blast
qed

theorem sweep_leaves_no_ready_job_waiting_witness:
  "filter (\<lambda>x. r_id x = 1 \<and> r_status x = ''Done'')
     (st_jobs (snd (promote_stranded_waiting_jobs plain_codec busy_store))) = []"
proof -
  have "sample_row 3 Waiting JobReview [1] \<in> set (st_jobs (snd (promote_stranded_waiting_jobs plain_codec busy_store)))"
    by (simp add: promote_stranded_waiting_jobs_def busy_store_jobs await_column_def all_jobs_done_def
        rows_affected_def)
  then show ?thesis
    using sweep_leaves_no_ready_job_waiting [OF busy_store_ok, of "sample_row 3 Waiting JobReview [1]" "[1]"]
    by (simp add: await_column_def filter_empty_conv)
qed

lemma all_jobs_done_duplicates:
  assumes "unique_ids s" "\<not> distinct ids"
  shows "\<not> all_jobs_done ids s"
proof -
  let ?D = "filter (\<lambda>r. r_id r \<in> set ids \<and> r_status r = ''Done'') (st_jobs s)"
  have "length ?D = card (r_id ` set ?D)"
    using distinct_card [OF distinct_map_filter [OF assms(1)]] by simp
  also have "\<dots> \<le> card (set ids)"
    by (rule card_mono) auto
  also have "\<dots> < length ids"
    using assms(2) card_length [of ids] card_distinct [of ids] by (auto simp: order.order_iff_strict)
  finally show ?thesis
    using assms(2) by (auto simp: all_jobs_done_def rows_affected_def)
qed

text \<open>C36: a waiting job that names a dependency twice is never released, neither by a completion nor by
  the sweep over stranded jobs, even when all its dependencies are done: the number of done rows is
  compared with the length of the list, repetitions included.\<close>

theorem repeated_dependency_never_released:
  assumes "store_ok c s" "r \<in> set (st_jobs s)" "r_status r = ''Waiting''"
    and "r_await_jobs r = Some ids" "\<not> distinct ids"
  shows "r \<in> set (st_jobs (snd (cascade_check_and_promote c i s)))
    \<and> r \<in> set (st_jobs (snd (promote_stranded_waiting_jobs c s)))"
  using all_jobs_done_duplicates [OF store_okD(1) [OF assms(1)] assms(5)] assms(2,4)
  by (auto simp: cascade_eq [OF assms(1)] promote_stranded_eq(1) [OF assms(1)] intro!: in_upd_where_miss)

theorem repeated_dependency_never_released_witness:
  "let s = exec_op plain_codec (CompleteMessage 5 6 1 sample_result)
        (sample_store [sample_row 1 Pending (JobMessage \<lparr>md_message_id = 7, md_recipient = ''bob''\<rparr>) [],
                       sample_row 3 Waiting JobReview [1, 1]])
   in (\<exists>r\<in>set (st_jobs s). r_id r = 1 \<and> r_status r = ''Done'')
    \<and> sample_row 3 Waiting JobReview [1, 1] \<in> set (st_jobs (snd (promote_stranded_waiting_jobs plain_codec s)))"
proof -
  let ?s0 = "sample_store [sample_row 1 Pending (JobMessage \<lparr>md_message_id = 7, md_recipient = ''bob''\<rparr>) [],
     sample_row 3 Waiting JobReview [1, 1]]"
  let ?s = "exec_op plain_codec (CompleteMessage 5 6 1 sample_result) ?s0"
  have ok: "store_ok plain_codec ?s"
    by (rule store_ok_exec) (simp_all add: store_ok_def row_ok_sample)
  have rows: "sample_row 3 Waiting JobReview [1, 1] \<in> set (st_jobs ?s)"
    "\<exists>x\<in>set (st_jobs ?s). r_id x = 1 \<and> r_status x = ''Done''"
    by (simp_all add: complete_message_delivery_def rows_affected_def)
  have "sample_row 3 Waiting JobReview [1, 1] \<in> set (st_jobs (snd (promote_stranded_waiting_jobs plain_codec ?s)))"
    using repeated_dependency_never_released [OF ok rows(1), of "[1, 1]"]
    by (simp add: await_column_def del: exec_op.simps)
  with rows(2) show ?thesis unfolding Let_def by (rule conjI)
qed

text \<open>once a job has been marked as a conflict, completing it reports that the job is unknown and
  changes nothing: the row is no longer running, so the branch that would accept the completion silently
  is not reached.\<close>

theorem complete_after_conflict_not_found:
  assumes "fst (mark_conflict c t t2 i md d s) = Inr ()"
  shows "complete c now now2 i res (snd (mark_conflict c t t2 i md d s))
       = (Inl (NotFound i), snd (mark_conflict c t t2 i md d s))"
proof -
  let ?s = "snd (mark_conflict c t t2 i md d s)"
  obtain p where "st_jobs ?s = upd_where (\<lambda>r. r_id r = i)
      (\<lambda>r. r\<lparr>r_status := ''Conflict'', r_completed_at := Some t, r_lease_until := None,
             r_last_error := Some (take 256 md), r_payload := p\<rparr>) (st_jobs s)"
    using assms by (fastforce simp: mark_conflict_def split: option.splits sum.splits)
  then have "\<forall>r\<in>set (st_jobs ?s). r_id r = i \<longrightarrow> r_status r = ''Conflict''"
    by (simp add: ball_upd_where)
  then have "List.find (\<lambda>r. r_id r = i \<and> r_status r = ''Running'') (st_jobs ?s) = None"
    unfolding find_None_iff by fastforce
  then show ?thesis by (simp add: complete_def)
qed

theorem complete_after_conflict_not_found_witness:
  "fst (complete plain_codec 7 7 1 sample_result
     (snd (mark_conflict plain_codec 5 6 1 ''{}'' 3 busy_store))) = Inl (NotFound 1)"
proof -
  have "fst (mark_conflict plain_codec 5 6 1 ''{}'' 3 busy_store) = Inr ()"
    by (simp add: mark_conflict_def busy_store_jobs)
  from complete_after_conflict_not_found [OF this] show ?thesis by simp
qed

text \<open>a message delivery is acknowledged at most once: after a successful acknowledgement every
  further one for the same delivery reports that it is unknown and changes nothing.\<close>

theorem message_acknowledged_once:
  assumes "fst (complete_message_delivery c t t2 i res s) = Inr ()"
  shows "complete_message_delivery c now now2 i res' (snd (complete_message_delivery c t t2 i res s))
       = (Inl (NotFound i), snd (complete_message_delivery c t t2 i res s))"
proof -
  let ?s = "snd (complete_message_delivery c t t2 i res s)"
  let ?P = "\<lambda>r :: 'a row. r_id r = i \<and> r_kind r = JOB_KIND_MESSAGE \<and> r_status r = ''Pending''"
  obtain p where "st_jobs ?s = upd_where ?P
      (\<lambda>r. r\<lparr>r_status := ''Done'', r_completed_at := Some t, r_lease_until := None, r_payload := p\<rparr>) (st_jobs s)"
    using assms
    by (fastforce simp: complete_message_delivery_def Let_def split: option.splits sum.splits if_splits)
  then have "\<forall>r\<in>set (st_jobs ?s). \<not> ?P r"
    by (simp add: ball_upd_where)
  then have "List.find ?P (st_jobs ?s) = None"
    by (simp add: find_None_iff)
  moreover have "complete_message_delivery c now now2 i res' u = (Inl (NotFound i), u)"
    if "List.find ?P (st_jobs u) = None" for u
    using that by (simp add: complete_message_delivery_def)
  ultimately show ?thesis by blast
qed

theorem message_acknowledged_once_witness:
  "let s = sample_store [sample_row 1 Pending (JobMessage \<lparr>md_message_id = 7, md_recipient = ''bob''\<rparr>) []]
   in fst (complete_message_delivery plain_codec 8 9 1 sample_result
        (snd (complete_message_delivery plain_codec 5 6 1 sample_result s))) = Inl (NotFound 1)"
proof -
  let ?s = "sample_store [sample_row 1 Pending (JobMessage \<lparr>md_message_id = 7, md_recipient = ''bob''\<rparr>) []]"
  have "fst (complete_message_delivery plain_codec 5 6 1 sample_result ?s) = Inr ()"
    by (simp add: complete_message_delivery_def rows_affected_def)
  from message_acknowledged_once [OF this] show ?thesis by (simp add: Let_def)
qed

end
