(* ===== verification/Queue_Read.thy ===== *)
theory Queue_Read
  imports Queue_Claims
begin

text \<open>
  The read side of \<open>SqliteQueueStore\<close>: lookup of one job and of many, filtered lists with a cursor,
  and the counters.  \<open>get_many_default\<close> is the loop of the trait's default method in
  \<open>gradatum-core/src/job.rs\<close>; the interface \<open>job_reader\<close> states what that loop needs of \<open>get\<close>, and the
  store's own \<open>get_many\<close>, one query per chunk of ids, is shown to return the same.
\<close>

subsection \<open>Lookup\<close>

definition sql_record :: "job_record \<Rightarrow> 'p row \<Rightarrow> job_record" where
  "sql_record a r =
     apply_sql_authority a (r_status r) (r_attempt_count r) (r_last_error r) (r_completed_at r)"

definition get :: "'p codec \<Rightarrow> ulid \<Rightarrow> string option \<Rightarrow> 'p store \<Rightarrow> (queue_error, job_record option) result" where
  "get c i tenant_filter s =
     (case List.find (\<lambda>r. r_id r = i \<and> opt_eq tenant_filter (r_tenant_id r)) (st_jobs s) of
        None \<Rightarrow> Inr None
      | Some r \<Rightarrow>
          case deserialize_record c (r_payload r) of
            Inl e \<Rightarrow> Inl e
          | Inr a \<Rightarrow> Inr (Some (sql_record a r)))"

definition SQLITE_ID_BATCH :: nat where
  "SQLITE_ID_BATCH = 998"

text \<open>Rust's \<open>chunks\<close> of a slice.\<close>

fun chunks :: "nat \<Rightarrow> 'a list \<Rightarrow> 'a list list" where
  "chunks n xs = (if xs = [] \<or> n = 0 then [] else take n xs # chunks n (drop n xs))"

declare chunks.simps [simp del]

text \<open>The loop over the rows of one chunk, filling the hash map \<open>found\<close>.\<close>

fun fill_found ::
  "'p codec \<Rightarrow> 'p row list \<Rightarrow> (ulid \<rightharpoonup> job_record) \<Rightarrow> (queue_error, ulid \<rightharpoonup> job_record) result" where
  "fill_found c [] found = Inr found"
| "fill_found c (r # rows) found =
     (case deserialize_record c (r_payload r) of
        Inl e \<Rightarrow> Inl e
      | Inr a \<Rightarrow> fill_found c rows (found(jr_id (sql_record a r) \<mapsto> sql_record a r)))"

fun fill_chunks ::
  "'p codec \<Rightarrow> string option \<Rightarrow> 'p row list \<Rightarrow> ulid list list \<Rightarrow> (ulid \<rightharpoonup> job_record)
   \<Rightarrow> (queue_error, ulid \<rightharpoonup> job_record) result" where
  "fill_chunks c tenant_filter t [] found = Inr found"
| "fill_chunks c tenant_filter t (chunk # cs) found =
     (case fill_found c (filter (\<lambda>r. r_id r \<in> set chunk \<and> opt_eq tenant_filter (r_tenant_id r)) t) found of
        Inl e \<Rightarrow> Inl e
      | Inr found' \<Rightarrow> fill_chunks c tenant_filter t cs found')"

text \<open>\<open>ids.iter().filter_map(|id| found.remove(id))\<close>.\<close>

fun remove_found :: "ulid list \<Rightarrow> (ulid \<rightharpoonup> job_record) \<Rightarrow> job_record list" where
  "remove_found [] found = []"
| "remove_found (i # is) found =
     (case found i of
        None \<Rightarrow> remove_found is found
      | Some r \<Rightarrow> r # remove_found is (found(i := None)))"

definition get_many ::
  "'p codec \<Rightarrow> ulid list \<Rightarrow> string option \<Rightarrow> 'p store \<Rightarrow> (queue_error, job_record list) result" where
  "get_many c ids tenant_filter s =
     (if ids = [] then Inr []
      else case fill_chunks c tenant_filter (st_jobs s) (chunks SQLITE_ID_BATCH ids) Map.empty of
             Inl e \<Rightarrow> Inl e
           | Inr found \<Rightarrow> Inr (remove_found ids found))"

text \<open>The default method of the trait: one \<open>get\<close> per id that has not been seen.\<close>

fun get_many_default ::
  "(ulid \<Rightarrow> (queue_error, job_record option) result) \<Rightarrow> ulid list \<Rightarrow> ulid set \<Rightarrow> job_record list
   \<Rightarrow> (queue_error, job_record list) result" where
  "get_many_default getf [] seen records = Inr records"
| "get_many_default getf (i # is) seen records =
     (if i \<in> seen then get_many_default getf is seen records
      else case getf i of
             Inl e \<Rightarrow> Inl e
           | Inr None \<Rightarrow> get_many_default getf is (insert i seen) records
           | Inr (Some r) \<Rightarrow> get_many_default getf is (insert i seen) (records @ [r]))"

subsection \<open>Lists\<close>

definition after_bound :: "time option \<Rightarrow> time \<Rightarrow> bool" where
  "after_bound b x = (case b of None \<Rightarrow> True | Some t \<Rightarrow> t < x)"

definition list_match :: "job_filter \<Rightarrow> 'p row \<Rightarrow> bool" where
  "list_match f r \<longleftrightarrow>
     opt_eq (map_option class_debug (jf_class f)) (r_class r)
     \<and> opt_eq (map_option status_to_str (jf_status f)) (r_status r)
     \<and> opt_eq (jf_kind f) (r_kind r)
     \<and> opt_eq (jf_tenant f) (r_tenant_id r)
     \<and> after_bound (jf_created_after f) (r_created_at r)
     \<and> before_opt (jf_created_before f) (r_created_at r)"

definition list_rows :: "job_filter \<Rightarrow> 'p row list \<Rightarrow> 'p row list" where
  "list_rows f t =
     (let limit = max 1 (min 500 (jf_limit f)) in
      case jf_order f of
        CreatedAsc \<Rightarrow>
          select_page (\<lambda>r. list_match f r \<and> (case jf_cursor f of None \<Rightarrow> True | Some i \<Rightarrow> i < r_id r))
            (\<lambda>r. int (r_id r)) limit t
      | CreatedDesc \<Rightarrow>
          select_page (\<lambda>r. list_match f r \<and> (case jf_cursor f of None \<Rightarrow> True | Some i \<Rightarrow> r_id r < i))
            (\<lambda>r. - int (r_id r)) limit t)"

definition list_jobs :: "'p codec \<Rightarrow> job_filter \<Rightarrow> 'p store \<Rightarrow> (queue_error, job_record list) result" where
  "list_jobs c f s =
     collect_results (map (\<lambda>r. deserialize_record c (r_payload r)) (list_rows f (st_jobs s)))"

subsection \<open>Counters\<close>

text \<open>\<open>GROUP BY\<close> yields one entry per value that occurs; statuses outside the enum are skipped.\<close>

definition count_jobs_by_status :: "string option \<Rightarrow> 'p store \<Rightarrow> job_status \<rightharpoonup> nat" where
  "count_jobs_by_status tenant_filter s st =
     (let n = rows_affected (\<lambda>r. opt_eq tenant_filter (r_tenant_id r) \<and> str_to_status (r_status r) = Inr st)
                (st_jobs s)
      in if n = 0 then None else Some n)"

definition dlq_counts_by_kind :: "'p store \<Rightarrow> string \<rightharpoonup> nat" where
  "dlq_counts_by_kind s k =
     (let n = rows_affected (\<lambda>r. r_status r = ''DLQ'' \<and> r_kind r = k) (st_jobs s)
      in if n = 0 then None else Some n)"

definition latest_job ::
  "'p codec \<Rightarrow> string option \<Rightarrow> 'p store \<Rightarrow> (queue_error, job_record option) result" where
  "latest_job c tenant_filter s =
     (case select_first (\<lambda>r. opt_eq tenant_filter (r_tenant_id r)) (\<lambda>r. - int (r_id r)) (st_jobs s) of
        None \<Rightarrow> Inr None
      | Some r \<Rightarrow>
          case deserialize_record c (r_payload r) of Inl e \<Rightarrow> Inl e | Inr a \<Rightarrow> Inr (Some a))"

text \<open>\<open>worker_lease_fresh\<close>: \<open>expires_at\<close> is the row of slot 0 of the leadership table, if any.\<close>

definition worker_lease_fresh :: "int option \<Rightarrow> int \<Rightarrow> (queue_error, bool option) result" where
  "worker_lease_fresh expires_at now_ms =
     Inr (Some (case expires_at of None \<Rightarrow> False | Some e \<Rightarrow> now_ms < e))"

subsection \<open>The reader interface\<close>

text \<open>The first occurrences of the elements of a list, in order.\<close>

fun firsts :: "'a list \<Rightarrow> 'a set \<Rightarrow> 'a list" where
  "firsts [] seen = []"
| "firsts (x # xs) seen = (if x \<in> seen then firsts xs seen else x # firsts xs (insert x seen))"

definition found_in_order :: "(ulid \<Rightarrow> job_record option) \<Rightarrow> ulid list \<Rightarrow> job_record list" where
  "found_in_order f ids = List.map_filter f (firsts ids {})"

locale job_reader =
  fixes ok :: "'s \<Rightarrow> bool"
    and lookup :: "'s \<Rightarrow> ulid \<Rightarrow> (queue_error, job_record option) result"
  assumes lookup_total: "ok s \<Longrightarrow> \<exists>x. lookup s i = Inr x"
    and lookup_key: "ok s \<Longrightarrow> lookup s i = Inr (Some r) \<Longrightarrow> jr_id r = i"
begin

lemma default_loop:
  assumes "ok s"
  shows "get_many_default (lookup s) ids seen records
       = Inr (records @ List.map_filter (\<lambda>i. projr (lookup s i)) (firsts ids seen))"
proof (induction ids arbitrary: seen records)
  case (Cons i ids)
  obtain x where "lookup s i = Inr x" using lookup_total [OF assms] by blast
  with Cons show ?case by (cases x) (simp_all add: List.map_filter_simps)
qed (simp add: List.map_filter_simps)

lemma default_many:
  "ok s \<Longrightarrow> get_many_default (lookup s) ids {} []
    = Inr (found_in_order (\<lambda>i. projr (lookup s i)) ids)"
  by (simp add: default_loop found_in_order_def)

lemma default_keys:
  assumes "ok s" "get_many_default (lookup s) ids {} [] = Inr rs"
  shows "distinct (map jr_id rs) \<and> set (map jr_id rs) \<subseteq> set ids"
proof -
  have sub: "set (firsts xs seen) \<subseteq> set xs - seen" "distinct (firsts xs seen)" for xs :: "ulid list" and seen
    by (induction xs arbitrary: seen) auto
  have "map jr_id (List.map_filter (\<lambda>i. projr (lookup s i)) is)
      = filter (\<lambda>i. projr (lookup s i) \<noteq> None) is" for "is"
  proof (induction "is")
    case (Cons i "is")
    obtain x where "lookup s i = Inr x" using lookup_total [OF assms(1)] by blast
    with Cons lookup_key [OF assms(1)] show ?case by (cases x) (simp_all add: List.map_filter_simps)
  qed (simp add: List.map_filter_simps)
  then have "map jr_id rs = filter (\<lambda>i. projr (lookup s i) \<noteq> None) (firsts ids {})"
    using assms by (auto simp: default_many found_in_order_def)
  with sub [of ids "{}"] show ?thesis
    by (simp only: distinct_filter set_filter) auto
qed

end

subsection \<open>Lemmas\<close>

lemma sql_record_id [simp]: "jr_id (sql_record a r) = jr_id a" "jr_spec (sql_record a r) = jr_spec a"
  by (simp_all add: sql_record_def apply_sql_authority_def Let_def)

lemma get_ok:
  assumes "store_ok c s"
  shows "get c i tf s = Inr (case List.find (\<lambda>r. r_id r = i \<and> opt_eq tf (r_tenant_id r)) (st_jobs s) of
      None \<Rightarrow> None | Some r \<Rightarrow> Some (sql_record (projr (from_json c (r_payload r))) r))"
proof (cases "List.find (\<lambda>r. r_id r = i \<and> opt_eq tf (r_tenant_id r)) (st_jobs s)")
  case (Some r)
  then have "row_ok c r" using store_okD(2) [OF assms] by (blast dest: find_Some_iff)
  then show ?thesis by (rule row_okE) (simp add: get_def Some)
qed (simp add: get_def)

interpretation reader: job_reader "store_ok c" "\<lambda>s i. get c i tf s" for c tf
proof
  fix s :: "'a store" and i r
  assume ok: "store_ok c s"
  then show "\<exists>x. get c i tf s = Inr x" by (simp add: get_ok)
  assume "get c i tf s = Inr (Some r)"
  then obtain x where "List.find (\<lambda>r. r_id r = i \<and> opt_eq tf (r_tenant_id r)) (st_jobs s) = Some x"
    and r: "r = sql_record (projr (from_json c (r_payload x))) x"
    by (auto simp: get_ok [OF ok] split: option.splits)
  then have x: "x \<in> set (st_jobs s)" "r_id x = i" by (auto dest: find_Some_iff)
  with record_of_row(1) [OF ok x(1)] r show "jr_id r = i" by simp
qed

lemma fill_found_eq:
  assumes "\<And>r. r \<in> set rows \<Longrightarrow> row_ok c r" "distinct (map r_id rows)"
  shows "fill_found c rows found = Inr (\<lambda>i. case List.find (\<lambda>r. r_id r = i) rows of
          None \<Rightarrow> found i | Some r \<Rightarrow> Some (sql_record (projr (from_json c (r_payload r))) r))"
  using assms
proof (induction rows arbitrary: found)
  case (Cons r rows)
  from Cons.prems(1) [of r] obtain a where a: "deserialize_record c (r_payload r) = Inr a"
      "from_json c (r_payload r) = Inr a" "jr_id a = r_id r"
    by (auto elim!: row_okE simp: payload_matches_def)
  have "List.find (\<lambda>x. r_id x = r_id r) rows = None"
    using Cons.prems(2) by (auto simp: find_None_iff image_iff)
  moreover have "fill_found c rows f = Inr (\<lambda>i. case List.find (\<lambda>r. r_id r = i) rows of
          None \<Rightarrow> f i | Some r \<Rightarrow> Some (sql_record (projr (from_json c (r_payload r))) r))" for f
    using Cons.prems by (intro Cons.IH) simp_all
  ultimately show ?case using a by (auto simp: fun_eq_iff split: option.split)
qed simp

lemma find_filter_chunk:
  "List.find (\<lambda>r. r_id r = i) (filter (\<lambda>r. r_id r \<in> C \<and> T r) t)
   = (if i \<in> C then List.find (\<lambda>r. r_id r = i \<and> T r) t else None)"
  by (induction t) auto

lemma fill_chunks_eq:
  assumes "store_ok c s"
  shows "fill_chunks c tf (st_jobs s) cs found = Inr (\<lambda>i.
      if i \<in> set (concat cs) \<and> projr (get c i tf s) \<noteq> None then projr (get c i tf s) else found i)"
proof (induction cs arbitrary: found)
  case (Cons ch cs)
  let ?rows = "filter (\<lambda>r. r_id r \<in> set ch \<and> opt_eq tf (r_tenant_id r)) (st_jobs s)"
  have "fill_found c ?rows found = Inr (\<lambda>i. case List.find (\<lambda>r. r_id r = i) ?rows of
          None \<Rightarrow> found i | Some r \<Rightarrow> Some (sql_record (projr (from_json c (r_payload r))) r))"
    by (rule fill_found_eq) (use store_okD [OF assms] in \<open>simp_all add: distinct_map_filter\<close>)
  also have "(\<lambda>i. case List.find (\<lambda>r. r_id r = i) ?rows of
          None \<Rightarrow> found i | Some r \<Rightarrow> Some (sql_record (projr (from_json c (r_payload r))) r))
      = (\<lambda>i. if i \<in> set ch \<and> projr (get c i tf s) \<noteq> None then projr (get c i tf s) else found i)"
    by (rule ext) (auto simp: get_ok [OF assms] find_filter_chunk split: option.splits)
  finally show ?case by (auto simp: Cons)
qed simp

lemma concat_chunks: "0 < n \<Longrightarrow> concat (chunks n xs) = xs"
  by (induction n xs rule: chunks.induct) (simp add: chunks.simps [of _ "_ # _"] chunks.simps)

lemma remove_found_eq:
  "remove_found ids (\<lambda>i. if i \<in> seen then None else g i) = List.map_filter g (firsts ids seen)"
proof (induction ids arbitrary: seen)
  case (Cons i ids)
  show ?case
  proof (cases "i \<in> seen \<or> g i = None")
    case True
    then have "(\<lambda>j. if j \<in> insert i seen then None else g j) = (\<lambda>j. if j \<in> seen then None else g j)"
      by auto
    with True Cons [of "insert i seen"] Cons [of seen] show ?thesis
      by (auto simp: List.map_filter_simps)
  next
    case False
    then have "(\<lambda>j. if j \<in> insert i seen then None else g j)
        = (\<lambda>j. if j \<in> seen then None else g j)(i := None)"
      by auto
    with False Cons [of "insert i seen"] show ?thesis
      by (auto simp: List.map_filter_simps)
  qed
qed (simp add: List.map_filter_simps)

lemma firsts_subset: "set (firsts xs seen) \<subseteq> set xs"
  by (induction xs seen rule: firsts.induct) auto

lemma map_filter_cong: "(\<And>x. x \<in> set xs \<Longrightarrow> f x = g x) \<Longrightarrow> List.map_filter f xs = List.map_filter g xs"
  by (simp add: List.map_filter_def cong: filter_cong)

lemma get_many_eq:
  assumes "store_ok c s"
  shows "get_many c ids tf s = Inr (found_in_order (\<lambda>i. projr (get c i tf s)) ids)"
proof (cases "ids = []")
  case False
  define m where "m = (\<lambda>i. if i \<in> set ids \<and> projr (get c i tf s) \<noteq> None then projr (get c i tf s) else None)"
  have m: "fill_chunks c tf (st_jobs s) (chunks SQLITE_ID_BATCH ids) Map.empty = Inr m"
    by (simp add: fill_chunks_eq [OF assms] concat_chunks SQLITE_ID_BATCH_def m_def del: set_concat)
  have "remove_found ids m = List.map_filter m (firsts ids {})"
    using remove_found_eq [of ids "{}" m] by simp
  also have "\<dots> = List.map_filter (\<lambda>i. projr (get c i tf s)) (firsts ids {})"
    by (rule map_filter_cong) (use firsts_subset in \<open>force simp: m_def\<close>)
  finally show ?thesis using m False by (simp add: get_many_def found_in_order_def)
qed (simp add: get_many_def found_in_order_def List.map_filter_simps)

text \<open>All matching rows in the order of the filter, ascending or descending by id.\<close>

definition list_key :: "job_filter \<Rightarrow> 'p row \<Rightarrow> int" where
  "list_key f r = (case jf_order f of CreatedAsc \<Rightarrow> int (r_id r) | CreatedDesc \<Rightarrow> - int (r_id r))"

definition matching_rows :: "job_filter \<Rightarrow> 'p row list \<Rightarrow> 'p row list" where
  "matching_rows f t = sort_key (list_key f) (filter (list_match f) t)"

definition page_size :: "job_filter \<Rightarrow> nat" where
  "page_size f = max 1 (min 500 (jf_limit f))"

lemma drop_sorted:
  fixes k :: "'a \<Rightarrow> 'k::linorder"
  assumes "sorted_wrt (\<lambda>a b. k a < k b) xs" "0 < m" "m \<le> length xs"
  shows "filter (\<lambda>x. k (xs ! (m - 1)) < k x) xs = drop m xs"
proof -
  let ?P = "\<lambda>x. k (xs ! (m - 1)) < k x"
  have nth: "i < j \<Longrightarrow> j < length xs \<Longrightarrow> k (xs ! i) < k (xs ! j)" for i j
    using assms(1) by (simp add: sorted_wrt_iff_nth_less)
  have "filter ?P (take m xs) = []"
    unfolding filter_empty_conv
  proof
    fix x assume "x \<in> set (take m xs)"
    then obtain i where "i < m" "x = xs ! i" using assms(3) by (auto simp: in_set_conv_nth)
    then have "i = m - 1 \<or> i < m - 1" "m - 1 < length xs" using assms(2,3) by linarith+
    with nth [of i "m - 1"] \<open>x = xs ! i\<close> show "\<not> k (xs ! (m - 1)) < k x"
      by fastforce
  qed
  moreover have "filter ?P (drop m xs) = drop m xs"
    using nth [of "m - 1"] assms(2,3) by (auto simp: filter_id_conv in_set_conv_nth)
  ultimately show ?thesis
    by (metis append_take_drop_id append_Nil filter_append)
qed

lemma matching_rows_sorted:
  assumes "distinct (map r_id t)"
  shows "sorted_wrt (\<lambda>a b. list_key f a < list_key f b) (matching_rows f t)"
proof -
  have "distinct (map (list_key f) t)"
    using assms by (cases "jf_order f") (auto simp: distinct_map inj_on_def list_key_def)
  then show ?thesis
    unfolding matching_rows_def by (intro sort_key_strict distinct_map_filter)
qed

lemma list_rows_eq:
  "list_rows (f\<lparr>jf_cursor := None\<rparr>) t = take (page_size f) (matching_rows f t)"
  "list_rows (f\<lparr>jf_cursor := Some (r_id x)\<rparr>) t
   = take (page_size f) (filter (\<lambda>r. list_key f x < list_key f r) (matching_rows f t))"
  by (cases "jf_order f"; simp add: list_rows_def Let_def select_page_def page_size_def matching_rows_def
      list_key_def [abs_def] list_match_def [abs_def] filter_sort conj_commute conj_ac)+

lemma list_jobs_eq:
  assumes "store_ok c s"
  shows "list_jobs c f s = Inr (map (\<lambda>r. projr (from_json c (r_payload r))) (list_rows f (st_jobs s)))"
proof -
  have "set (list_rows f (st_jobs s)) \<subseteq> set (st_jobs s)"
    by (auto simp: list_rows_def Let_def select_page_def dest!: in_set_takeD split: job_order.splits)
  moreover have "deserialize_record c (r_payload r) = Inr (projr (from_json c (r_payload r)))"
    if "r \<in> set (st_jobs s)" for r
    using store_okD(2) [OF assms that] by (rule row_okE) simp
  ultimately show ?thesis
    by (auto simp: list_jobs_def collect_results_Inr)
qed

subsection \<open>Properties\<close>

text \<open>the store's lookup of many ids, one query per chunk of 998 ids and a hash map, returns what the
  trait's default does with one lookup per id: the records found, in the order of the first occurrence
  of their ids.\<close>

theorem get_many_equals_default:
  assumes "store_ok c s"
  shows "get_many c ids tf s = get_many_default (\<lambda>i. get c i tf s) ids {} []"
  by (simp add: get_many_eq [OF assms] reader.default_many [OF assms])

theorem get_many_equals_default_witness:
  "get_many plain_codec [3, 1, 3, 9] None busy_store
   = get_many_default (\<lambda>i. get plain_codec i None busy_store) [3, 1, 3, 9] {} []"
  by (rule get_many_equals_default [OF busy_store_ok])

text \<open>a lookup reports the state of the table.  It finds a row exactly for the ids of the table whose
  tenant passes the filter, and the record it returns carries the status and the attempt counter of the
  row, whatever the stored JSON says.\<close>

theorem get_reports_table_state:
  assumes "store_ok c s" "r \<in> set (st_jobs s)"
  shows "(if opt_eq tf (r_tenant_id r)
          then \<exists>a. get c (r_id r) tf s = Inr (Some a) \<and> jr_id a = r_id r
                 \<and> status_to_str (lc_status (jr_lifecycle a)) = r_status r
                 \<and> rt_count (jr_retry a) = word_of_int (r_attempt_count r)
          else get c (r_id r) tf s = Inr None)"
proof (cases "opt_eq tf (r_tenant_id r)")
  case True
  note u = store_okD(1) [OF assms(1)]
  have "r_status r \<in> set status_texts"
    using store_okD(2) [OF assms] by (simp add: row_ok_def)
  then obtain st where st: "r_status r = status_to_str st"
    unfolding status_texts_def set_map by blast
  have "status_to_str (lc_status (jr_lifecycle (sql_record a r))) = r_status r"
    "rt_count (jr_retry (sql_record a r)) = word_of_int (r_attempt_count r)" for a
    by (simp_all add: sql_record_def apply_sql_authority_def Let_def st set_completed_at_def)
  with True record_of_row(1) [OF assms] show ?thesis
    by (simp add: get_ok [OF assms(1)] find_id_status [OF u assms(2), of "\<lambda>r. opt_eq tf (r_tenant_id r)"])
next
  case False
  have "List.find (\<lambda>x. r_id x = r_id r \<and> opt_eq tf (r_tenant_id x)) (st_jobs s) = None"
    using False assms(2) store_okD(1) [OF assms(1)] by (auto simp: find_None_iff dest: distinct_key_eq)
  with False show ?thesis by (simp add: get_def)
qed

theorem get_reports_table_state_witness:
  "\<exists>a. get plain_codec 1 None busy_store = Inr (Some a) \<and> lc_status (jr_lifecycle a) = Running"
  using get_reports_table_state [OF busy_store_ok, of "leased_row 1 JobBackup (secs 300)" None]
    status_to_str_inject [of _ Running]
  by (auto simp: busy_store_jobs simp del: status_to_str_inject)

text \<open>C34: pages neither skip nor repeat jobs.  Without a cursor a list is the first page of all matching
  rows in the order asked for; with the cursor on the \<open>m\<close>-th of them it is the page that follows it.
  The page size is the limit, at least 1 and at most 500.\<close>

theorem cursor_pagination:
  assumes "store_ok c s" "0 < m" "m \<le> length (matching_rows f (st_jobs s))"
  shows "let rows = matching_rows f (st_jobs s); n = max 1 (min 500 (jf_limit f));
             records = map (\<lambda>r. projr (from_json c (r_payload r))) in
      list_jobs c (f\<lparr>jf_cursor := None\<rparr>) s = Inr (records (take n rows))
    \<and> list_jobs c (f\<lparr>jf_cursor := Some (r_id (rows ! (m - 1)))\<rparr>) s = Inr (records (take n (drop m rows)))"
  using drop_sorted [OF matching_rows_sorted [OF store_okD(1) [OF assms(1)]] assms(2,3)]
  by (simp add: list_jobs_eq [OF assms(1)] list_rows_eq page_size_def Let_def)

theorem cursor_pagination_witness:
  "list_jobs plain_codec (job_filter_default\<lparr>jf_cursor := Some 2\<rparr>) busy_store
   = Inr [sample_job 3 Waiting JobReview [1]]"
proof -
  have rows: "matching_rows job_filter_default (st_jobs busy_store) = st_jobs busy_store"
    by (simp add: matching_rows_def busy_store_jobs list_match_def job_filter_default_def after_bound_def
        before_opt_def list_key_def)
  show ?thesis
    using cursor_pagination [OF busy_store_ok, of 2 job_filter_default, unfolded rows]
    by (simp add: busy_store_jobs job_filter_default_def numeral_2_eq_2)
qed

end
