(* ===== verification/Queue_Setup.thy ===== *)
theory Queue_Setup
  imports Queue_Read
begin

text \<open>
  Around the job table: the embedded schema migrations and the idempotency table of
  \<open>gradatum-db-sqlite/src/queue_store_sqlite.rs\<close>, and the facade \<open>GradatumQueue\<close> of
  \<open>gradatum-queue/src/gradatum_queue.rs\<close> over the default methods of the trait.

  SQLite and the digest of the \<open>sha2\<close> crate are parameters: a \<open>sql_engine\<close> gives the text of an embedded
  file, its checksum, and the effect of executing it in a transaction on a database of type \<open>'db\<close>.
\<close>

subsection \<open>Migrations\<close>

record embedded_migration =
  mg_version :: int
  mg_description :: string
  mg_sql :: string

definition MIGRATIONS :: "embedded_migration list" where
  "MIGRATIONS =
    [\<lparr>mg_version = 6, mg_description = ''apalis bootstrap'', mg_sql = ''../migrations/006_apalis_bootstrap.sql''\<rparr>,
     \<lparr>mg_version = 7, mg_description = ''jobs kind indexed'', mg_sql = ''../migrations/007_jobs_kind_indexed.sql''\<rparr>,
     \<lparr>mg_version = 8, mg_description = ''idempotency'', mg_sql = ''../migrations/008_idempotency.sql''\<rparr>,
     \<lparr>mg_version = 9, mg_description = ''jobs v2 drain'', mg_sql = ''../migrations/009_jobs_v2_drain.sql''\<rparr>,
     \<lparr>mg_version = 10, mg_description = ''backfill kind'', mg_sql = ''../migrations/010_backfill_kind.sql''\<rparr>,
     \<lparr>mg_version = 11, mg_description = ''jobs tenant scope'', mg_sql = ''../migrations/011_jobs_tenant_scope.sql''\<rparr>,
     \<lparr>mg_version = 12, mg_description = ''drop jobs v2'', mg_sql = ''../migrations/012_drop_jobs_v2.sql''\<rparr>]"

record ('db, 'sum) sql_engine =
  include_str :: "string \<Rightarrow> string"
  sha384 :: "string \<Rightarrow> 'sum"
  execute_batch :: "string \<Rightarrow> 'db \<Rightarrow> string + 'db"

text \<open>A row of \<open>_sqlx_migrations\<close>.\<close>

record 'sum applied_row =
  ap_version :: int
  ap_description :: string
  ap_success :: bool
  ap_checksum :: 'sum

definition show_int :: "int \<Rightarrow> string" where
  "show_int i = (if i < 0 then ''-'' @ show_nat (nat (- i)) else show_nat (nat i))"

fun migrate_loop ::
  "('db, 'sum) sql_engine \<Rightarrow> 'sum applied_row list \<Rightarrow> embedded_migration list \<Rightarrow> nat
   \<Rightarrow> 'db \<times> 'sum applied_row list \<Rightarrow> (queue_error, nat) result \<times> 'db \<times> 'sum applied_row list" where
  "migrate_loop e applied [] n (db, rows) = (Inr n, db, rows)"
| "migrate_loop e applied (mig # ms) n (db, rows) =
     (let sql = include_str e (mg_sql mig); checksum = sha384 e sql in
      case List.find (\<lambda>a. ap_version a = mg_version mig) applied of
        Some a \<Rightarrow>
          if ap_checksum a \<noteq> checksum
          then (Inl (Storage (''migration '' @ show_int (mg_version mig)
                 @ '' already applied but its content changed (SHA-384 checksum differs) '' @ em_dash
                 @ '' refusing startup'')), db, rows)
          else migrate_loop e applied ms n (db, rows)
      | None \<Rightarrow>
          case execute_batch e sql db of
            Inl err \<Rightarrow> (Inl (Storage err), db, rows)
          | Inr db' \<Rightarrow>
              migrate_loop e applied ms (n + 1)
                (db', rows @ [\<lparr>ap_version = mg_version mig, ap_description = mg_description mig,
                               ap_success = True, ap_checksum = checksum\<rparr>]))"

definition run_migrations_sync ::
  "('db, 'sum) sql_engine \<Rightarrow> 'db \<times> 'sum applied_row list
   \<Rightarrow> (queue_error, nat) result \<times> 'db \<times> 'sum applied_row list" where
  "run_migrations_sync e st =
     (case select_first (\<lambda>a. \<not> ap_success a) ap_version (snd st) of
        Some a \<Rightarrow>
          (Inl (Storage (''dirty migration base: migration '' @ show_int (ap_version a)
             @ '' marked as failed (success = false)'')), st)
      | None \<Rightarrow> migrate_loop e (sort_key ap_version (snd st)) MIGRATIONS 0 st)"

subsection \<open>Idempotency keys\<close>

record idem_row =
  ik_key :: string
  ik_job_id :: string
  ik_created_at :: int

definition idempotency_insert :: "int \<Rightarrow> string \<Rightarrow> string \<Rightarrow> idem_row list \<Rightarrow> bool \<times> idem_row list" where
  "idempotency_insert now_ms key job_id t =
     (if \<exists>r\<in>set t. ik_key r = key then (False, t)
      else (True, t @ [\<lparr>ik_key = key, ik_job_id = job_id, ik_created_at = now_ms\<rparr>]))"

definition idempotency_lookup :: "string \<Rightarrow> idem_row list \<Rightarrow> string option" where
  "idempotency_lookup key t = map_option ik_job_id (List.find (\<lambda>r. ik_key r = key) t)"

definition idempotency_cleanup :: "int \<Rightarrow> idem_row list \<Rightarrow> nat \<times> idem_row list" where
  "idempotency_cleanup before_ms t =
     (rows_affected (\<lambda>r. ik_created_at r < before_ms) t, del_where (\<lambda>r. ik_created_at r < before_ms) t)"

subsection \<open>Facade\<close>

text \<open>The methods that \<open>GradatumQueue\<close> does not override fall back to the defaults of the trait.\<close>

definition facade_mark_conflict ::
  "'p codec \<Rightarrow> time \<Rightarrow> time \<Rightarrow> ulid \<Rightarrow> string \<Rightarrow> 32 word \<Rightarrow> ('p, unit) op" where
  "facade_mark_conflict c now now2 i result_note_md duration_ms s =
     complete c now now2 i
       \<lparr>re_success = False, re_duration_ms = duration_ms, re_cost_usd = None, re_result_note = None,
        re_conflict_payload = parse_value c result_note_md\<rparr> s"

definition facade_purge_terminal_payloads :: "time option \<Rightarrow> ('p, nat) op" where
  "facade_purge_terminal_payloads older_than s = (Inl (NotImplemented ''purge_terminal_payloads''), s)"

definition facade_count_dlq_jobs :: "time option \<Rightarrow> 'p store \<Rightarrow> (queue_error, nat) result" where
  "facade_count_dlq_jobs older_than s = Inr 0"

definition facade_promote_stranded_waiting_jobs :: "('p, 32 word) op" where
  "facade_promote_stranded_waiting_jobs s = (Inr 0, s)"

definition facade_latest_job :: "string option \<Rightarrow> 'p store \<Rightarrow> (queue_error, job_record option) result" where
  "facade_latest_job tenant_filter s = Inr None"

definition facade_count_jobs_by_status :: "string option \<Rightarrow> 'p store \<Rightarrow> job_status \<rightharpoonup> nat" where
  "facade_count_jobs_by_status tenant_filter s = Map.empty"

definition facade_dlq_counts_by_kind :: "'p store \<Rightarrow> string \<rightharpoonup> nat" where
  "facade_dlq_counts_by_kind s = Map.empty"

definition facade_worker_lease_fresh :: "int \<Rightarrow> (queue_error, bool option) result" where
  "facade_worker_lease_fresh now_ms = Inr None"

subsection \<open>Migrations run once\<close>

definition applied_of :: "('db, 'sum) sql_engine \<Rightarrow> embedded_migration \<Rightarrow> 'sum applied_row" where
  "applied_of e m = \<lparr>ap_version = mg_version m, ap_description = mg_description m, ap_success = True,
                     ap_checksum = sha384 e (include_str e (mg_sql m))\<rparr>"

definition pending :: "'sum applied_row list \<Rightarrow> embedded_migration list \<Rightarrow> embedded_migration list" where
  "pending rows ms = filter (\<lambda>m. List.find (\<lambda>a. ap_version a = mg_version m) rows = None) ms"

fun execute_all :: "('db, 'sum) sql_engine \<Rightarrow> embedded_migration list \<Rightarrow> 'db \<Rightarrow> string + 'db" where
  "execute_all e [] db = Inr db"
| "execute_all e (m # ms) db =
     (case execute_batch e (include_str e (mg_sql m)) db of
        Inl err \<Rightarrow> Inl err
      | Inr db' \<Rightarrow> execute_all e ms db')"

lemma find_sort_key: "List.find (\<lambda>a. f a = v) (sort_key f xs) = List.find (\<lambda>a. f a = v) xs"
proof -
  have hd_filter: "List.find P ys = (case filter P ys of [] \<Rightarrow> None | y # _ \<Rightarrow> Some y)" for P and ys :: "'a list"
    by (induction ys) auto
  show ?thesis by (simp add: hd_filter sort_key_stable)
qed

lemma migrate_loop_Inr:
  "migrate_loop e applied ms n (db, rows) = (Inr k, db', rows') \<Longrightarrow>
   k = n + length (pending applied ms) \<and> rows' = rows @ map (applied_of e) (pending applied ms)
   \<and> execute_all e (pending applied ms) db = Inr db'
   \<and> (\<forall>m\<in>set ms. \<forall>a. List.find (\<lambda>a. ap_version a = mg_version m) applied = Some a
        \<longrightarrow> ap_checksum a = sha384 e (include_str e (mg_sql m)))"
proof (induction ms arbitrary: n db rows)
  case (Cons m ms)
  show ?case
  proof (cases "List.find (\<lambda>a. ap_version a = mg_version m) applied")
    case None
    with Cons.prems obtain db1 where db1: "execute_batch e (include_str e (mg_sql m)) db = Inr db1"
      by (auto simp: Let_def split: sum.splits)
    with None Cons.prems
    have "migrate_loop e applied ms (n + 1) (db1, rows @ [applied_of e m]) = (Inr k, db', rows')"
      by (simp add: Let_def applied_of_def)
    from Cons.IH [OF this] None db1 show ?thesis by (auto simp: pending_def)
  next
    case (Some a)
    with Cons.prems have same: "ap_checksum a = sha384 e (include_str e (mg_sql m))"
      by (auto simp: Let_def split: if_splits)
    with Some Cons.prems have "migrate_loop e applied ms n (db, rows) = (Inr k, db', rows')"
      by (simp add: Let_def)
    from Cons.IH [OF this] Some same show ?thesis by (auto simp: pending_def)
  qed
qed (simp add: pending_def)

lemma migrate_loop_up_to_date:
  "(\<And>m. m \<in> set ms \<Longrightarrow> \<exists>a. List.find (\<lambda>a. ap_version a = mg_version m) applied = Some a
       \<and> ap_checksum a = sha384 e (include_str e (mg_sql m)))
   \<Longrightarrow> migrate_loop e applied ms n (db, rows) = (Inr n, db, rows)"
proof (induction ms)
  case (Cons m ms)
  from Cons.prems [of m] obtain a where "List.find (\<lambda>a. ap_version a = mg_version m) applied = Some a"
    "ap_checksum a = sha384 e (include_str e (mg_sql m))" by auto
  moreover have "migrate_loop e applied ms n (db, rows) = (Inr n, db, rows)"
    by (rule Cons.IH) (use Cons.prems in simp)
  ultimately show ?case by (simp add: Let_def)
qed simp

lemma find_append:
  "List.find P (xs @ ys) = (case List.find P xs of None \<Rightarrow> List.find P ys | Some x \<Rightarrow> Some x)"
  by (induction xs) auto

lemma distinct_versions: "distinct (map mg_version MIGRATIONS)"
  by (simp add: MIGRATIONS_def)

lemma find_applied_of:
  assumes "distinct (map mg_version ms)" "m \<in> set ms"
  shows "List.find (\<lambda>a. ap_version a = mg_version m) (map (applied_of e) ms) = Some (applied_of e m)"
  using assms by (induction ms) (auto simp: applied_of_def)

lemma recorded_after_run:
  assumes "m \<in> set MIGRATIONS"
    and "\<And>a. List.find (\<lambda>a. ap_version a = mg_version m) rows = Some a
          \<Longrightarrow> ap_checksum a = sha384 e (include_str e (mg_sql m))"
  shows "\<exists>a. List.find (\<lambda>a. ap_version a = mg_version m)
               (rows @ map (applied_of e) (pending rows MIGRATIONS)) = Some a
             \<and> ap_checksum a = sha384 e (include_str e (mg_sql m))"
proof (cases "List.find (\<lambda>a. ap_version a = mg_version m) rows")
  case None
  have "distinct (map mg_version (pending rows MIGRATIONS))"
    unfolding pending_def by (rule distinct_map_filter [OF distinct_versions])
  moreover have "m \<in> set (pending rows MIGRATIONS)" using None assms(1) by (simp add: pending_def)
  ultimately show ?thesis using None
    by (auto simp: find_append find_applied_of) (simp add: applied_of_def)
qed (use assms(2) in \<open>simp add: find_append\<close>)

lemma clean_after_run:
  "select_first (\<lambda>a. \<not> ap_success a) ap_version rows = None
   \<Longrightarrow> select_first (\<lambda>a. \<not> ap_success a) ap_version (rows @ map (applied_of e) ms) = None"
  by (auto simp: select_first_None applied_of_def)

lemma pending_sorted: "pending (sort_key ap_version rows) ms = pending rows ms"
  by (simp add: pending_def find_sort_key)

text \<open>A successful start-up executes exactly the embedded migrations whose version is not recorded, in
  order, and records each; it returns their number. A second start-up on the resulting base returns 0 and
  changes neither the base nor the tracking table, whatever the migrations do: no migration is replayed,
  although some of them (\<open>ALTER TABLE ADD COLUMN\<close>) cannot be executed twice.\<close>

theorem migrations_never_replayed:
  fixes e :: "('db, 'sum) sql_engine"
  assumes "run_migrations_sync e (db, rows) = (Inr n, db', rows')"
  shows "execute_all e (pending rows MIGRATIONS) db = Inr db'
     \<and> rows' = rows @ map (applied_of e) (pending rows MIGRATIONS)
     \<and> n = length (pending rows MIGRATIONS)
     \<and> run_migrations_sync e (db', rows') = (Inr 0, db', rows')"
proof -
  from assms have clean: "select_first (\<lambda>a. \<not> ap_success a) ap_version rows = None"
    by (auto simp: run_migrations_sync_def split: option.splits)
  with assms have "migrate_loop e (sort_key ap_version rows) MIGRATIONS 0 (db, rows) = (Inr n, db', rows')"
    by (simp add: run_migrations_sync_def)
  note run = migrate_loop_Inr [OF this, unfolded pending_sorted find_sort_key]
  then have rows': "rows' = rows @ map (applied_of e) (pending rows MIGRATIONS)" by simp
  have "migrate_loop e (sort_key ap_version rows') MIGRATIONS 0 (db', rows') = (Inr 0, db', rows')"
    using run by (intro migrate_loop_up_to_date) (simp add: find_sort_key rows' recorded_after_run)
  with run clean_after_run [OF clean, of e] show ?thesis
    by (simp add: run_migrations_sync_def rows')
qed

text \<open>An engine that logs the executed scripts, on a base where 006 and 007 are recorded.\<close>

definition log_engine :: "(string list, string) sql_engine" where
  "log_engine = \<lparr>include_str = (\<lambda>f. f), sha384 = (\<lambda>x. x), execute_batch = (\<lambda>sql db. Inr (db @ [sql]))\<rparr>"

theorem migrations_never_replayed_witness:
  "\<exists>db rows. run_migrations_sync log_engine ([], map (applied_of log_engine) (take 2 MIGRATIONS)) = (Inr 5, db, rows)
     \<and> length db = 5 \<and> run_migrations_sync log_engine (db, rows) = (Inr 0, db, rows)"
proof -
  let ?r = "map (applied_of log_engine) (take 2 MIGRATIONS)"
  have "\<exists>db rows. run_migrations_sync log_engine ([], ?r) = (Inr 5, db, rows) \<and> length db = 5"
    by (simp add: run_migrations_sync_def MIGRATIONS_def applied_of_def log_engine_def select_first_def
        Let_def eval_nat_numeral)
  then obtain db rows where r: "run_migrations_sync log_engine ([], ?r) = (Inr 5, db, rows)" "length db = 5"
    by blast
  from migrations_never_replayed [OF r(1)] r show ?thesis by blast
qed

subsection \<open>Idempotency: the first submission wins\<close>

text \<open>A first-writer-wins table: what a client that retries a request relies on. \<open>put\<close> takes the clock
  reading, the key and the value.\<close>

locale first_writer =
  fixes put :: "'t \<Rightarrow> 'k \<Rightarrow> 'v \<Rightarrow> 's \<Rightarrow> bool \<times> 's"
    and look :: "'k \<Rightarrow> 's \<Rightarrow> 'v option"
  assumes put_new: "look k s = None \<Longrightarrow> fst (put t k v s) \<and> look k (snd (put t k v s)) = Some v"
    and put_old: "look k s = Some w \<Longrightarrow> put t k v s = (False, s)"
    and put_other: "k' \<noteq> k \<Longrightarrow> look k' (snd (put t k v s)) = look k' s"
begin

lemma look_put:
  "look k' (snd (put t k v s))
   = (if k' = k then Some (case look k s of None \<Rightarrow> v | Some w \<Rightarrow> w) else look k' s)"
proof (cases "look k s")
  case None
  with put_new [OF None, of t v] put_other [of k' k t v s] show ?thesis by simp
next
  case (Some w)
  with put_old [OF Some, of t v] show ?thesis by simp
qed

lemma accepted_iff: "fst (put t k v s) \<longleftrightarrow> look k s = None"
  using put_new [of k s t v] put_old [of k s _ t v] by (cases "look k s") auto

end

interpretation idem: first_writer idempotency_insert idempotency_lookup
proof
  have none: "idempotency_lookup k s = None \<longleftrightarrow> (\<forall>r\<in>set s. ik_key r \<noteq> k)" for k s
    by (simp add: idempotency_lookup_def find_None_iff)
  show "fst (idempotency_insert t k v s) \<and> idempotency_lookup k (snd (idempotency_insert t k v s)) = Some v"
    if "idempotency_lookup k s = None" for k t v s
    using that none [of k s] by (auto simp: idempotency_insert_def idempotency_lookup_def find_append)
  show "idempotency_insert t k v s = (False, s)" if "idempotency_lookup k s = Some w" for k t v w s
    using that none [of k s] by (auto simp: idempotency_insert_def)
  show "idempotency_lookup k' (snd (idempotency_insert t k v s)) = idempotency_lookup k' s"
    if "k' \<noteq> k" for k k' t v s
    using that by (auto simp: idempotency_insert_def idempotency_lookup_def find_append split: option.splits)
qed

text \<open>A sequence of submissions (clock, key, job id), in the order the database serialises them; the accepted
  ones are collected.\<close>

fun submissions ::
  "(int \<times> string \<times> string) list \<Rightarrow> idem_row list \<Rightarrow> (int \<times> string \<times> string) list \<times> idem_row list" where
  "submissions [] t = ([], t)"
| "submissions ((now, k, v) # xs) t =
     (let (new, t') = idempotency_insert now k v t; (acc, t'') = submissions xs t' in
      (if new then (now, k, v) # acc else acc, t''))"

text \<open>However submissions interleave, at most one submission per key is accepted: the first one if the key
  was absent, none if it was present; and every later lookup of the key returns the job id of that first
  writer.\<close>

theorem idempotency_first_writer_wins:
  "filter (\<lambda>x. fst (snd x) = k) (fst (submissions xs t))
     = (if idempotency_lookup k t = None then take 1 (filter (\<lambda>x. fst (snd x) = k) xs) else [])
   \<and> idempotency_lookup k (snd (submissions xs t))
     = (case idempotency_lookup k t of
          Some w \<Rightarrow> Some w
        | None \<Rightarrow> map_option (snd \<circ> snd) (List.find (\<lambda>x. fst (snd x) = k) xs))"
proof (induction xs arbitrary: t)
  case (Cons x xs)
  obtain now k' v where x: "x = (now, k', v)" by (cases x)
  show ?case
    using Cons.IH [of "snd (idempotency_insert now k' v t)"]
    by (auto simp: x idem.look_put idem.accepted_iff case_prod_beta split: option.splits)
qed (simp split: option.splits)

definition idem_ok :: "idem_row list \<Rightarrow> bool" where
  "idem_ok t = distinct (map ik_key t)"

lemma idempotency_lookup_Some:
  "idem_ok t \<Longrightarrow> idempotency_lookup k t = Some v \<longleftrightarrow> (\<exists>r\<in>set t. ik_key r = k \<and> ik_job_id r = v)"
  by (induction t) (auto simp: idempotency_lookup_def idem_ok_def image_iff)

text \<open>The key column stays unique under insertion and clean-up; and a clean-up forgets exactly the
  entries created before the bound, reporting their number: afterwards a key is known iff its row is not older
  than the bound.\<close>

theorem idempotency_cleanup_exact:
  assumes "idem_ok t"
  shows "idem_ok (snd (idempotency_insert now k v t))
     \<and> idem_ok (snd (idempotency_cleanup b t))
     \<and> fst (idempotency_cleanup b t) + length (snd (idempotency_cleanup b t)) = length t
     \<and> (idempotency_lookup k (snd (idempotency_cleanup b t)) = Some v
         \<longleftrightarrow> (\<exists>r\<in>set t. ik_key r = k \<and> ik_job_id r = v \<and> b \<le> ik_created_at r))"
proof -
  have kept: "idem_ok (filter P t)" for P using assms by (simp add: idem_ok_def distinct_map_filter)
  have count: "rows_affected (\<lambda>r. ik_created_at r < b) t + length (filter (\<lambda>r. b \<le> ik_created_at r) t) = length t"
    using sum_length_filter_compl [of "\<lambda>r. ik_created_at r < b" t] by (simp add: rows_affected_def not_less)
  have "idem_ok (snd (idempotency_insert now k v t))"
    using assms by (auto simp: idempotency_insert_def idem_ok_def)
  with kept count show ?thesis
    by (auto simp: idempotency_cleanup_def del_where_def idempotency_lookup_Some not_less)
qed

theorem idempotency_cleanup_exact_witness:
  "idempotency_lookup ''k'' (snd (idempotency_cleanup 5
      [\<lparr>ik_key = ''k'', ik_job_id = ''j'', ik_created_at = 7\<rparr>, \<lparr>ik_key = ''o'', ik_job_id = ''i'', ik_created_at = 2\<rparr>]))
   = Some ''j''"
  using idempotency_cleanup_exact [of
      "[\<lparr>ik_key = ''k'', ik_job_id = ''j'', ik_created_at = 7\<rparr>, \<lparr>ik_key = ''o'', ik_job_id = ''i'', ik_created_at = 2\<rparr>]"
      0 "''k''" "''j''" 5]
  by (simp add: idem_ok_def)

subsection \<open>A conflict through the facade\<close>

text \<open>A write conflict reported through the facade is not recorded as one: the default method of the trait
  completes the job, so the row of a leased job ends as \<open>Done\<close>, whereas the same call on the store records
  \<open>Conflict\<close>. Both calls succeed, so the caller cannot tell them apart.\<close>

theorem facade_conflict_recorded_as_done:
  assumes "codec_ok c" "store_ok c s" "r \<in> set (st_jobs s)" "r_status r = ''Running''" "lease_live now r"
  shows "fst (facade_mark_conflict c now now2 (r_id r) md d s) = Inr ()
     \<and> (\<exists>r'\<in>set (st_jobs (snd (facade_mark_conflict c now now2 (r_id r) md d s))).
          r_id r' = r_id r \<and> r_status r' = ''Done'')
     \<and> fst (mark_conflict c now now2 (r_id r) md d s) = Inr ()
     \<and> (\<exists>r'\<in>set (st_jobs (snd (mark_conflict c now now2 (r_id r) md d s))).
          r_id r' = r_id r \<and> r_status r' = ''Conflict'')"
proof -
  define res where "res = \<lparr>re_success = False, re_duration_ms = d, re_cost_usd = None, re_result_note = None,
    re_conflict_payload = parse_value c md\<rparr>"
  obtain p where eq: "complete c now now2 (r_id r) res s
     = (Inr (), snd (cascade_check_and_promote c (r_id r)
         (publish (JobCompleted (r_id r) (if re_success res then Done else Failed) res)
           (s\<lparr>st_jobs := upd_where (\<lambda>x. r_id x = r_id r \<and> r_status x = ''Running'' \<and> lease_live now x)
               (\<lambda>x. x\<lparr>r_status := ''Done'', r_completed_at := Some now, r_lease_until := None,
                      r_payload := p\<rparr>) (st_jobs s)\<rparr>))))"
    using complete_live [OF assms] .
  have mem: "r\<lparr>r_status := ''Done'', r_completed_at := Some now, r_lease_until := None, r_payload := p\<rparr>
      \<in> set (st_jobs (snd (complete c now now2 (r_id r) res s)))"
    unfolding eq snd_conv using assms(3-5)
    by (intro cascade_keep) (auto intro!: upd_where_at [of r _ _ "\<lambda>x. x\<lparr>r_status := ''Done'',
        r_completed_at := Some now, r_lease_until := None, r_payload := p\<rparr>", simplified])
  obtain a where a: "deserialize_record c (r_payload r) = Inr a"
    using running_record [OF assms(2-4)] .
  obtain q where q: "serialize_record c (set_result (Some (conflict_result d (parse_value c md)))
      (set_completed_at (Some now2) (set_status Conflict a))) = Inr q"
    by (rule codec_ok_serialize [OF assms(1)])
  have found: "List.find (\<lambda>x. r_id x = r_id r) (st_jobs s) = Some r"
    using find_id_status [OF store_okD(1) [OF assms(2)] assms(3), of "\<lambda>_. True"] by simp
  have mem': "r\<lparr>r_status := ''Conflict'', r_completed_at := Some now, r_lease_until := None,
        r_last_error := Some (take 256 md), r_payload := q\<rparr>
      \<in> set (st_jobs (snd (mark_conflict c now now2 (r_id r) md d s)))"
    using assms(3) by (auto simp: mark_conflict_def found a q publish_def
        intro!: upd_where_at [of r _ _ "\<lambda>x. x\<lparr>r_status := ''Conflict'', r_completed_at := Some now,
          r_lease_until := None, r_last_error := Some (take 256 md), r_payload := q\<rparr>", simplified])
  have facade: "facade_mark_conflict c now now2 (r_id r) md d s = complete c now now2 (r_id r) res s"
    by (simp add: facade_mark_conflict_def res_def)
  show ?thesis
  proof (intro conjI)
    show "fst (facade_mark_conflict c now now2 (r_id r) md d s) = Inr ()" by (simp add: facade eq)
    show "fst (mark_conflict c now now2 (r_id r) md d s) = Inr ()" by (simp add: mark_conflict_def found a q)
  qed (rule bexI [OF _ mem [folded facade]], simp, rule bexI [OF _ mem'], simp)
qed

theorem facade_conflict_recorded_as_done_witness:
  "\<exists>r' \<in> set (st_jobs (snd (facade_mark_conflict plain_codec 5 6 1 ''{}'' 3 busy_store))).
     r_id r' = 1 \<and> r_status r' = ''Done''"
proof -
  let ?r = "leased_row 1 JobBackup (secs 300)"
  have r: "?r \<in> set (st_jobs busy_store)" "r_status ?r = ''Running''" "lease_live 5 ?r" "r_id ?r = 1"
    by (simp_all add: busy_store_jobs lease_live_def secs_def)
  from facade_conflict_recorded_as_done [OF plain_codec_ok busy_store_ok r(1-3), of 6 "''{}''" 3] r(4)
  show ?thesis by simp
qed

end
