(* ===== verification/Worker_Leader.thy ===== *)
theory Worker_Leader
  imports Queue_Setup
begin

text \<open>
  Leader election of the worker (\<open>gradatum-worker/src/leader.rs\<close>): the table \<open>worker_leadership\<close>, whose
  primary key is \<open>slot\<close>, and the three statements workers run on it. Instants and durations are in
  milliseconds. Each handle reads its clock before it takes the database lock, so a statement may run with a
  reading that is older than the present instant; the step relation allows any such delay.
\<close>

record leader_config =
  lc_renew_every :: nat
  lc_expires_after :: nat

definition leader_config_default :: leader_config where
  "leader_config_default = \<lparr>lc_renew_every = 30 * 1000, lc_expires_after = 60 * 1000\<rparr>"

record leadership_row =
  lr_slot :: int
  lr_holder :: string
  lr_expires_at :: int

record leader_election =
  le_holder :: string
  le_cfg :: leader_config

definition try_acquire :: "leader_election \<Rightarrow> int \<Rightarrow> leadership_row list \<Rightarrow> bool \<times> leadership_row list" where
  "try_acquire el now t =
     (let expires = now + int (lc_expires_after (le_cfg el)) in
      if \<not> (\<exists>r\<in>set t. lr_slot r = 0)
      then (True, t @ [\<lparr>lr_slot = 0, lr_holder = le_holder el, lr_expires_at = expires\<rparr>])
      else
        let P = (\<lambda>r. lr_slot r = 0 \<and> (lr_expires_at r < now \<or> lr_holder r = le_holder el)) in
        (rows_affected P t = 1,
         upd_where P (\<lambda>r. r\<lparr>lr_holder := le_holder el, lr_expires_at := expires\<rparr>) t))"

definition renew :: "leader_election \<Rightarrow> int \<Rightarrow> leadership_row list \<Rightarrow> bool \<times> leadership_row list" where
  "renew el now t =
     (let expires = now + int (lc_expires_after (le_cfg el));
          P = (\<lambda>r. lr_slot r = 0 \<and> lr_holder r = le_holder el) in
      (rows_affected P t = 1, upd_where P (\<lambda>r. r\<lparr>lr_expires_at := expires\<rparr>) t))"

definition release :: "leader_election \<Rightarrow> leadership_row list \<Rightarrow> leadership_row list" where
  "release el t = del_where (\<lambda>r. lr_holder r = le_holder el) t"

subsection \<open>The cluster\<close>

text \<open>The present instant, the table, and for every worker the expiry of the lease it last obtained, if its last
  acquisition or renewal succeeded and it has neither released the lease nor stopped since.\<close>

record cluster =
  cl_clock :: int
  cl_table :: "leadership_row list"
  cl_lease :: "string \<Rightarrow> int option"

definition granted :: "leader_election \<Rightarrow> int \<Rightarrow> bool \<Rightarrow> int option" where
  "granted el now ok = (if ok then Some (now + int (lc_expires_after (le_cfg el))) else None)"

inductive cluster_step :: "cluster \<Rightarrow> cluster \<Rightarrow> bool" where
  step_tick: "cl_clock s \<le> t \<Longrightarrow> cluster_step s (s\<lparr>cl_clock := t\<rparr>)"
| step_acquire: "now \<le> cl_clock s \<Longrightarrow> try_acquire el now (cl_table s) = (ok, t) \<Longrightarrow>
    cluster_step s (s\<lparr>cl_table := t, cl_lease := (cl_lease s)(le_holder el := granted el now ok)\<rparr>)"
| step_renew: "now \<le> cl_clock s \<Longrightarrow> renew el now (cl_table s) = (ok, t) \<Longrightarrow>
    cluster_step s (s\<lparr>cl_table := t, cl_lease := (cl_lease s)(le_holder el := granted el now ok)\<rparr>)"
| step_release:
    "cluster_step s (s\<lparr>cl_table := release el (cl_table s), cl_lease := (cl_lease s)(le_holder el := None)\<rparr>)"
| step_stop: "cluster_step s (s\<lparr>cl_lease := (cl_lease s)(w := None)\<rparr>)"

inductive_cases cluster_stepE: "cluster_step s s'"

definition cluster_init :: "cluster \<Rightarrow> bool" where
  "cluster_init s \<longleftrightarrow> cl_table s = [] \<and> (\<forall>w. cl_lease s w = None)"

text \<open>At most one row, and a lease that has not run out is the one in the table.\<close>

definition cluster_ok :: "cluster \<Rightarrow> bool" where
  "cluster_ok s \<longleftrightarrow>
     (cl_table s = [] \<or> (\<exists>h e. cl_table s = [\<lparr>lr_slot = 0, lr_holder = h, lr_expires_at = e\<rparr>]))
     \<and> (\<forall>w e. cl_lease s w = Some e \<longrightarrow> cl_clock s \<le> e
          \<longrightarrow> cl_table s = [\<lparr>lr_slot = 0, lr_holder = w, lr_expires_at = e\<rparr>])"

lemma cluster_okE:
  assumes "cluster_ok s"
  obtains (empty) "cl_table s = []" "\<And>w e. cl_lease s w = Some e \<Longrightarrow> e < cl_clock s"
  | (row) h x where "cl_table s = [\<lparr>lr_slot = 0, lr_holder = h, lr_expires_at = x\<rparr>]"
      "\<And>w e. cl_lease s w = Some e \<Longrightarrow> cl_clock s \<le> e \<Longrightarrow> w = h \<and> e = x"
  using assms unfolding cluster_ok_def by (metis linorder_not_le list.inject leadership_row.iffs not_Cons_self2)

lemma try_acquire_row:
  "try_acquire el now [] =
     (True, [\<lparr>lr_slot = 0, lr_holder = le_holder el, lr_expires_at = now + int (lc_expires_after (le_cfg el))\<rparr>])"
  "try_acquire el now [\<lparr>lr_slot = 0, lr_holder = h, lr_expires_at = e\<rparr>] =
     (if e < now \<or> h = le_holder el
      then (True, [\<lparr>lr_slot = 0, lr_holder = le_holder el,
                    lr_expires_at = now + int (lc_expires_after (le_cfg el))\<rparr>])
      else (False, [\<lparr>lr_slot = 0, lr_holder = h, lr_expires_at = e\<rparr>]))"
  by (auto simp: try_acquire_def Let_def rows_affected_def upd_where_def)

lemma renew_row:
  "renew el now [] = (False, [])"
  "renew el now [\<lparr>lr_slot = 0, lr_holder = h, lr_expires_at = e\<rparr>] =
     (if h = le_holder el
      then (True, [\<lparr>lr_slot = 0, lr_holder = h, lr_expires_at = now + int (lc_expires_after (le_cfg el))\<rparr>])
      else (False, [\<lparr>lr_slot = 0, lr_holder = h, lr_expires_at = e\<rparr>]))"
  by (auto simp: renew_def Let_def rows_affected_def upd_where_def)

lemma release_row:
  "release el [] = []"
  "release el [\<lparr>lr_slot = 0, lr_holder = h, lr_expires_at = e\<rparr>] =
     (if h = le_holder el then [] else [\<lparr>lr_slot = 0, lr_holder = h, lr_expires_at = e\<rparr>])"
  by (auto simp: release_def del_where_def)

lemmas leader_rows = try_acquire_row renew_row release_row

lemma cluster_ok_step: "cluster_ok s \<Longrightarrow> cluster_step s s' \<Longrightarrow> cluster_ok s'"
proof (erule cluster_okE)
  assume "cluster_step s s'" and t: "cl_table s = []"
    and "\<And>w e. cl_lease s w = Some e \<Longrightarrow> e < cl_clock s"
  then show "cluster_ok s'"
    by (cases rule: cluster_step.cases) (fastforce simp: cluster_ok_def leader_rows granted_def)+
next
  fix h x
  assume "cluster_step s s'" and t: "cl_table s = [\<lparr>lr_slot = 0, lr_holder = h, lr_expires_at = x\<rparr>]"
    and "\<And>w e. cl_lease s w = Some e \<Longrightarrow> cl_clock s \<le> e \<Longrightarrow> w = h \<and> e = x"
  then show "cluster_ok s'"
    by (cases rule: cluster_step.cases)
      (fastforce simp: cluster_ok_def leader_rows granted_def split: if_splits)+
qed

interpretation election: transition_system cluster_init cluster_step cluster_ok
proof
  show "cluster_ok s" if "cluster_init s" for s using that by (simp add: cluster_init_def cluster_ok_def)
qed (rule cluster_ok_step)

text \<open>C12: However the workers' acquisitions, renewals, releases and crashes interleave, and however late a
  statement runs after its clock reading, two workers never hold unexpired leases at once; and while a lease is
  unexpired, the health probe that reads the table sees a fresh leader.\<close>

theorem at_most_one_leader:
  assumes "reach cluster_init cluster_step s"
    and "cl_lease s w = Some e" "cl_clock s \<le> e"
  shows "(\<forall>w' e'. cl_lease s w' = Some e' \<and> cl_clock s \<le> e' \<longrightarrow> w' = w)
     \<and> (cl_clock s < e \<longrightarrow>
          worker_lease_fresh (map_option lr_expires_at (List.find (\<lambda>r. lr_slot r = 0) (cl_table s))) (cl_clock s)
          = Inr (Some True))"
  using election.reach_inv [OF assms(1)]
proof (cases rule: cluster_okE)
  case (row h x)
  from row(2) [OF assms(2,3)] row show ?thesis by (auto simp: worker_lease_fresh_def)
next
  case empty
  from empty(2) [OF assms(2)] assms(3) show ?thesis by simp
qed

theorem at_most_one_leader_witness:
  "\<exists>s. reach cluster_init cluster_step s \<and> cl_lease s ''a'' = Some 60000 \<and> cl_lease s ''b'' = None
     \<and> worker_lease_fresh (map_option lr_expires_at (List.find (\<lambda>r. lr_slot r = 0) (cl_table s))) (cl_clock s)
       = Inr (Some True)"
proof -
  let ?a = "\<lparr>le_holder = ''a'', le_cfg = leader_config_default\<rparr>"
  define s0 where "s0 = \<lparr>cl_clock = 0, cl_table = [], cl_lease = (\<lambda>_. None)\<rparr>"
  define s1 where "s1 = s0\<lparr>cl_table := [\<lparr>lr_slot = 0, lr_holder = ''a'', lr_expires_at = 60000\<rparr>],
    cl_lease := (cl_lease s0)(''a'' := Some 60000)\<rparr>"
  have step: "cluster_step s0 s1"
    using step_acquire [of 0 s0 ?a True] by (simp add: s0_def s1_def try_acquire_row leader_config_default_def granted_def)
  have r: "reach cluster_init cluster_step s1"
    using reach_step [of cluster_init cluster_step s0 s1] reach_init [of cluster_init s0 cluster_step] step
    by (simp add: cluster_init_def s0_def)
  have l: "cl_lease s1 ''a'' = Some 60000" "cl_clock s1 \<le> 60000" "cl_lease s1 ''b'' = None"
    by (simp_all add: s1_def s0_def)
  have "cl_clock s1 < 60000" by (simp add: s1_def s0_def)
  with at_most_one_leader [OF r l(1,2)] r l show ?thesis by (intro exI [of _ s1]) simp
qed

end
