(* ===== verification/Worker_Queue.thy ===== *)
theory Worker_Queue
  imports Worker_Leader
begin

text \<open>
  What the worker does to the queue: the fetcher and the acknowledger of
  \<open>gradatum-worker/src/apalis_backend.rs\<close>, and the periodic sweep, purge and dead-letter clean-up of
  \<open>gradatum-worker/src/schedules.rs\<close>.

  The runtime that runs the handlers is not part of the repository: what it hands back to the acknowledger
  (the outcome of the handler, the elapsed time and the number it counts the attempts of this task with) is an
  argument. The range of instants of the calendar library is an argument too (\<open>chrono_range\<close>): subtracting
  a duration from an instant panics when the result leaves the range, which is \<open>None\<close> here.
\<close>

subsection \<open>Fetcher and acknowledger\<close>

record gradatum_job =
  gj_record :: job_record
  gj_priority :: "8 word"

record gradatum_task =
  tk_args :: gradatum_job
  tk_job_id :: "ulid option"

definition record_to_task :: "job_record \<Rightarrow> gradatum_task" where
  "record_to_task r =
     \<lparr>tk_args = \<lparr>gj_record = r, gj_priority = as_u8 (js_priority (jr_spec r))\<rparr>, tk_job_id = Some (jr_id r)\<rparr>"

text \<open>One poll of the fetcher of the worker for \<open>kind\<close>: the pool is shared by all tenants.\<close>

definition fetch_poll :: "'p codec \<Rightarrow> time \<Rightarrow> time \<Rightarrow> string \<Rightarrow> ('p, gradatum_task option) op" where
  "fetch_poll c now now2 kind s =
     (case dequeue_by_kind c now now2 kind None s of
        (Inr (Some record), s') \<Rightarrow> (Inr (Some (record_to_task record)), s')
      | (Inr None, s') \<Rightarrow> (Inr None, s')
      | (Inl e, s') \<Rightarrow> (Inl e, s'))"

datatype ack_result = AckSuccess string | AckFailure string "32 word"

definition ack ::
  "'p codec \<Rightarrow> time \<Rightarrow> time \<Rightarrow> (string + job_output) \<Rightarrow> ulid option \<Rightarrow> nat option \<Rightarrow> nat \<Rightarrow> 'p store \<Rightarrow> 'p store" where
  "ack c now now2 res maybe_job_id elapsed_ms attempt_now s =
     (let duration_ms = (case elapsed_ms of None \<Rightarrow> 0 | Some n \<Rightarrow> word_of_nat n);
          attempt = word_of_nat attempt_now;
          result = (case res of
                      Inr output \<Rightarrow> AckSuccess (jo_result_note_md output)
                    | Inl e \<Rightarrow> AckFailure e attempt)
      in case maybe_job_id of
           None \<Rightarrow> s
         | Some job_id \<Rightarrow>
             case result of
               AckSuccess _ \<Rightarrow>
                 snd (complete c now now2 job_id
                   \<lparr>re_success = True, re_duration_ms = duration_ms, re_cost_usd = None,
                    re_result_note = None, re_conflict_payload = None\<rparr> s)
             | AckFailure err_msg att \<Rightarrow> snd (fail c now now2 job_id err_msg att s))"

subsection \<open>Sweep\<close>

text \<open>The queue and the idempotency table live in one database. The sweep reads the clock once (\<open>now\<close>); the
  recovery of leases reads it twice more (\<open>clk_r\<close>); errors are logged and the next step runs.\<close>

record 'p queue_db =
  db_store :: "'p store"
  db_idem :: "idem_row list"

definition ms_of :: "time \<Rightarrow> int" where
  "ms_of t = t div 10 ^ 6"

definition hours :: "int \<Rightarrow> time" where
  "hours n = secs (3600 * n)"

definition run_sweep_once ::
  "'p codec \<Rightarrow> time \<Rightarrow> time \<times> time \<Rightarrow> (ulid \<Rightarrow> time \<times> time) \<Rightarrow> time option \<Rightarrow> bool \<Rightarrow> 'p queue_db \<Rightarrow> 'p queue_db" where
  "run_sweep_once c now clk_r clk lease_ttl have_db d =
     (let s1 = snd (recover_stale_leases (fst clk_r) (snd clk_r) lease_ttl (db_store d));
          s2 = snd (cancel_expired_deadlines now s1);
          s3 = snd (promote_retries c now clk s2);
          s4 = snd (promote_stranded_waiting_jobs c s3)
      in \<lparr>db_store = s4,
          db_idem = (if have_db then snd (idempotency_cleanup (ms_of (now - hours 24)) (db_idem d))
                     else db_idem d)\<rparr>)"

subsection \<open>Dead-letter clean-up\<close>

record schedule_config =
  sg_name :: string
  sg_cron :: string
  sg_retention_days :: "32 word"

definition default_retention :: "32 word" where
  "default_retention = 30"

datatype config_error =
    NotANumber string
  | RetentionZero
  | PurgeAfterZero
  | CronUnparsable string string
  | PressureMinZero
  | MaxJobsZero
  | DuplicateSection string

text \<open>\<open>parsed\<close> is what the deserializer of a \<open>u32\<close> answers; an absent key takes the default.\<close>

definition deserialize_retention_days :: "string + 32 word \<Rightarrow> config_error + 32 word" where
  "deserialize_retention_days parsed =
     (case parsed of
        Inl e \<Rightarrow> Inl (NotANumber e)
      | Inr days \<Rightarrow> if days = 0 then Inl RetentionZero else Inr days)"

definition retention_key :: "(string + 32 word) option \<Rightarrow> config_error + 32 word" where
  "retention_key key =
     (case key of None \<Rightarrow> Inr default_retention | Some parsed \<Rightarrow> deserialize_retention_days parsed)"

record chrono_range =
  ch_min_utc :: time
  ch_duration_max :: time

definition chrono_sub :: "chrono_range \<Rightarrow> time \<Rightarrow> time \<Rightarrow> time option" where
  "chrono_sub ch t d = (if t - d < ch_min_utc ch then None else Some (t - d))"

definition cleanup_target :: "time \<Rightarrow> 'p row \<Rightarrow> bool" where
  "cleanup_target cutoff r =
     (r_status r = ''DLQ''
      \<and> (case r_completed_at r of Some t \<Rightarrow> t | None \<Rightarrow> r_created_at r) < cutoff)"

definition handle_cleanup_dlq :: "chrono_range \<Rightarrow> time \<Rightarrow> 32 word \<Rightarrow> 'p store \<Rightarrow> 'p store option" where
  "handle_cleanup_dlq ch now retention s =
     map_option (\<lambda>cutoff. s\<lparr>st_jobs := del_where (cleanup_target cutoff) (st_jobs s)\<rparr>)
       (chrono_sub ch now (hours (24 * uint retention)))"

subsection \<open>Purge tick\<close>

record queue_config =
  qc_purge_after_secs :: "64 word"
  qc_purge_interval_secs :: "64 word"

definition default_purge_after_secs :: "64 word" where
  "default_purge_after_secs = 86400"

definition default_purge_interval_secs :: "64 word" where
  "default_purge_interval_secs = 3600"

definition queue_config_default :: queue_config where
  "queue_config_default =
     \<lparr>qc_purge_after_secs = default_purge_after_secs, qc_purge_interval_secs = default_purge_interval_secs\<rparr>"

definition deserialize_purge_after_secs :: "string + 64 word \<Rightarrow> config_error + 64 word" where
  "deserialize_purge_after_secs parsed =
     (case parsed of
        Inl e \<Rightarrow> Inl (NotANumber e)
      | Inr n \<Rightarrow> if n = 0 then Inl PurgeAfterZero else Inr n)"

definition purge_interval :: "queue_config \<Rightarrow> time" where
  "purge_interval cfg = secs (uint (max (qc_purge_interval_secs cfg) 60))"

text \<open>\<open>from_std\<close> fails above the largest duration, which then stands in.\<close>

definition purge_cutoff :: "chrono_range \<Rightarrow> queue_config \<Rightarrow> time \<Rightarrow> time option" where
  "purge_cutoff ch cfg now =
     (let asked = secs (uint (qc_purge_after_secs cfg));
          after = (if asked \<le> ch_duration_max ch then asked else ch_duration_max ch)
      in chrono_sub ch now after)"

text \<open>One purge tick: \<open>None\<close> when computing the cutoff panics.\<close>

definition run_queue_purge_once ::
  "'p codec \<Rightarrow> chrono_range \<Rightarrow> queue_config \<Rightarrow> time \<Rightarrow> 'p store \<Rightarrow> (nat \<times> 'p store) option" where
  "run_queue_purge_once c ch cfg now s =
     (case purge_cutoff ch cfg now of
        None \<Rightarrow> None
      | Some cutoff \<Rightarrow>
          (case purge_terminal_payloads c (Some cutoff) s of
             (Inr purged, s') \<Rightarrow> Some (purged, s')
           | (Inl _, s') \<Rightarrow> Some (0, s')))"

subsection \<open>The sweep settles what is overdue\<close>

definition stale :: "time \<Rightarrow> 'p row \<Rightarrow> bool" where
  "stale bound r = (r_status r = ''Running'' \<and> (case r_lease_until r of None \<Rightarrow> False | Some l \<Rightarrow> l < bound))"

definition overdue :: "time \<Rightarrow> 'p row \<Rightarrow> bool" where
  "overdue now r = (not_terminal_row r \<and> (case r_deadline r of None \<Rightarrow> False | Some d \<Rightarrow> d < now))"

definition retry_due :: "time \<Rightarrow> 'p row \<Rightarrow> bool" where
  "retry_due now r = (r_status r = ''Failed'' \<and> r_scheduled_at r \<le> now)"

lemmas sweep_marks = stale_def overdue_def retry_due_def not_terminal_row_def TERMINAL_SQL_def

lemma recover_no_stale:
  "r \<in> set (st_jobs (snd (recover_stale_leases n n2 (Some ttl) s))) \<Longrightarrow> \<not> stale (n - ttl) r"
  by (auto simp: recover_stale_leases_def Let_def sweep_marks elim!: in_upd_whereE split: option.splits)

lemma cancel_expired_keeps:
  "r \<in> set (st_jobs (snd (cancel_expired_deadlines now s))) \<Longrightarrow>
   \<not> overdue now r \<and> (stale b r \<longrightarrow> r \<in> set (st_jobs s))"
  by (auto simp: cancel_expired_deadlines_def Let_def sweep_marks elim!: in_upd_whereE split: option.splits)

lemma dlq_row_deadline [simp]: "r_deadline (dlq_row c t e r) = r_deadline r"
  by (simp add: dlq_row_def Let_def)

lemma promote_retries_keeps:
  assumes "codec_ok c" "store_ok c s" "r \<in> set (st_jobs (snd (promote_retries c now clk s)))"
  shows "\<not> retry_due now r \<and> (stale b r \<longrightarrow> r \<in> set (st_jobs s))
    \<and> (overdue d r \<longrightarrow> (\<exists>x\<in>set (st_jobs s). overdue d x))"
  using assms(3) unfolding promote_retries_eq [OF assms(1,2)]
  by (auto simp: sweep_marks retry_row_def elim!: in_upd_whereE split: if_splits option.splits) force+

lemma promote_stranded_keeps:
  assumes "store_ok c s" "r \<in> set (st_jobs (snd (promote_stranded_waiting_jobs c s)))"
  shows "(retry_due now r \<longrightarrow> r \<in> set (st_jobs s)) \<and> (stale b r \<longrightarrow> r \<in> set (st_jobs s))
    \<and> (overdue d r \<longrightarrow> (\<exists>x\<in>set (st_jobs s). overdue d x))"
  using assms(2) unfolding promote_stranded_eq(1) [OF assms(1)]
  by (auto simp: sweep_marks elim!: in_upd_whereE split: option.splits) force+

lemma store_ok_sweep:
  assumes "codec_ok c" "store_ok c s"
  shows "store_ok c (snd (recover_stale_leases n n2 ttl s))" "store_ok c (snd (cancel_expired_deadlines now s))"
    "store_ok c (snd (promote_retries c now clk s))" "store_ok c (snd (promote_stranded_waiting_jobs c s))"
  using store_ok_exec [OF assms(1) _ assms(2), of "RecoverStale n n2 ttl"] store_ok_exec [OF assms(1) _ assms(2), of "CancelExpired now"]
    store_ok_exec [OF assms(1) _ assms(2), of "PromoteRetries now clk"] store_ok_exec [OF assms(1) _ assms(2), of PromoteStranded]
  by simp_all



subsection \<open>Failures acknowledged by the worker\<close>

text \<open>C37: Failed runs are not counted across leases. The acknowledger reports the number the runtime gives to
  the attempts of this one task, and the queue stores that number in place of its own counter: whatever the
  row had counted before, a run that fails with a number below the allowed maximum leaves a row that the next
  sweep puts back in the queue, with that same number and the same maximum. A job that always fails is
  therefore run again after every sweep and never reaches the dead-letter queue.\<close>

theorem failing_job_requeued_forever:
  assumes "codec_ok c" "store_ok c s" "r \<in> set (st_jobs s)" "r_status r = ''Running''" "lease_live now r"
    and "from_json c (r_payload r) = Inr a" "(word_of_nat att :: 32 word) < rt_max (jr_retry a)"
    and "r_scheduled_at r \<le> later"
  shows "\<exists>r'\<in>set (st_jobs (snd (promote_retries c later clk
            (ack c now now2 (Inl err) (Some (r_id r)) el att s)))). \<exists>b.
     r_id r' = r_id r \<and> r_status r' = ''Pending'' \<and> r_scheduled_at r' = later
     \<and> r_attempt_count r' = uint (word_of_nat att :: 32 word)
     \<and> from_json c (r_payload r') = Inr b \<and> rt_max (jr_retry b) = rt_max (jr_retry a)"
proof -
  let ?n = "word_of_nat att :: 32 word"
  let ?P = "\<lambda>x. r_id x = r_id r \<and> r_status x = ''Running'' \<and> lease_live now x"
  obtain p where p: "from_json c p = Inr (fail_record (take_chars 2048 err) ?n now2 a)"
    and eq: "fail c now now2 (r_id r) err ?n s = (Inr (), publish (JobFailed (r_id r) ?n) (s\<lparr>st_jobs := upd_where ?P
                 (\<lambda>x. x\<lparr>r_status := ''Failed'', r_lease_until := None,
                        r_last_error := Some (take_chars 2048 err),
                        r_attempt_count := uint ?n, r_payload := p\<rparr>) (st_jobs s)\<rparr>))"
    using assms(5,6) by (auto intro: fail_running [OF assms(1-4), of err ?n now2 now])
  define s' where "s' = ack c now now2 (Inl err) (Some (r_id r)) el att s"
  have s': "s' = snd (fail c now now2 (r_id r) err ?n s)" by (simp add: s'_def ack_def)
  have ok: "store_ok c s'"
    using store_ok_exec [OF assms(1) _ assms(2), of "Fail now now2 (r_id r) err ?n"] by (simp add: s')
  define f where "f = r\<lparr>r_status := ''Failed'', r_lease_until := None, r_last_error := Some (take_chars 2048 err),
      r_attempt_count := uint ?n, r_payload := p\<rparr>"
  have mem: "f \<in> set (st_jobs s')"
    using upd_where_at [OF assms(3), of ?P] assms(4,5) by (simp add: s' eq f_def)
  have max: "rt_max (jr_retry (fail_record m k t a)) = rt_max (jr_retry a)" for m k t
    by (simp add: fail_record_def Let_def)
  have "\<not> exhausted c f" using assms(7) by (simp add: exhausted_def f_def p max not_le)
  then have "f\<lparr>r_status := ''Pending'', r_scheduled_at := later\<rparr> \<in> set (st_jobs (snd (promote_retries c later clk s')))"
    unfolding promote_retries_eq [OF assms(1) ok]
    using upd_where_at [OF mem, of "\<lambda>r. r_status r = ''Failed'' \<and> r_scheduled_at r \<le> later" "retry_row c later clk"]
      assms(8)
    by (simp add: f_def retry_row_def)
  then show ?thesis
    unfolding s'_def [symmetric] by (rule bexI [rotated]) (simp add: f_def p max)
qed

theorem failing_job_requeued_forever_witness:
  "\<exists>r'\<in>set (st_jobs (snd (promote_retries plain_codec 9 (\<lambda>_. (9, 9))
      (ack plain_codec 5 6 (Inl ''boom'') (Some 1) None 1 busy_store)))).
     r_id r' = 1 \<and> r_status r' = ''Pending'' \<and> r_attempt_count r' = 1"
proof -
  let ?r = "leased_row 1 JobBackup (secs 300)"
  have r: "?r \<in> set (st_jobs busy_store)" "r_status ?r = ''Running''" "lease_live 5 ?r" "r_id ?r = 1"
    "r_scheduled_at ?r \<le> 9"
    by (simp_all add: busy_store_jobs lease_live_def secs_def)
      (simp add: leased_row_def lease_row_def sample_row_def new_row_def sample_job_def)
  have max: "(word_of_nat 1 :: 32 word) < rt_max (jr_retry (r_payload ?r))"
    by (simp add: job_retry_default_def leased_row_def lease_row_def word_less_nat_alt)
  have "from_json plain_codec (r_payload ?r) = Inr (r_payload ?r)" by simp
  from failing_job_requeued_forever [OF plain_codec_ok busy_store_ok r(1-3) this max r(5),
      of "\<lambda>_. (9, 9)" 6 "''boom''" None] r(4)
  show ?thesis by auto
qed

subsection \<open>Bounds of the destructive ticks\<close>

text \<open>With any retention that the configuration accepts, the daily clean-up deletes only dead-lettered rows
  that ended (or, if they carry no end, were created) more than a day ago; every other row, and every event,
  stays as it is.\<close>

theorem cleanup_deletes_only_old_dead_letters:
  assumes "retention_key key = Inr days" "handle_cleanup_dlq ch now days s = Some s'"
  shows "st_events s' = st_events s \<and> set (st_jobs s') \<subseteq> set (st_jobs s)
    \<and> (\<forall>r\<in>set (st_jobs s). r \<in> set (st_jobs s')
         \<or> r_status r = ''DLQ'' \<and> (case r_completed_at r of Some t \<Rightarrow> t | None \<Rightarrow> r_created_at r) < now - hours 24)"
proof -
  have "0 < days"
    using assms(1) by (auto simp: retention_key_def deserialize_retention_days_def default_retention_def
        word_gt_0 split: option.splits sum.splits if_splits)
  then have "1 \<le> uint days" by (simp add: word_less_def)
  then have "now - hours (24 * uint days) \<le> now - hours 24"
    by (simp add: hours_def secs_def)
  moreover have "s' = s\<lparr>st_jobs := del_where (cleanup_target (now - hours (24 * uint days))) (st_jobs s)\<rparr>"
    using assms(2) by (auto simp: handle_cleanup_dlq_def chrono_sub_def split: if_splits)
  ultimately show ?thesis by (auto simp: del_where_def cleanup_target_def split: option.splits)
qed

theorem cleanup_deletes_only_old_dead_letters_witness:
  "\<exists>s'. handle_cleanup_dlq \<lparr>ch_min_utc = - secs (10 ^ 13), ch_duration_max = secs (10 ^ 16)\<rparr> 9 30 failed_store = Some s'
     \<and> set (st_jobs s') \<subseteq> set (st_jobs failed_store)"
proof -
  let ?ch = "\<lparr>ch_min_utc = - secs (10 ^ 13), ch_duration_max = secs (10 ^ 16)\<rparr>"
  obtain s' where s': "handle_cleanup_dlq ?ch 9 30 failed_store = Some s'"
    by (simp add: handle_cleanup_dlq_def chrono_sub_def hours_def secs_def)
  have "retention_key None = Inr 30" by (simp add: retention_key_def default_retention_def)
  from cleanup_deletes_only_old_dead_letters [OF this s'] s' show ?thesis by blast
qed



end
