(* ===== verification/Worker_Distill.thy ===== *)
theory Worker_Distill
  imports Worker_Queue
begin

text \<open>
  The conditional distillation cron of \<open>gradatum-worker/src/schedules.rs\<close>: its configuration, the pure
  planning function, the tick and the handler that iterates over the vaults. The cron expression parser, the
  client that lists vaults and counts notes, the clock and the identifier generator are arguments.
\<close>

subsection \<open>Configuration\<close>

record distill_cron_config =
  dc_enabled :: bool
  dc_cron :: string
  dc_sections :: "string list"
  dc_pressure_min :: "64 word"
  dc_max_jobs_per_tick :: nat

definition distill_cron_config_default :: distill_cron_config where
  "distill_cron_config_default =
     \<lparr>dc_enabled = False, dc_cron = ''0 0 4 * * Sun'', dc_sections = [], dc_pressure_min = 20,
      dc_max_jobs_per_tick = 2\<rparr>"

definition schedule :: "(string \<Rightarrow> string + 'sched) \<Rightarrow> distill_cron_config \<Rightarrow> config_error + 'sched" where
  "schedule from_str cfg =
     (case from_str (dc_cron cfg) of Inl e \<Rightarrow> Inl (CronUnparsable (dc_cron cfg) e) | Inr x \<Rightarrow> Inr x)"

fun check_sections :: "string set \<Rightarrow> string list \<Rightarrow> config_error + unit" where
  "check_sections seen [] = Inr ()"
| "check_sections seen (x # xs) =
     (if x \<in> seen then Inl (DuplicateSection x) else check_sections (insert x seen) xs)"

definition validate :: "(string \<Rightarrow> string + 'sched) \<Rightarrow> distill_cron_config \<Rightarrow> config_error + unit" where
  "validate from_str cfg =
     (case schedule from_str cfg of
        Inl e \<Rightarrow> Inl e
      | Inr _ \<Rightarrow>
          if dc_pressure_min cfg = 0 then Inl PressureMinZero
          else if dc_max_jobs_per_tick cfg = 0 then Inl MaxJobsZero
          else check_sections {} (dc_sections cfg))"

subsection \<open>Planning\<close>

definition plan_distill_tick ::
  "(string \<times> 64 word option) list \<Rightarrow> string list \<Rightarrow> distill_cron_config \<Rightarrow> string list" where
  "plan_distill_tick pressures busy_sections cfg =
     take (dc_max_jobs_per_tick cfg)
       (List.map_filter
          (\<lambda>(section, p). case p of
             None \<Rightarrow> None
           | Some n \<Rightarrow> if dc_pressure_min cfg \<le> n then Some section else None)
          (filter (\<lambda>(section, _). section \<notin> set busy_sections) pressures))"

definition build_distill_job_record :: "time \<Rightarrow> ulid \<Rightarrow> string \<Rightarrow> string \<Rightarrow> bool \<Rightarrow> job_record" where
  "build_distill_job_record now i section tenant_id multi_tenant_enabled =
     \<lparr>jr_id = i,
      jr_spec =
        \<lparr>js_kind = JobDistill (distill_source_default\<lparr>di_scope := ScopeSection section\<rparr>),
         js_class = ClassSystem, js_mode = ModeBatch,
         js_scope = (if multi_tenant_enabled then ScopeVault tenant_id else ScopeSection section),
         js_priority = PriorityLow\<rparr>,
      jr_scheduling = \<lparr>sc_trigger = TriggerDemand, sc_scheduled_at = now, sc_await_jobs = [],
                       sc_deadline = None, sc_cron_expr = None\<rparr>,
      jr_lifecycle = \<lparr>lc_status = Pending, lc_created_at = now, lc_started_at = None,
                      lc_completed_at = None, lc_lease_until = None, lc_result = None\<rparr>,
      jr_retry = job_retry_default,
      jr_lineage = \<lparr>li_triggered_by = None, li_parent_job = None, li_pipeline_id = None,
                    li_pipeline_step = None, li_children = [], li_cost_usd = None\<rparr>\<rparr>"

definition busy_target :: "job_record \<Rightarrow> string list" where
  "busy_target record =
     (case js_kind (jr_spec record) of
        JobDistill src \<Rightarrow>
          (case di_scope src of ScopeSection section \<Rightarrow> [section] | ScopeLocus locus \<Rightarrow> [locus] | _ \<Rightarrow> [])
      | _ \<Rightarrow> [])"

definition in_flight_filter :: "job_status \<Rightarrow> job_filter" where
  "in_flight_filter st =
     job_filter_default\<lparr>jf_kind := Some ''Distill'', jf_status := Some st, jf_limit := 500\<rparr>"

fun read_busy_loop ::
  "'p codec \<Rightarrow> 'p store \<Rightarrow> job_status list \<Rightarrow> string list \<Rightarrow> (queue_error, string list) result" where
  "read_busy_loop c s [] busy = Inr busy"
| "read_busy_loop c s (st # sts) busy =
     (case list_jobs c (in_flight_filter st) s of
        Inl e \<Rightarrow> Inl e
      | Inr records \<Rightarrow> read_busy_loop c s sts (busy @ concat (map busy_target records)))"

definition read_busy_distill_loci :: "'p codec \<Rightarrow> 'p store \<Rightarrow> (queue_error, string list) result" where
  "read_busy_distill_loci c s = read_busy_loop c s [Pending, Running, Waiting] []"

subsection \<open>Tick and handler\<close>

fun enqueue_planned :: "(string \<Rightarrow> 's \<Rightarrow> bool \<times> 's) \<Rightarrow> string list \<Rightarrow> nat \<Rightarrow> 's \<Rightarrow> nat \<times> 's" where
  "enqueue_planned enq [] n s = (n, s)"
| "enqueue_planned enq (x # xs) n s =
     (let (ok, s') = enq x s in enqueue_planned enq xs (if ok then n + 1 else n) s')"

text \<open>The tick, over its four closures; the first result counts the calls of \<open>on_enqueued\<close>.\<close>

definition distill_cron_tick ::
  "distill_cron_config \<Rightarrow> ('s \<Rightarrow> 'e + string list) \<Rightarrow> (string \<Rightarrow> 64 word option)
   \<Rightarrow> (string \<Rightarrow> 's \<Rightarrow> bool \<times> 's) \<Rightarrow> 's \<Rightarrow> nat \<times> 's" where
  "distill_cron_tick cfg read_busy count_section enqueue_section s =
     (if \<not> dc_enabled cfg then (0, s)
      else if dc_sections cfg = [] then (0, s)
      else case read_busy s of
        Inl _ \<Rightarrow> (0, s)
      | Inr busy_sections \<Rightarrow>
          enqueue_planned enqueue_section
            (plan_distill_tick (map (\<lambda>section. (section, count_section section)) (dc_sections cfg))
               busy_sections cfg) 0 s)"

definition enqueue_section ::
  "'p codec \<Rightarrow> (string \<Rightarrow> string \<Rightarrow> time \<times> ulid) \<Rightarrow> bool \<Rightarrow> string \<Rightarrow> string \<Rightarrow> 'p store \<Rightarrow> bool \<times> 'p store" where
  "enqueue_section c fresh multi vault section s =
     (let (now, i) = fresh vault section in
      case enqueue c (build_distill_job_record now i section vault multi) s of
        (Inr _, s') \<Rightarrow> (True, s')
      | (Inl _, s') \<Rightarrow> (False, s'))"

fun distill_vaults ::
  "'p codec \<Rightarrow> distill_cron_config \<Rightarrow> (string \<Rightarrow> string \<Rightarrow> 64 word \<Rightarrow> 64 word option)
   \<Rightarrow> (string \<Rightarrow> string \<Rightarrow> time \<times> ulid) \<Rightarrow> bool \<Rightarrow> string list \<Rightarrow> nat \<Rightarrow> 'p store \<Rightarrow> nat \<times> 'p store" where
  "distill_vaults c cfg count fresh multi [] n s = (n, s)"
| "distill_vaults c cfg count fresh multi (vault # vaults) n s =
     (let (k, s') = distill_cron_tick cfg (read_busy_distill_loci c)
                      (\<lambda>section. count vault section (dc_pressure_min cfg))
                      (enqueue_section c fresh multi vault) s
      in distill_vaults c cfg count fresh multi vaults (n + k) s')"

definition handle_distill_cron ::
  "'p codec \<Rightarrow> distill_cron_config \<Rightarrow> bool \<Rightarrow> (string + string list)
   \<Rightarrow> (string \<Rightarrow> string \<Rightarrow> 64 word \<Rightarrow> 64 word option) \<Rightarrow> (string \<Rightarrow> string \<Rightarrow> time \<times> ulid)
   \<Rightarrow> 'p store \<Rightarrow> nat \<times> 'p store" where
  "handle_distill_cron c cfg multi active_vaults count fresh s =
     (if multi then
        (case active_vaults of
           Inl _ \<Rightarrow> (0, s)
         | Inr vaults \<Rightarrow> distill_vaults c cfg count fresh multi vaults 0 s)
      else distill_vaults c cfg count fresh multi [''main''] 0 s)"

subsection \<open>At most one job in flight per section\<close>

definition distill_row :: "'p row \<Rightarrow> bool" where
  "distill_row r = (r_kind r = ''Distill'')"

definition in_flight :: "'p codec \<Rightarrow> string \<Rightarrow> 'p row \<Rightarrow> bool" where
  "in_flight c section r \<longleftrightarrow>
     distill_row r \<and> r_status r \<in> {''Pending'', ''Running'', ''Waiting''}
     \<and> (case from_json c (r_payload r) of Inl _ \<Rightarrow> False | Inr a \<Rightarrow> section \<in> set (busy_target a))"

definition in_flight_count :: "'p codec \<Rightarrow> string \<Rightarrow> 'p store \<Rightarrow> nat" where
  "in_flight_count c section s = length (filter (in_flight c section) (st_jobs s))"

definition distill_rows :: "'p store \<Rightarrow> nat" where
  "distill_rows s = length (filter distill_row (st_jobs s))"

lemma validate_distinct: "validate from_str cfg = Inr () \<Longrightarrow> distinct (dc_sections cfg)"
proof -
  have "check_sections seen xs = Inr () \<Longrightarrow> distinct xs \<and> set xs \<inter> seen = {}" for seen xs
    by (induction seen xs rule: check_sections.induct) (auto split: if_splits)
  then show "validate from_str cfg = Inr () \<Longrightarrow> distinct (dc_sections cfg)"
    by (auto simp: validate_def split: sum.splits if_splits)
qed

lemma plan_props:
  assumes "distinct (map fst ps)"
  shows "distinct (plan_distill_tick ps busy cfg)" "length (plan_distill_tick ps busy cfg) \<le> dc_max_jobs_per_tick cfg"
    "set (plan_distill_tick ps busy cfg) \<inter> set busy = {}"
proof -
  let ?f = "\<lambda>(section, p). case p of None \<Rightarrow> None
      | Some n \<Rightarrow> if dc_pressure_min cfg \<le> n then Some section else None"
  have sub: "set (List.map_filter ?f qs) \<subseteq> fst ` set qs" for qs
    by (force simp: map_filter_def split: option.splits if_splits)
  have "distinct (map fst qs) \<Longrightarrow> distinct (List.map_filter ?f qs)" for qs
  proof (induction qs)
    case (Cons q qs)
    with sub [of qs] show ?case
      by (cases q) (auto simp: map_filter_simps split: option.splits if_splits)
  qed (simp add: map_filter_simps)
  from this [of "filter (\<lambda>(section, _). section \<notin> set busy) ps"] assms
  show "distinct (plan_distill_tick ps busy cfg)"
    by (simp add: plan_distill_tick_def distinct_map_filter)
  show "length (plan_distill_tick ps busy cfg) \<le> dc_max_jobs_per_tick cfg"
    by (simp add: plan_distill_tick_def)
  show "set (plan_distill_tick ps busy cfg) \<inter> set busy = {}"
    using sub [of "filter (\<lambda>(section, _). section \<notin> set busy) ps"]
    by (force simp: plan_distill_tick_def dest: in_set_takeD)
qed

lemma list_jobs_in_flight:
  assumes "distill_rows s \<le> 500" "list_jobs c (in_flight_filter st) s = Inr records"
    and "r \<in> set (st_jobs s)" "distill_row r" "r_status r = status_to_str st" "from_json c (r_payload r) = Inr a"
  shows "a \<in> set records"
proof -
  let ?P = "list_match (in_flight_filter st)"
  have "filter ?P (st_jobs s) = filter ?P (filter distill_row (st_jobs s))"
    by (auto simp: list_match_def in_flight_filter_def distill_row_def opt_eq_def intro: filter_cong)
  then have "length (filter ?P (st_jobs s)) \<le> length (filter distill_row (st_jobs s))"
    by (metis length_filter_le)
  with assms(1) have le: "length (filter ?P (st_jobs s)) \<le> 500" by (simp add: distill_rows_def)
  have "?P r" using assms(4,5)
    by (simp add: list_match_def in_flight_filter_def distill_row_def opt_eq_def job_filter_default_def
        after_bound_def before_opt_def)
  moreover have "set (list_rows (in_flight_filter st) (st_jobs s)) = set (filter ?P (st_jobs s))"
    using le by (simp add: list_rows_def in_flight_filter_def job_filter_default_def select_page_def)
  ultimately have "r \<in> set (list_rows (in_flight_filter st) (st_jobs s))" using assms(3) by simp
  moreover from assms(2) have "map (\<lambda>r. deserialize_record c (r_payload r)) (list_rows (in_flight_filter st) (st_jobs s))
      = map Inr records"
    by (simp add: list_jobs_def collect_results_Inr)
  ultimately have "deserialize_record c (r_payload r) \<in> set (map Inr records)"
    by (metis (no_types, lifting) image_eqI list.set_map)
  with assms(6) show ?thesis by (auto simp: deserialize_record_def)
qed

lemma read_busy_mono: "read_busy_loop c s sts busy = Inr busy' \<Longrightarrow> set busy \<subseteq> set busy'"
  by (induction sts arbitrary: busy) (fastforce split: sum.splits)+

lemma read_busy_complete:
  assumes "distill_rows s \<le> 500" "read_busy_distill_loci c s = Inr busy" "section \<notin> set busy"
  shows "in_flight_count c section s = 0"
proof -
  have found: "section \<in> set busy'"
    if "read_busy_loop c s sts acc = Inr busy'" "st \<in> set sts" "r \<in> set (st_jobs s)" "distill_row r"
      "r_status r = status_to_str st" "from_json c (r_payload r) = Inr a" "section \<in> set (busy_target a)"
    for sts acc busy' st r a
    using that(1,2)
  proof (induction sts arbitrary: acc)
    case (Cons x sts)
    then obtain records where rec: "list_jobs c (in_flight_filter x) s = Inr records"
      and rest: "read_busy_loop c s sts (acc @ concat (map busy_target records)) = Inr busy'"
      by (auto split: sum.splits)
    show ?case
    proof (cases "x = st")
      case True
      from list_jobs_in_flight [OF assms(1) rec, of r a] that True have "a \<in> set records" by simp
      with read_busy_mono [OF rest] that(7) show ?thesis by auto
    next
      case False
      with Cons show ?thesis using rest by simp
    qed
  qed simp
  note busy = found [OF assms(2) [unfolded read_busy_distill_loci_def]]
  have "\<not> in_flight c section r" if "r \<in> set (st_jobs s)" for r
    using busy [OF _ that, of Pending] busy [OF _ that, of Running] busy [OF _ that, of Waiting] assms(3)
    by (auto simp: in_flight_def split: sum.splits)
  then show ?thesis by (simp add: in_flight_count_def)
qed

lemma enqueue_section_effect:
  assumes "codec_ok c" "enqueue_section c fresh multi vault section s = (ok, s')"
  shows "in_flight_count c x s' = in_flight_count c x s + (if ok \<and> x = section then 1 else 0)"
    "distill_rows s' \<le> distill_rows s + 1"
proof -
  obtain now i where f: "fresh vault section = (now, i)" by (cases "fresh vault section")
  let ?job = "build_distill_job_record now i section vault multi"
  obtain p where p: "serialize_record c ?job = Inr p" "deserialize_record c p = Inr ?job"
    by (rule codec_ok_serialize [OF assms(1)])
  have target: "busy_target ?job = [section]" "job_kind_str (js_kind (jr_spec ?job)) = ''Distill''"
    "lc_status (jr_lifecycle ?job) = Pending"
    by (simp_all add: busy_target_def build_distill_job_record_def)
  have flight: "in_flight c x (new_row ?job p) \<longleftrightarrow> x = section" for x
    using p(2) [unfolded deserialize_Inr] by (simp add: in_flight_def distill_row_def new_row_def target)
  show "in_flight_count c x s' = in_flight_count c x s + (if ok \<and> x = section then 1 else 0)"
    "distill_rows s' \<le> distill_rows s + 1"
    using assms(2) f p(1)
    by (auto simp: enqueue_section_def enqueue_def publish_def in_flight_count_def distill_rows_def flight
        split: if_splits)
qed

lemma enqueue_planned_effect:
  assumes "codec_ok c"
  shows "distinct xs \<Longrightarrow> enqueue_planned (enqueue_section c fresh multi vault) xs n s = (k, s') \<Longrightarrow>
    distill_rows s' \<le> distill_rows s + length xs \<and> k \<le> n + length xs
    \<and> in_flight_count c x s' \<le> in_flight_count c x s + (if x \<in> set xs then 1 else 0)"
proof (induction xs arbitrary: n s)
  case (Cons y ys)
  obtain ok s1 where s1: "enqueue_section c fresh multi vault y s = (ok, s1)" by fastforce
  with Cons.prems(2)
  have "enqueue_planned (enqueue_section c fresh multi vault) ys (if ok then n + 1 else n) s1 = (k, s')" by simp
  from Cons.IH [OF _ this] Cons.prems(1) enqueue_section_effect [OF assms s1] show ?case
    by (auto split: if_splits)
qed simp

text \<open>What a tick keeps: one job in flight per section, and room in the listing.\<close>

lemma tick_effect:
  assumes "codec_ok c" "distinct (dc_sections cfg)" "distill_rows s \<le> 500"
    and "distill_cron_tick cfg (read_busy_distill_loci c) count (enqueue_section c fresh multi vault) s = (k, s')"
  shows "distill_rows s' \<le> distill_rows s + dc_max_jobs_per_tick cfg \<and> k \<le> dc_max_jobs_per_tick cfg
    \<and> in_flight_count c x s' \<le> max 1 (in_flight_count c x s)"
proof (cases "dc_enabled cfg \<and> dc_sections cfg \<noteq> [] \<and> (\<exists>busy. read_busy_distill_loci c s = Inr busy)")
  case True
  then obtain busy where busy: "read_busy_distill_loci c s = Inr busy" by blast
  let ?plan = "plan_distill_tick (map (\<lambda>section. (section, count section)) (dc_sections cfg)) busy cfg"
  have "distinct (map fst (map (\<lambda>section. (section, count section)) (dc_sections cfg)))"
    using assms(2) by (simp add: comp_def)
  note plan = plan_props [OF this, of busy cfg]
  have "enqueue_planned (enqueue_section c fresh multi vault) ?plan 0 s = (k, s')"
    using assms(4) True busy by (simp add: distill_cron_tick_def)
  note eff = enqueue_planned_effect [OF assms(1) plan(1) this]
  have "in_flight_count c x s = 0" if "x \<in> set ?plan"
    by (rule read_busy_complete [OF assms(3) busy]) (use plan(3) that in auto)
  with eff [of x] plan(2) show ?thesis by (auto split: if_splits)
next
  case False
  then have "distill_cron_tick cfg (read_busy_distill_loci c) count (enqueue_section c fresh multi vault) s = (0, s)"
    by (cases "read_busy_distill_loci c s") (auto simp: distill_cron_tick_def)
  with assms(4) show ?thesis by simp
qed

lemma distill_vaults_effect:
  assumes "codec_ok c" "distinct (dc_sections cfg)"
  shows "distill_rows s + length vaults * dc_max_jobs_per_tick cfg \<le> 500 \<Longrightarrow>
    distill_vaults c cfg count fresh multi vaults n s = (k, s') \<Longrightarrow>
    k \<le> n + length vaults * dc_max_jobs_per_tick cfg
    \<and> in_flight_count c x s' \<le> max 1 (in_flight_count c x s)"
proof (induction vaults arbitrary: n s)
  case (Cons v vs)
  obtain j s1 where s1: "distill_cron_tick cfg (read_busy_distill_loci c)
      (\<lambda>section. count v section (dc_pressure_min cfg)) (enqueue_section c fresh multi v) s = (j, s1)"
    by fastforce
  from tick_effect [OF assms _ s1, of x] Cons.prems(1)
  have e: "distill_rows s1 \<le> distill_rows s + dc_max_jobs_per_tick cfg" "j \<le> dc_max_jobs_per_tick cfg"
    "in_flight_count c x s1 \<le> max 1 (in_flight_count c x s)" by simp_all
  from Cons.prems(2) s1 have "distill_vaults c cfg count fresh multi vs (n + j) s1 = (k, s')" by simp
  from Cons.IH [OF _ this] e Cons.prems(1) show ?case by auto
qed simp

text \<open>Whatever the pressures, the vaults and the failures of single calls, a run of the distillation cron
  under a validated configuration never puts a second job in flight for a section that has one, and enqueues at
  most the configured number of jobs per vault, as long as the listing it deduplicates with (500 rows per status)
  is not cut off. The deduplication does not look at the vault: one section has one job in flight across all
  vaults together.\<close>

theorem distill_one_job_per_section:
  assumes "codec_ok c" "validate from_str cfg = Inr ()"
    and "length vaults * dc_max_jobs_per_tick cfg + distill_rows s \<le> 500"
    and "in_flight_count c section s \<le> 1"
    and "handle_distill_cron c cfg True (Inr vaults) count fresh s = (k, s')"
  shows "in_flight_count c section s' \<le> 1 \<and> k \<le> length vaults * dc_max_jobs_per_tick cfg"
  using distill_vaults_effect [OF assms(1) validate_distinct [OF assms(2)], of s vaults count fresh True 0 k s' "section"]
    assms(3-5)
  by (simp add: handle_distill_cron_def)

text \<open>Two vaults with pressure on the same section: the first is served, the second is not.\<close>

definition sample_cron :: distill_cron_config where
  "sample_cron = \<lparr>dc_enabled = True, dc_cron = ''0 0 4 * * Sun'', dc_sections = [''debug''], dc_pressure_min = 1,
     dc_max_jobs_per_tick = 2\<rparr>"

theorem distill_one_job_per_section_witness:
  "in_flight_count plain_codec ''debug'' (snd (handle_distill_cron plain_codec sample_cron True
     (Inr [''a'', ''b'']) (\<lambda>_ _ _. Some 9) (\<lambda>v _. (5, length v)) (sample_store []))) \<le> 1"
proof -
  obtain k s' where r: "handle_distill_cron plain_codec sample_cron True (Inr [''a'', ''b'']) (\<lambda>_ _ _. Some 9)
      (\<lambda>v _. (5, length v)) (sample_store []) = (k, s')" by fastforce
  have v: "validate (\<lambda>_. Inr ()) sample_cron = Inr ()"
    by (simp add: validate_def schedule_def sample_cron_def)
  from distill_one_job_per_section [OF plain_codec_ok v _ _ r, of "''debug''"] r show ?thesis
    by (simp add: sample_cron_def distill_rows_def in_flight_count_def sample_store_def)
qed

end
