(* ===== verification/Breaker.thy ===== *)
theory Breaker
  imports Prelude Complex_Main
begin

text \<open>
  The three circuit breakers of the workspace: the per-provider breaker of the gateway
  (\<open>gradatum-gateway/src/commons/circuit_breaker.rs\<close>) with its registry, the decorator of the chat backends
  (\<open>gradatum-chat/src/circuit_breaker.rs\<close>) and the decorator of the curator backends
  (\<open>gradatum-chat/src/circuit_breaker_llm.rs\<close>). A call is split where other calls can run in between: the
  decision to let it through, and the report of its outcome. Clock readings are arguments; what the protected
  backend answers is an argument.
\<close>

subsection \<open>Interface\<close>

text \<open>What every breaker promises its caller: while it is blocked, a request is turned away without a trace.
  \<open>admit\<close> returns whether the request reaches the backend, \<open>blocked_until\<close> the end of the current block.\<close>

fun ask_all :: "('t \<Rightarrow> 's \<Rightarrow> bool \<times> 's) \<Rightarrow> 't list \<Rightarrow> 's \<Rightarrow> 't list \<times> 's" where
  "ask_all admit [] s = ([], s)"
| "ask_all admit (t # ts) s =
     (let (ok, s') = admit t s; (passed, s'') = ask_all admit ts s' in
      (if ok then t # passed else passed, s''))"

locale breaker =
  fixes admit :: "'t::linorder \<Rightarrow> 's \<Rightarrow> bool \<times> 's"
    and blocked_until :: "'s \<Rightarrow> 't option"
  assumes blocked: "blocked_until s = Some u \<Longrightarrow> t < u \<Longrightarrow> admit t s = (False, s)"
begin

lemma blocked_all:
  "blocked_until s = Some u \<Longrightarrow> \<forall>t\<in>set ts. t < u \<Longrightarrow> ask_all admit ts s = ([], s)"
  by (induction ts) (simp_all add: blocked)

end

text \<open>A breaker with a probe slot lets one request through at the end of the block and none while that request
  is on its way.\<close>

locale single_probe = breaker admit blocked_until
  for admit :: "'t::linorder \<Rightarrow> 's \<Rightarrow> bool \<times> 's" and blocked_until :: "'s \<Rightarrow> 't option" +
  fixes probing :: "'s \<Rightarrow> bool"
  assumes unblocked: "blocked_until s = Some u \<Longrightarrow> u \<le> t \<Longrightarrow> fst (admit t s) \<and> probing (snd (admit t s))"
    and taken: "probing s \<Longrightarrow> \<not> fst (admit t s) \<and> probing (snd (admit t s))"
begin

lemma none_while_probing: "probing s \<Longrightarrow> fst (ask_all admit ts s) = []"
  by (induction ts arbitrary: s) (simp_all add: taken split: prod.split, metis fst_conv snd_conv taken)

lemma one_probe:
  "blocked_until s = Some u \<Longrightarrow> fst (ask_all admit ts s) = take 1 (filter (\<lambda>t. u \<le> t) ts)"
proof (induction ts)
  case (Cons t ts)
  show ?case
  proof (cases "u \<le> t")
    case True
    obtain ok s' where a: "admit t s = (ok, s')" by fastforce
    with unblocked [OF Cons.prems True] have "ok" "probing s'" by simp_all
    with True a none_while_probing [of s' ts] show ?thesis by (simp add: case_prod_beta)
  next
    case False
    with Cons blocked [OF Cons.prems] show ?thesis by (simp add: case_prod_beta)
  qed
qed simp

end

subsection \<open>Gateway breaker\<close>

datatype llm_error =
    LlmNetwork string
  | LlmTimeout rat
  | LlmHttp "16 word" string
  | LlmInvalidRequest string
  | LlmUnauthorized string
  | LlmForbidden string
  | LlmNotFound string
  | LlmRateLimited "32 word option" string
  | LlmQuotaExceeded string
  | LlmUpstreamError "16 word" string
  | LlmProviderUnavailable string string
  | LlmAllProvidersFailed "string list"
  | LlmSerialization string
  | LlmToolValidation string string
  | LlmCustom string

datatype circuit_state = Closed | Open | HalfOpen

record circuit_breaker_config =
  cb_threshold :: "32 word"
  cb_window :: time
  cb_cooldown :: time

definition circuit_breaker_config_default :: circuit_breaker_config where
  "circuit_breaker_config_default = \<lparr>cb_threshold = 5, cb_window = secs 60, cb_cooldown = secs 30\<rparr>"

definition aggressive :: circuit_breaker_config where
  "aggressive = \<lparr>cb_threshold = 3, cb_window = secs 10, cb_cooldown = secs 5\<rparr>"

record breaker_inner =
  bi_state :: circuit_state
  bi_failure_timestamps :: "time list"
  bi_opened_at :: "time option"
  bi_half_open_probe_in_flight :: bool

definition new_breaker :: breaker_inner where
  "new_breaker = \<lparr>bi_state = Closed, bi_failure_timestamps = [], bi_opened_at = None,
                  bi_half_open_probe_in_flight = False\<rparr>"

text \<open>The time between two readings of the monotonic clock, zero when they are out of order.\<close>

definition elapsed :: "time \<Rightarrow> time \<Rightarrow> time" where
  "elapsed now t = max 0 (now - t)"

definition evaluate_state_transition :: "circuit_breaker_config \<Rightarrow> time \<Rightarrow> breaker_inner \<Rightarrow> breaker_inner" where
  "evaluate_state_transition cfg now b =
     (case bi_opened_at b of
        Some o_at \<Rightarrow>
          if bi_state b = Open \<and> cb_cooldown cfg \<le> elapsed now o_at
          then b\<lparr>bi_state := HalfOpen, bi_half_open_probe_in_flight := False\<rparr> else b
      | None \<Rightarrow> b)"

definition evict_stale_failures :: "circuit_breaker_config \<Rightarrow> time \<Rightarrow> breaker_inner \<Rightarrow> breaker_inner" where
  "evict_stale_failures cfg now b =
     b\<lparr>bi_failure_timestamps := filter (\<lambda>ts. elapsed now ts < cb_window cfg) (bi_failure_timestamps b)\<rparr>"

definition breaker_state :: "circuit_breaker_config \<Rightarrow> time \<Rightarrow> breaker_inner \<Rightarrow> circuit_state \<times> breaker_inner" where
  "breaker_state cfg now b = (let b' = evaluate_state_transition cfg now b in (bi_state b', b'))"

definition should_allow :: "circuit_breaker_config \<Rightarrow> time \<Rightarrow> breaker_inner \<Rightarrow> bool \<times> breaker_inner" where
  "should_allow cfg now b =
     (let b' = evaluate_state_transition cfg now b in
      case bi_state b' of
        Closed \<Rightarrow> (True, b')
      | Open \<Rightarrow> (False, b')
      | HalfOpen \<Rightarrow>
          if bi_half_open_probe_in_flight b' then (False, b')
          else (True, b'\<lparr>bi_half_open_probe_in_flight := True\<rparr>))"

definition record_success :: "breaker_inner \<Rightarrow> breaker_inner" where
  "record_success b =
     (case bi_state b of
        Closed \<Rightarrow> b\<lparr>bi_failure_timestamps := []\<rparr>
      | HalfOpen \<Rightarrow> b\<lparr>bi_state := Closed, bi_failure_timestamps := [], bi_opened_at := None,
                       bi_half_open_probe_in_flight := False\<rparr>
      | Open \<Rightarrow> b)"

fun counts_as_circuit_failure :: "llm_error \<Rightarrow> bool" where
  "counts_as_circuit_failure (LlmNetwork _) = True"
| "counts_as_circuit_failure (LlmTimeout _) = True"
| "counts_as_circuit_failure (LlmRateLimited _ _) = True"
| "counts_as_circuit_failure (LlmUpstreamError _ _) = True"
| "counts_as_circuit_failure _ = False"

definition record_failure :: "circuit_breaker_config \<Rightarrow> time \<Rightarrow> llm_error \<Rightarrow> breaker_inner \<Rightarrow> breaker_inner" where
  "record_failure cfg now e b =
     (if \<not> counts_as_circuit_failure e then b
      else case bi_state b of
        Closed \<Rightarrow>
          let b1 = evict_stale_failures cfg now
                     (b\<lparr>bi_failure_timestamps := bi_failure_timestamps b @ [now]\<rparr>) in
          if unat (cb_threshold cfg) \<le> length (bi_failure_timestamps b1)
          then b1\<lparr>bi_state := Open, bi_opened_at := Some now, bi_failure_timestamps := []\<rparr>
          else b1
      | HalfOpen \<Rightarrow> b\<lparr>bi_state := Open, bi_opened_at := Some now,
                       bi_half_open_probe_in_flight := False, bi_failure_timestamps := []\<rparr>
      | Open \<Rightarrow> b\<lparr>bi_opened_at := Some now\<rparr>)"

definition failure_count :: "circuit_breaker_config \<Rightarrow> time \<Rightarrow> breaker_inner \<Rightarrow> nat \<times> breaker_inner" where
  "failure_count cfg now b =
     (let b' = evict_stale_failures cfg now b in (length (bi_failure_timestamps b'), b'))"

text \<open>The registry: one breaker per provider, created on first use.\<close>

type_synonym registry = "string \<rightharpoonup> breaker_inner"

definition entry :: "string \<Rightarrow> registry \<Rightarrow> breaker_inner" where
  "entry p m = (case m p of Some b \<Rightarrow> b | None \<Rightarrow> new_breaker)"

definition reg_should_allow :: "circuit_breaker_config \<Rightarrow> time \<Rightarrow> string \<Rightarrow> registry \<Rightarrow> bool \<times> registry" where
  "reg_should_allow cfg now p m = (let (ok, b) = should_allow cfg now (entry p m) in (ok, m(p \<mapsto> b)))"

definition reg_record_success :: "string \<Rightarrow> registry \<Rightarrow> registry" where
  "reg_record_success p m = m(p \<mapsto> record_success (entry p m))"

definition reg_record_failure ::
  "circuit_breaker_config \<Rightarrow> time \<Rightarrow> string \<Rightarrow> llm_error \<Rightarrow> registry \<Rightarrow> registry" where
  "reg_record_failure cfg now p e m = m(p \<mapsto> record_failure cfg now e (entry p m))"

definition reg_state :: "circuit_breaker_config \<Rightarrow> time \<Rightarrow> string \<Rightarrow> registry \<Rightarrow> circuit_state \<times> registry" where
  "reg_state cfg now p m =
     (case m p of
        Some b \<Rightarrow> (let (st, b') = breaker_state cfg now b in (st, m(p \<mapsto> b')))
      | None \<Rightarrow> (Closed, m))"

subsection \<open>Chat breaker\<close>

text \<open>Milliseconds since the epoch, as unsigned 64-bit numbers; the offset of the test clock is zero.\<close>

record chat_breaker =
  cc_max_consecutive_failures :: "32 word"
  cc_cooldown_ms :: "64 word"
  cc_failures :: "32 word"
  cc_open_until_ms :: "64 word"

definition new_chat_breaker :: chat_breaker where
  "new_chat_breaker = \<lparr>cc_max_consecutive_failures = 3, cc_cooldown_ms = 300000, cc_failures = 0, cc_open_until_ms = 0\<rparr>"

definition chat_is_open :: "64 word \<Rightarrow> chat_breaker \<Rightarrow> bool" where
  "chat_is_open now b = (0 < cc_open_until_ms b \<and> now < cc_open_until_ms b)"

datatype ('v, 'e) chat_answer = ChatVerdict 'v | ChatFailed 'e | ChatCircuitOpen

text \<open>\<open>classify_curator\<close>, run without interleaving: \<open>now\<close> is the reading of the guard, \<open>now2\<close> the one taken
  after the backend has answered \<open>res\<close>.\<close>

definition classify_curator ::
  "64 word \<Rightarrow> 64 word \<Rightarrow> 'e + 'v \<Rightarrow> chat_breaker \<Rightarrow> ('v, 'e) chat_answer \<times> chat_breaker" where
  "classify_curator now now2 res b =
     (if chat_is_open now b then (ChatCircuitOpen, b)
      else case res of
        Inr verdict \<Rightarrow> (ChatVerdict verdict, b\<lparr>cc_failures := 0, cc_open_until_ms := 0\<rparr>)
      | Inl e \<Rightarrow>
          let failures = cc_failures b + 1; b1 = b\<lparr>cc_failures := failures\<rparr> in
          if cc_max_consecutive_failures b \<le> failures
          then (ChatFailed e, b1\<lparr>cc_open_until_ms := now2 + cc_cooldown_ms b, cc_failures := 0\<rparr>)
          else (ChatFailed e, b1))"

subsection \<open>Curator breaker\<close>

datatype backend_error =
    BeTimeout | BeConnectionRefused | BeDnsFailure string | BeRateLimit | BeServerError "16 word" string
  | BeAuthError | BeBadRequest string | BeParse string | BeTransport string

fun counts_for_circuit :: "backend_error \<Rightarrow> bool" where
  "counts_for_circuit BeAuthError = False"
| "counts_for_circuit (BeBadRequest _) = False"
| "counts_for_circuit _ = True"

record circuit_config =
  ci_failure_threshold :: "32 word"
  ci_failure_window :: int
  ci_open_durations :: "int list"
  ci_success_threshold :: "32 word"

definition circuit_config_default :: circuit_config where
  "circuit_config_default =
     \<lparr>ci_failure_threshold = 5, ci_failure_window = 60000, ci_open_durations = [30000, 60000, 120000, 300000],
      ci_success_threshold = 2\<rparr>"

record llm_breaker =
  lb_failures :: "int list"
  lb_open_until :: int
  lb_consecutive_successes :: "32 word"
  lb_open_count :: "32 word"
  lb_probe_inflight :: bool

definition new_llm_breaker :: llm_breaker where
  "new_llm_breaker = \<lparr>lb_failures = [], lb_open_until = 0, lb_consecutive_successes = 0, lb_open_count = 0,
                      lb_probe_inflight = False\<rparr>"

definition is_open :: "int \<Rightarrow> llm_breaker \<Rightarrow> bool" where
  "is_open now b = (0 < lb_open_until b \<and> now < lb_open_until b)"

definition is_half_open :: "int \<Rightarrow> llm_breaker \<Rightarrow> bool" where
  "is_half_open now b = (0 < lb_open_until b \<and> lb_open_until b \<le> now)"

text \<open>\<open>None\<close> is the panic of \<open>len() - 1\<close> on an empty list of durations.\<close>

definition open_duration :: "circuit_config \<Rightarrow> 32 word \<Rightarrow> int option" where
  "open_duration cfg count =
     (if ci_open_durations cfg = [] then None
      else Some (ci_open_durations cfg ! min (unat count) (length (ci_open_durations cfg) - 1)))"

definition trip_open :: "circuit_config \<Rightarrow> int \<Rightarrow> llm_breaker \<Rightarrow> llm_breaker option" where
  "trip_open cfg now b =
     map_option (\<lambda>dur. b\<lparr>lb_open_count := lb_open_count b + 1, lb_open_until := now + dur,
                        lb_consecutive_successes := 0\<rparr>)
       (open_duration cfg (lb_open_count b))"

definition llm_record_failure :: "circuit_config \<Rightarrow> int \<Rightarrow> llm_breaker \<Rightarrow> llm_breaker option" where
  "llm_record_failure cfg now b =
     (let kept = dropWhile (\<lambda>front. ci_failure_window cfg < max 0 (now - front)) (lb_failures b) @ [now] in
      if ci_failure_threshold cfg \<le> word_of_nat (length kept)
      then trip_open cfg now (b\<lparr>lb_failures := []\<rparr>)
      else Some (b\<lparr>lb_failures := kept\<rparr>))"

definition llm_record_success :: "circuit_config \<Rightarrow> int \<Rightarrow> llm_breaker \<Rightarrow> llm_breaker" where
  "llm_record_success cfg now b =
     (let successes = lb_consecutive_successes b + 1;
          b1 = b\<lparr>lb_failures := [], lb_consecutive_successes := successes\<rparr> in
      if ci_success_threshold cfg \<le> successes \<and> is_half_open now b1
      then b1\<lparr>lb_open_until := 0, lb_open_count := 0, lb_consecutive_successes := 0\<rparr>
      else b1)"

datatype call_phase = ToFallback | AsProbe | AsNormal

datatype 'd call_answer = Decision 'd | FromFallback | Refused backend_error

definition start_classify :: "int \<Rightarrow> llm_breaker \<Rightarrow> call_phase \<times> llm_breaker" where
  "start_classify now b =
     (if is_open now b then (ToFallback, b)
      else if is_half_open now b then
        (if lb_probe_inflight b then (ToFallback, b) else (AsProbe, b\<lparr>lb_probe_inflight := True\<rparr>))
      else (AsNormal, b))"

text \<open>The rest of the call once the backend has answered; the fallback is asked where the answer says so.\<close>

definition finish_classify ::
  "circuit_config \<Rightarrow> int \<Rightarrow> call_phase \<Rightarrow> backend_error + 'd \<Rightarrow> llm_breaker
   \<Rightarrow> ('d call_answer \<times> llm_breaker) option" where
  "finish_classify cfg now phase res b =
     (case phase of
        ToFallback \<Rightarrow> Some (FromFallback, b)
      | AsProbe \<Rightarrow>
          let b1 = b\<lparr>lb_probe_inflight := False\<rparr> in
          (case res of
             Inr d \<Rightarrow> Some (Decision d, llm_record_success cfg now b1)
           | Inl e \<Rightarrow> if counts_for_circuit e then map_option (Pair FromFallback) (trip_open cfg now b1)
                      else Some (Refused e, b1))
      | AsNormal \<Rightarrow>
          (case res of
             Inr d \<Rightarrow> Some (Decision d, llm_record_success cfg now b)
           | Inl e \<Rightarrow> if counts_for_circuit e then map_option (Pair FromFallback) (llm_record_failure cfg now b)
                      else Some (Refused e, b)))"

subsection \<open>The interface holds\<close>

definition gateway_blocked_until :: "circuit_breaker_config \<Rightarrow> breaker_inner \<Rightarrow> time option" where
  "gateway_blocked_until cfg b =
     (if bi_state b = Open \<and> 0 < cb_cooldown cfg
      then map_option (\<lambda>o_at. o_at + cb_cooldown cfg) (bi_opened_at b) else None)"

definition gateway_probing :: "breaker_inner \<Rightarrow> bool" where
  "gateway_probing b = (bi_state b = HalfOpen \<and> bi_half_open_probe_in_flight b)"

definition chat_admit :: "64 word \<Rightarrow> chat_breaker \<Rightarrow> bool \<times> chat_breaker" where
  "chat_admit now b = (\<not> chat_is_open now b, b)"

definition chat_blocked_until :: "chat_breaker \<Rightarrow> 64 word option" where
  "chat_blocked_until b = (if 0 < cc_open_until_ms b then Some (cc_open_until_ms b) else None)"

definition llm_admit :: "int \<Rightarrow> llm_breaker \<Rightarrow> bool \<times> llm_breaker" where
  "llm_admit now b = (let (phase, b') = start_classify now b in (phase \<noteq> ToFallback, b'))"

definition llm_blocked_until :: "llm_breaker \<Rightarrow> int option" where
  "llm_blocked_until b = (if 0 < lb_open_until b \<and> \<not> lb_probe_inflight b then Some (lb_open_until b) else None)"

definition llm_probing :: "llm_breaker \<Rightarrow> bool" where
  "llm_probing b = (0 < lb_open_until b \<and> lb_probe_inflight b)"

interpretation gateway: single_probe "should_allow cfg" "gateway_blocked_until cfg" gateway_probing for cfg
  by unfold_locales
    (auto simp: gateway_blocked_until_def gateway_probing_def should_allow_def evaluate_state_transition_def
      elapsed_def Let_def split: option.splits if_splits)

interpretation chat: breaker chat_admit chat_blocked_until
  by unfold_locales (auto simp: chat_blocked_until_def chat_admit_def chat_is_open_def split: if_splits)

interpretation llm: single_probe llm_admit llm_blocked_until llm_probing
  by unfold_locales
    (auto simp: llm_blocked_until_def llm_probing_def llm_admit_def start_classify_def is_open_def is_half_open_def
      split: if_splits)



subsection \<open>When the gateway breaker opens\<close>

text \<open>The failures the breaker is meant to count: those that lie within the window of the last one.\<close>

definition within_window :: "circuit_breaker_config \<Rightarrow> time list \<Rightarrow> time \<Rightarrow> time list" where
  "within_window cfg ts now = filter (\<lambda>x. elapsed now x < cb_window cfg) ts"

definition should_have_tripped :: "circuit_breaker_config \<Rightarrow> time list \<Rightarrow> bool" where
  "should_have_tripped cfg ts \<longleftrightarrow>
     (\<exists>k<length ts. unat (cb_threshold cfg) \<le> length (within_window cfg (take (Suc k) ts) (ts ! k)))"

definition fail_at :: "circuit_breaker_config \<Rightarrow> (time \<times> llm_error) list \<Rightarrow> breaker_inner \<Rightarrow> breaker_inner" where
  "fail_at cfg = fold (\<lambda>(t, e). record_failure cfg t e)"

lemma should_have_tripped_snoc:
  "should_have_tripped cfg (ts @ [t])
   \<longleftrightarrow> should_have_tripped cfg ts \<or> unat (cb_threshold cfg) \<le> length (within_window cfg (ts @ [t]) t)"
proof -
  let ?P = "\<lambda>us k. unat (cb_threshold cfg) \<le> length (within_window cfg (take (Suc k) us) (us ! k))"
  have "?P (ts @ [t]) k \<longleftrightarrow> ?P ts k" if "k < length ts" for k
    using that by (simp add: nth_append Suc_leI)
  moreover have "?P (ts @ [t]) (length ts) \<longleftrightarrow> unat (cb_threshold cfg) \<le> length (within_window cfg (ts @ [t]) t)"
    by simp
  ultimately show ?thesis
    unfolding should_have_tripped_def length_append_singleton Ex_less_Suc by blast
qed

lemma within_window_evicted:
  assumes "sorted ts" "ts \<noteq> []" "last ts \<le> t"
  shows "filter (\<lambda>x. elapsed t x < cb_window cfg) (within_window cfg ts (last ts)) = within_window cfg ts t"
  unfolding within_window_def filter_filter
  by (rule filter_cong) (use assms(3) in \<open>auto simp: elapsed_def\<close>)

lemma fail_at_state:
  assumes "sorted (map fst es)" "\<forall>x\<in>set es. counts_as_circuit_failure (snd x)"
  shows "if should_have_tripped cfg (map fst es) then bi_state (fail_at cfg es new_breaker) = Open
    else bi_state (fail_at cfg es new_breaker) = Closed
      \<and> bi_failure_timestamps (fail_at cfg es new_breaker)
        = (if es = [] then [] else within_window cfg (map fst es) (fst (last es)))"
  using assms
proof (induction es rule: rev_induct)
  case (snoc x es)
  obtain t e where x: "x = (t, e)" by (cases x)
  let ?b = "fail_at cfg es new_breaker" and ?ts = "map fst es"
  have step: "fail_at cfg (es @ [(t, e)]) new_breaker = record_failure cfg t e ?b" by (simp add: fail_at_def)
  have c: "counts_as_circuit_failure e" and s: "sorted ?ts" and le: "es \<noteq> [] \<Longrightarrow> last ?ts \<le> t"
    using snoc.prems by (auto simp: x sorted_append last_map)
  show ?case
  proof (cases "should_have_tripped cfg ?ts")
    case True
    with snoc.IH [OF s] snoc.prems(2) c show ?thesis
      by (simp add: step record_failure_def should_have_tripped_snoc x)
  next
    case False
    with snoc.IH [OF s] snoc.prems(2)
    have closed: "bi_state ?b = Closed"
      and f: "bi_failure_timestamps ?b = (if es = [] then [] else within_window cfg ?ts (fst (last es)))" by auto
    have "filter (\<lambda>y. elapsed t y < cb_window cfg) (bi_failure_timestamps ?b @ [t]) = within_window cfg (?ts @ [t]) t"
    proof (cases "es = []")
      case False
      with within_window_evicted [OF s _ le] f show ?thesis
        by (simp add: within_window_def last_map)
    qed (simp add: fail_at_def new_breaker_def within_window_def)
    with False closed c show ?thesis
      by (simp add: step record_failure_def evict_stale_failures_def Let_def should_have_tripped_snoc x)
  qed
qed (simp add: fail_at_def new_breaker_def should_have_tripped_def)

text \<open>A new breaker of the gateway that sees only provider failures opens exactly when, at some failure, the
  number of failures within the configured window before it has reached the threshold. The breaker forgets stale
  timestamps as it goes; the statement counts over the whole history.\<close>

theorem breaker_opens_at_threshold:
  assumes "sorted (map fst es)" "\<forall>x\<in>set es. counts_as_circuit_failure (snd x)"
  shows "bi_state (fail_at cfg es new_breaker) = (if should_have_tripped cfg (map fst es) then Open else Closed)"
  using fail_at_state [OF assms, of cfg] by (simp split: if_splits)

theorem breaker_opens_at_threshold_witness:
  "bi_state (fail_at aggressive [(0, LlmTimeout 1), (secs 5, LlmTimeout 1), (secs 12, LlmTimeout 1)] new_breaker) = Closed
   \<and> bi_state (fail_at aggressive [(0, LlmTimeout 1), (secs 5, LlmTimeout 1), (secs 8, LlmTimeout 1)] new_breaker) = Open"
proof -
  have three: "should_have_tripped cfg [x, y, z] \<longleftrightarrow> (let n = unat (cb_threshold cfg) in
      n \<le> length (within_window cfg [x] x) \<or> n \<le> length (within_window cfg [x, y] y)
      \<or> n \<le> length (within_window cfg [x, y, z] z))" for cfg x y z
    by (auto simp: should_have_tripped_def Ex_less_Suc Let_def)
  show ?thesis
    using breaker_opens_at_threshold [of "[(0, LlmTimeout 1), (secs 5, LlmTimeout 1), (secs 12, LlmTimeout 1)]" aggressive]
      breaker_opens_at_threshold [of "[(0, LlmTimeout 1), (secs 5, LlmTimeout 1), (secs 8, LlmTimeout 1)]" aggressive]
    by (simp add: three within_window_def elapsed_def aggressive_def secs_def)
qed

subsection \<open>A probe that ends in an uncounted error\<close>

text \<open>C38: When the probe of a half-open gateway breaker ends in an error that is not counted (a bad request, a
  missing key, an unknown model), the probe slot is never given back: whenever they come, no later request to
  that provider is let through.\<close>

theorem uncounted_probe_error_blocks_forever:
  assumes "bi_state b = Open" "bi_opened_at b = Some o_at" "0 < cb_cooldown cfg" "o_at + cb_cooldown cfg \<le> t"
    and "\<not> counts_as_circuit_failure e"
  shows "fst (should_allow cfg t b)
    \<and> fst (ask_all (should_allow cfg) ts (record_failure cfg t2 e (snd (should_allow cfg t b)))) = []"
proof -
  have "gateway_blocked_until cfg b = Some (o_at + cb_cooldown cfg)"
    using assms(1-3) by (simp add: gateway_blocked_until_def)
  from gateway.unblocked [OF this assms(4)] assms(5) show ?thesis
    by (simp add: record_failure_def gateway.none_while_probing)
qed

theorem uncounted_probe_error_blocks_forever_witness:
  "fst (ask_all (should_allow aggressive) [secs 7, secs 1000, secs 1000000]
     (record_failure aggressive (secs 6) (LlmInvalidRequest ''bad'')
       (snd (should_allow aggressive (secs 6) (new_breaker\<lparr>bi_state := Open, bi_opened_at := Some 0\<rparr>))))) = []"
  by (rule uncounted_probe_error_blocks_forever [where o_at = 0, THEN conjunct2])
    (simp_all add: aggressive_def secs_def)

subsection \<open>Backoff and recovery of the curator breaker\<close>

definition probe_at :: "circuit_config \<Rightarrow> backend_error + 'd \<Rightarrow> int \<Rightarrow> llm_breaker \<Rightarrow> llm_breaker option" where
  "probe_at cfg res t b = (let (phase, b') = start_classify t b in map_option snd (finish_classify cfg t phase res b'))"

fun probes_at :: "circuit_config \<Rightarrow> backend_error + 'd \<Rightarrow> int list \<Rightarrow> llm_breaker \<Rightarrow> llm_breaker option" where
  "probes_at cfg res [] b = Some b"
| "probes_at cfg res (t # ts) b = (case probe_at cfg res t b of None \<Rightarrow> None | Some b' \<Rightarrow> probes_at cfg res ts b')"

lemma probe_success:
  assumes "0 < lb_open_until b" "lb_open_until b \<le> t" "\<not> lb_probe_inflight b"
  shows "probe_at cfg (Inr d) t b = Some (llm_record_success cfg t (b\<lparr>lb_probe_inflight := False\<rparr>))"
  using assms by (simp add: probe_at_def start_classify_def is_open_def is_half_open_def finish_classify_def)

lemma successes_below_threshold:
  assumes "0 < lb_open_until b" "\<not> lb_probe_inflight b" "\<forall>t\<in>set ts. lb_open_until b \<le> t"
    and "unat (lb_consecutive_successes b) + length ts < unat (ci_success_threshold cfg)"
  shows "\<exists>b'. probes_at cfg (Inr d) ts b = Some b' \<and> lb_open_until b' = lb_open_until b
    \<and> \<not> lb_probe_inflight b' \<and> unat (lb_consecutive_successes b') = unat (lb_consecutive_successes b) + length ts"
  using assms
proof (induction ts arbitrary: b)
  case (Cons t ts)
  have lt: "Suc (unat (lb_consecutive_successes b)) < unat (ci_success_threshold cfg)"
    using Cons.prems(4) by simp
  with unsigned_less [of "ci_success_threshold cfg", where 'a = nat]
  have u: "unat (lb_consecutive_successes b + 1) = Suc (unat (lb_consecutive_successes b))"
    by (simp add: unat_word_ariths)
  let ?b = "b\<lparr>lb_probe_inflight := False, lb_failures := [], lb_consecutive_successes := lb_consecutive_successes b + 1\<rparr>"
  have "probe_at cfg (Inr d) t b = Some ?b"
    using Cons.prems lt u by (simp add: probe_success llm_record_success_def Let_def word_le_nat_alt)
  moreover have "\<exists>b'. probes_at cfg (Inr d) ts ?b = Some b' \<and> lb_open_until b' = lb_open_until ?b
    \<and> \<not> lb_probe_inflight b' \<and> unat (lb_consecutive_successes b') = unat (lb_consecutive_successes ?b) + length ts"
    using Cons.prems u by (intro Cons.IH) simp_all
  ultimately show ?case using u by simp
qed simp

lemma probes_at_append:
  "probes_at cfg res (ts @ us) b = (case probes_at cfg res ts b of None \<Rightarrow> None | Some b' \<Rightarrow> probes_at cfg res us b')"
  by (induction ts arbitrary: b) (simp_all split: option.split)

lemma last_success_closes:
  assumes "0 < lb_open_until b" "\<not> lb_probe_inflight b" "lb_open_until b \<le> t"
    and "Suc (unat (lb_consecutive_successes b)) = unat (ci_success_threshold cfg)"
  shows "\<exists>b'. probe_at cfg (Inr d) t b = Some b' \<and> lb_open_until b' = 0 \<and> lb_open_count b' = 0"
proof -
  have "unat (lb_consecutive_successes b + 1) = Suc (unat (lb_consecutive_successes b))"
    using assms(4) unsigned_less [of "ci_success_threshold cfg", where 'a = nat] by (simp add: unat_word_ariths)
  with assms show ?thesis
    by (simp add: probe_success llm_record_success_def Let_def word_le_nat_alt is_half_open_def)
qed

text \<open>After the block of a tripped curator breaker has ended, it closes exactly with the configured number of
  successful probes: fewer leave it half open, that many close it and reset its backoff. A single probe that ends
  in a counted failure blocks it again at once, for the next duration of the backoff list, the last one repeated.\<close>

theorem curator_breaker_recovery:
  assumes "0 < lb_open_until b" "\<not> lb_probe_inflight b" "lb_consecutive_successes b = 0"
    and "\<forall>t\<in>set ts. lb_open_until b \<le> t" "length ts = unat (ci_success_threshold cfg)" "ts \<noteq> []"
    and "ci_open_durations cfg \<noteq> []" "counts_for_circuit e" "lb_open_until b \<le> u"
  shows "(\<forall>k<length ts. \<exists>b'. probes_at cfg (Inr d) (take k ts) b = Some b' \<and> lb_open_until b' = lb_open_until b)
    \<and> (\<exists>b'. probes_at cfg (Inr d) ts b = Some b' \<and> lb_open_until b' = 0 \<and> lb_open_count b' = 0)
    \<and> probe_at cfg (Inl e :: backend_error + 'd) u b
      = Some (b\<lparr>lb_probe_inflight := False, lb_open_count := lb_open_count b + 1,
                lb_open_until := u + ci_open_durations cfg ! min (unat (lb_open_count b)) (length (ci_open_durations cfg) - 1),
                lb_consecutive_successes := 0\<rparr>)"
proof (intro conjI allI impI)
  fix k assume "k < length ts"
  then show "\<exists>b'. probes_at cfg (Inr d) (take k ts) b = Some b' \<and> lb_open_until b' = lb_open_until b"
    using successes_below_threshold [OF assms(1,2), of "take k ts" cfg d] assms(3-5)
    by (auto dest: in_set_takeD)
next
  obtain us t where ts: "ts = us @ [t]" using assms(6) by (cases ts rule: rev_exhaust) auto
  obtain b1 where "probes_at cfg (Inr d) us b = Some b1" "lb_open_until b1 = lb_open_until b"
    "\<not> lb_probe_inflight b1" "unat (lb_consecutive_successes b1) = length us"
    using successes_below_threshold [OF assms(1,2), of us cfg d] assms(3-5) by (auto simp: ts)
  then show "\<exists>b'. probes_at cfg (Inr d) ts b = Some b' \<and> lb_open_until b' = 0 \<and> lb_open_count b' = 0"
    using last_success_closes [of b1 t cfg d] assms(1,4,5) by (auto simp: ts probes_at_append)
next
  show "probe_at cfg (Inl e :: backend_error + 'd) u b
      = Some (b\<lparr>lb_probe_inflight := False, lb_open_count := lb_open_count b + 1,
                lb_open_until := u + ci_open_durations cfg ! min (unat (lb_open_count b)) (length (ci_open_durations cfg) - 1),
                lb_consecutive_successes := 0\<rparr>)"
    using assms(1,2,7-9)
    by (simp add: probe_at_def start_classify_def is_open_def is_half_open_def finish_classify_def trip_open_def
        open_duration_def)
qed

theorem curator_breaker_recovery_witness:
  "\<exists>b'. probes_at circuit_config_default (Inr ()) [30000, 30001] (new_llm_breaker\<lparr>lb_open_until := 30000, lb_open_count := 1\<rparr>)
      = Some b' \<and> lb_open_until b' = 0 \<and> lb_open_count b' = 0"
  by (rule curator_breaker_recovery [where e = BeTimeout and u = 30000, THEN conjunct2, THEN conjunct1])
    (simp_all add: new_llm_breaker_def circuit_config_default_def)

subsection \<open>The chat breaker after its cooldown\<close>

text \<open>The first failure after the cooldown neither blocks the chat breaker again nor restarts the cooldown, unless
  the threshold is one: opening has set the counter back to zero, so as many failures as at first are needed.\<close>

lemma chat_probe_failure_does_not_reopen:
  assumes "1 < cc_max_consecutive_failures b" "cc_failures b = 0" "cc_open_until_ms b \<le> now"
  shows "classify_curator now now2 (Inl e) b = (ChatFailed e, b\<lparr>cc_failures := 1\<rparr>)
    \<and> (\<forall>t. now \<le> t \<longrightarrow> \<not> chat_is_open t (b\<lparr>cc_failures := 1\<rparr>))"
  using assms by (auto simp: classify_curator_def chat_is_open_def Let_def)

end
