(* ===== verification/Acl.thy ===== *)
theory Acl
  imports Prelude
begin

text \<open>
  Access control: the trust context of a request (\<open>gradatum-core/src/trust.rs\<close>) and the evaluation engine with
  its preset loader (\<open>gradatum-acl-policy/src/lib.rs\<close>). The glob matcher and the TOML parser are libraries: a
  \<open>glob_lib\<close> compiles a pattern, builds a set of compiled patterns and matches a locus against a set; the parser
  and the typed decoding of a document are arguments of the loader.
\<close>

subsection \<open>Trust context\<close>

datatype studio_scope = StudioReadOnly | StudioOperator | StudioAdmin

datatype trust_context =
    Unauthenticated
  | BearerToken (bt_kid: string) (bt_aud: string) (bt_sub: string) (bt_scopes: "string list")
      (bt_tenant_id: string) (bt_jti: "string option")
  | Mtls (mt_cn: string) (mt_fingerprint: "8 word list")
  | Studio (su_user: string) (su_scope: studio_scope) (su_step_up_until: "time option")

definition is_authenticated :: "trust_context \<Rightarrow> bool" where
  "is_authenticated t = (case t of Unauthenticated \<Rightarrow> False | _ \<Rightarrow> True)"

definition has_scope :: "trust_context \<Rightarrow> string \<Rightarrow> bool" where
  "has_scope t scope = (case t of BearerToken _ _ _ scopes _ _ \<Rightarrow> scope \<in> set scopes | _ \<Rightarrow> False)"

definition is_service_bearer :: "trust_context \<Rightarrow> bool" where
  "is_service_bearer t = (case t of BearerToken _ _ _ scopes _ _ \<Rightarrow> ''service'' \<in> set scopes | _ \<Rightarrow> False)"

definition trust_tenant_id :: "trust_context \<Rightarrow> string option" where
  "trust_tenant_id t = (case t of BearerToken _ _ _ _ tenant _ \<Rightarrow> Some tenant | _ \<Rightarrow> None)"

definition subject :: "trust_context \<Rightarrow> string option" where
  "subject t = (case t of BearerToken _ _ sub _ _ _ \<Rightarrow> Some sub | _ \<Rightarrow> None)"

subsection \<open>Presets\<close>

datatype acl_op = AclRead | AclWrite

datatype acl_decision = Allow | DenyExplicit | DenyImplicit

datatype acl_error = AclToml string | AclGlob string | RemovedPresetField string

record consumer_entry =
  ce_identity :: string
  ce_read_patterns :: "string list"
  ce_write_patterns :: "string list"

record acl_preset =
  ap_consumer :: "consumer_entry list"

datatype preset_toml =
    TomlTable "(string \<times> preset_toml) list"
  | TomlArray "preset_toml list"
  | TomlLeaf string

definition preset_get :: "string \<Rightarrow> preset_toml \<Rightarrow> preset_toml option" where
  "preset_get key v = (case v of TomlTable kvs \<Rightarrow> map_of kvs key | _ \<Rightarrow> None)"

definition SEES_PERSONAL_CLASSIFIED :: string where
  "SEES_PERSONAL_CLASSIFIED = ''sees_personal_classified''"

definition reject_removed_preset_field :: "preset_toml \<Rightarrow> acl_error + unit" where
  "reject_removed_preset_field doc =
     (case preset_get ''consumer'' doc of
        Some (TomlArray consumers) \<Rightarrow>
          if \<exists>c\<in>set consumers. preset_get SEES_PERSONAL_CLASSIFIED c \<noteq> None
          then Inl (RemovedPresetField SEES_PERSONAL_CLASSIFIED) else Inr ()
      | _ \<Rightarrow> Inr ())"

record ('g, 'gs) glob_lib =
  gl_new :: "string \<Rightarrow> string + 'g"
  gl_build :: "'g list \<Rightarrow> string + 'gs"
  gl_is_match :: "'gs \<Rightarrow> string \<Rightarrow> bool"

record 'gs compiled_consumer =
  cc_identity :: string
  cc_read_allow :: 'gs
  cc_read_deny :: 'gs
  cc_write_allow :: 'gs
  cc_write_deny :: 'gs

definition strip_bang :: "string \<Rightarrow> string option" where
  "strip_bang p = (case p of [] \<Rightarrow> None | x # rest \<Rightarrow> if x = CHR 0x21 then Some rest else None)"

fun split_patterns :: "('g, 'gs) glob_lib \<Rightarrow> string list \<Rightarrow> 'g list \<Rightarrow> 'g list \<Rightarrow> acl_error + 'gs \<times> 'gs" where
  "split_patterns lib [] allow_b deny_b =
     (case gl_build lib allow_b of
        Inl e \<Rightarrow> Inl (AclGlob e)
      | Inr a \<Rightarrow> (case gl_build lib deny_b of Inl e \<Rightarrow> Inl (AclGlob e) | Inr d \<Rightarrow> Inr (a, d)))"
| "split_patterns lib (p # ps) allow_b deny_b =
     (case strip_bang p of
        Some rest \<Rightarrow>
          (case gl_new lib rest of Inl e \<Rightarrow> Inl (AclGlob e) | Inr g \<Rightarrow> split_patterns lib ps allow_b (deny_b @ [g]))
      | None \<Rightarrow>
          (case gl_new lib p of Inl e \<Rightarrow> Inl (AclGlob e) | Inr g \<Rightarrow> split_patterns lib ps (allow_b @ [g]) deny_b))"

definition compile_consumer :: "('g, 'gs) glob_lib \<Rightarrow> consumer_entry \<Rightarrow> acl_error + 'gs compiled_consumer" where
  "compile_consumer lib c =
     (case split_patterns lib (ce_read_patterns c) [] [] of
        Inl e \<Rightarrow> Inl e
      | Inr (ra, rd) \<Rightarrow>
          (case split_patterns lib (ce_write_patterns c) [] [] of
             Inl e \<Rightarrow> Inl e
           | Inr (wa, wd) \<Rightarrow>
               Inr \<lparr>cc_identity = ce_identity c, cc_read_allow = ra, cc_read_deny = rd,
                    cc_write_allow = wa, cc_write_deny = wd\<rparr>))"

fun compile_all :: "('g, 'gs) glob_lib \<Rightarrow> consumer_entry list \<Rightarrow> acl_error + 'gs compiled_consumer list" where
  "compile_all lib [] = Inr []"
| "compile_all lib (c # cs) =
     (case compile_consumer lib c of
        Inl e \<Rightarrow> Inl e
      | Inr x \<Rightarrow> (case compile_all lib cs of Inl e \<Rightarrow> Inl e | Inr xs \<Rightarrow> Inr (x # xs)))"

definition from_preset_str ::
  "('g, 'gs) glob_lib \<Rightarrow> (string \<Rightarrow> string + preset_toml) \<Rightarrow> (preset_toml \<Rightarrow> string + acl_preset) \<Rightarrow> string
   \<Rightarrow> acl_error + 'gs compiled_consumer list" where
  "from_preset_str lib from_str try_into toml_str =
     (case from_str toml_str of
        Inl e \<Rightarrow> Inl (AclToml e)
      | Inr doc \<Rightarrow>
          (case reject_removed_preset_field doc of
             Inl e \<Rightarrow> Inl e
           | Inr _ \<Rightarrow>
               (case try_into doc of
                  Inl e \<Rightarrow> Inl (AclToml e)
                | Inr preset \<Rightarrow> compile_all lib (ap_consumer preset))))"

subsection \<open>Evaluation\<close>

type_synonym 'gs acl_engine = "'gs compiled_consumer list"

definition has_identity :: "'gs acl_engine \<Rightarrow> string \<Rightarrow> bool" where
  "has_identity engine agent = (\<exists>c\<in>set engine. cc_identity c = agent)"

definition caller :: "trust_context \<Rightarrow> (string \<times> string option) option" where
  "caller trust =
     (case trust of
        Unauthenticated \<Rightarrow> None
      | BearerToken _ _ sub _ tenant_id _ \<Rightarrow> Some (sub, Some tenant_id)
      | Studio user _ _ \<Rightarrow> Some (user, None)
      | Mtls cn _ \<Rightarrow> Some (cn, None))"

definition foreign_root :: "string option \<Rightarrow> string \<Rightarrow> bool" where
  "foreign_root token_tenant locus =
     (case token_tenant of
        None \<Rightarrow> False
      | Some tid \<Rightarrow> CHR ''/'' \<notin> set locus \<and> locus \<noteq> [] \<and> locus \<noteq> tid)"

definition evaluate :: "('g, 'gs) glob_lib \<Rightarrow> 'gs acl_engine \<Rightarrow> trust_context \<Rightarrow> acl_op \<Rightarrow> string \<Rightarrow> acl_decision" where
  "evaluate lib engine trust op locus =
     (case caller trust of
        None \<Rightarrow> DenyImplicit
      | Some (identity, token_tenant) \<Rightarrow>
          (case List.find (\<lambda>c. cc_identity c = identity) engine of
             None \<Rightarrow> DenyImplicit
           | Some c \<Rightarrow>
               if foreign_root token_tenant locus then DenyExplicit
               else
                 let (allow, deny) = (case op of
                                        AclRead \<Rightarrow> (cc_read_allow c, cc_read_deny c)
                                      | AclWrite \<Rightarrow> (cc_write_allow c, cc_write_deny c)) in
                 if gl_is_match lib deny locus then DenyExplicit
                 else if gl_is_match lib allow locus then Allow
                 else DenyImplicit))"

definition messaging_channel_locus :: "string \<Rightarrow> string" where
  "messaging_channel_locus recipient_identity = ''messaging/'' @ recipient_identity"

definition evaluate_messaging_send ::
  "('g, 'gs) glob_lib \<Rightarrow> 'gs acl_engine \<Rightarrow> trust_context \<Rightarrow> string \<Rightarrow> acl_decision" where
  "evaluate_messaging_send lib engine trust recipient_identity =
     evaluate lib engine trust AclWrite (messaging_channel_locus recipient_identity)"

subsection \<open>Decisions in terms of the preset\<close>

text \<open>What the documentation of the glob library says: a pattern that compiles matches a fixed set of loci, and a
  set matches what one of its members matches.\<close>

definition glob_lib_ok :: "('g, 'gs) glob_lib \<Rightarrow> ('g \<Rightarrow> string \<Rightarrow> bool) \<Rightarrow> bool" where
  "glob_lib_ok lib matches \<longleftrightarrow>
     (\<forall>gs set_of x. gl_build lib gs = Inr set_of \<longrightarrow> gl_is_match lib set_of x = (\<exists>g\<in>set gs. matches g x))"

definition pattern_matches :: "('g, 'gs) glob_lib \<Rightarrow> ('g \<Rightarrow> string \<Rightarrow> bool) \<Rightarrow> string \<Rightarrow> string \<Rightarrow> bool" where
  "pattern_matches lib matches p locus = (case gl_new lib p of Inl _ \<Rightarrow> False | Inr g \<Rightarrow> matches g locus)"

definition granted_by :: "('g, 'gs) glob_lib \<Rightarrow> ('g \<Rightarrow> string \<Rightarrow> bool) \<Rightarrow> string list \<Rightarrow> string \<Rightarrow> bool" where
  "granted_by lib matches ps locus = (\<exists>p\<in>set ps. strip_bang p = None \<and> pattern_matches lib matches p locus)"

definition denied_by :: "('g, 'gs) glob_lib \<Rightarrow> ('g \<Rightarrow> string \<Rightarrow> bool) \<Rightarrow> string list \<Rightarrow> string \<Rightarrow> bool" where
  "denied_by lib matches ps locus =
     (\<exists>p\<in>set ps. case strip_bang p of None \<Rightarrow> False | Some rest \<Rightarrow> pattern_matches lib matches rest locus)"

definition patterns_for :: "acl_op \<Rightarrow> consumer_entry \<Rightarrow> string list" where
  "patterns_for op c = (case op of AclRead \<Rightarrow> ce_read_patterns c | AclWrite \<Rightarrow> ce_write_patterns c)"

lemma split_patterns_sem:
  assumes "glob_lib_ok lib matches"
  shows "split_patterns lib ps allow_b deny_b = Inr (a, d) \<Longrightarrow>
    (gl_is_match lib a x \<longleftrightarrow> (\<exists>g\<in>set allow_b. matches g x) \<or> granted_by lib matches ps x)
    \<and> (gl_is_match lib d x \<longleftrightarrow> (\<exists>g\<in>set deny_b. matches g x) \<or> denied_by lib matches ps x)"
proof (induction ps arbitrary: allow_b deny_b)
  case Nil
  with assms show ?case
    by (auto simp: glob_lib_ok_def granted_by_def denied_by_def split: sum.splits)
next
  case (Cons p ps)
  show ?case
  proof (cases "strip_bang p")
    case None
    with Cons.prems obtain g where g: "gl_new lib p = Inr g"
      and rest: "split_patterns lib ps (allow_b @ [g]) deny_b = Inr (a, d)" by (auto split: sum.splits)
    from Cons.IH [OF rest] None g show ?thesis by (auto simp: granted_by_def denied_by_def pattern_matches_def)
  next
    case (Some q)
    with Cons.prems obtain g where g: "gl_new lib q = Inr g"
      and rest: "split_patterns lib ps allow_b (deny_b @ [g]) = Inr (a, d)" by (auto split: sum.splits)
    from Cons.IH [OF rest] Some g show ?thesis by (auto simp: granted_by_def denied_by_def pattern_matches_def)
  qed
qed

lemma compile_consumer_sem:
  assumes "glob_lib_ok lib matches" "compile_consumer lib c = Inr x"
  shows "cc_identity x = ce_identity c"
    "gl_is_match lib (cc_read_allow x) l \<longleftrightarrow> granted_by lib matches (ce_read_patterns c) l"
    "gl_is_match lib (cc_read_deny x) l \<longleftrightarrow> denied_by lib matches (ce_read_patterns c) l"
    "gl_is_match lib (cc_write_allow x) l \<longleftrightarrow> granted_by lib matches (ce_write_patterns c) l"
    "gl_is_match lib (cc_write_deny x) l \<longleftrightarrow> denied_by lib matches (ce_write_patterns c) l"
  using assms(2) split_patterns_sem [OF assms(1), of "ce_read_patterns c" "[]" "[]" _ _ l]
    split_patterns_sem [OF assms(1), of "ce_write_patterns c" "[]" "[]" _ _ l]
  by (auto simp: compile_consumer_def split: sum.splits)

lemma compile_all_find:
  assumes "glob_lib_ok lib matches"
  shows "compile_all lib cs = Inr xs \<Longrightarrow>
    (case List.find (\<lambda>c. ce_identity c = i) cs of
       None \<Rightarrow> List.find (\<lambda>x. cc_identity x = i) xs = None
     | Some c \<Rightarrow> \<exists>x. List.find (\<lambda>x. cc_identity x = i) xs = Some x \<and> compile_consumer lib c = Inr x)"
proof (induction cs arbitrary: xs)
  case (Cons c cs)
  then obtain y ys where y: "compile_consumer lib c = Inr y" "compile_all lib cs = Inr ys" "xs = y # ys"
    by (auto split: sum.splits)
  with Cons.IH [OF y(2)] compile_consumer_sem(1) [OF assms y(1)] show ?case by (auto split: option.splits)
qed simp

lemma from_preset_str_Inr:
  "from_preset_str lib from_str try_into txt = Inr engine \<Longrightarrow>
   \<exists>doc preset. from_str txt = Inr doc \<and> reject_removed_preset_field doc = Inr () \<and> try_into doc = Inr preset
     \<and> compile_all lib (ap_consumer preset) = Inr engine"
  by (auto simp: from_preset_str_def split: sum.splits)

text \<open>C10: An engine loaded from a preset grants an access exactly when the caller is authenticated, the first entry
  of the preset with the caller's identity has a plain pattern that matches the locus and no negated pattern that
  does, and the locus is not the root of another tenant than the token's. Denials are explicit exactly for a known
  caller stopped by the tenant root rule or by a negated pattern: negation wins over every grant, and everything
  else is denied by default.\<close>

theorem acl_decision_from_preset:
  assumes "glob_lib_ok lib matches" "from_preset_str lib from_str try_into txt = Inr engine"
    and "from_str txt = Inr doc" "try_into doc = Inr preset"
  shows "evaluate lib engine trust op locus =
    (case caller trust of
       None \<Rightarrow> DenyImplicit
     | Some (identity, tenant) \<Rightarrow>
         (case List.find (\<lambda>c. ce_identity c = identity) (ap_consumer preset) of
            None \<Rightarrow> DenyImplicit
          | Some c \<Rightarrow>
              if foreign_root tenant locus \<or> denied_by lib matches (patterns_for op c) locus then DenyExplicit
              else if granted_by lib matches (patterns_for op c) locus then Allow else DenyImplicit))"
proof (cases "caller trust")
  case (Some it)
  obtain i tenant where it: "it = (i, tenant)" by (cases it)
  have all: "compile_all lib (ap_consumer preset) = Inr engine"
    using from_preset_str_Inr [OF assms(2)] assms(3,4) by simp
  show ?thesis
  proof (cases "List.find (\<lambda>c. ce_identity c = i) (ap_consumer preset)")
    case None
    with compile_all_find [OF assms(1) all, of i] Some it show ?thesis by (simp add: evaluate_def)
  next
    case found: (Some c)
    with compile_all_find [OF assms(1) all, of i]
    obtain x where x: "List.find (\<lambda>x. cc_identity x = i) engine = Some x" "compile_consumer lib c = Inr x" by auto
    with Some it found compile_consumer_sem(2-5) [OF assms(1) x(2), of locus] show ?thesis
      by (cases op) (simp_all add: evaluate_def patterns_for_def)
  qed
qed (simp add: evaluate_def)

text \<open>A library whose patterns are prefixes, and a preset with one consumer.\<close>

definition prefix_lib :: "(string, string list) glob_lib" where
  "prefix_lib = \<lparr>gl_new = Inr, gl_build = Inr, gl_is_match = (\<lambda>gs x. \<exists>g\<in>set gs. take (length g) x = g)\<rparr>"

definition sample_preset :: acl_preset where
  "sample_preset = \<lparr>ap_consumer = [\<lparr>ce_identity = ''bot'', ce_read_patterns = [''docs/'', ''!docs/secret''],
     ce_write_patterns = [''docs/inbox'']\<rparr>]\<rparr>"

theorem acl_decision_from_preset_witness:
  "\<exists>engine. from_preset_str prefix_lib (\<lambda>_. Inr (TomlTable [])) (\<lambda>_. Inr sample_preset) [] = Inr engine
     \<and> evaluate prefix_lib engine (BearerToken [] [] ''bot'' [] ''main'' None) AclRead ''docs/x'' = Allow
     \<and> evaluate prefix_lib engine (BearerToken [] [] ''bot'' [] ''main'' None) AclRead ''docs/secret/x'' = DenyExplicit
     \<and> evaluate prefix_lib engine (BearerToken [] [] ''bot'' [] ''main'' None) AclRead ''other'' = DenyExplicit
     \<and> evaluate prefix_lib engine (BearerToken [] [] ''eve'' [] ''main'' None) AclRead ''docs/x'' = DenyImplicit"
proof -
  have ok: "glob_lib_ok prefix_lib (\<lambda>g x. take (length g) x = g)"
    by (simp add: glob_lib_ok_def prefix_lib_def)
  obtain engine where e: "from_preset_str prefix_lib (\<lambda>_. Inr (TomlTable [])) (\<lambda>_. Inr sample_preset) [] = Inr engine"
    by (simp add: from_preset_str_def reject_removed_preset_field_def preset_get_def sample_preset_def
        compile_consumer_def strip_bang_def prefix_lib_def)
  note dec = acl_decision_from_preset [OF ok e, of "TomlTable []" sample_preset, simplified]
  show ?thesis
  proof (intro exI [of _ engine] conjI e)
  qed (simp_all add: dec, simp_all add: caller_def sample_preset_def foreign_root_def denied_by_def granted_by_def
      patterns_for_def strip_bang_def pattern_matches_def prefix_lib_def)
qed

end
