(* ===== verification/Utf8.thy ===== *)
theory Utf8
  imports Prelude
begin

text \<open>
  UTF-8 texts as lists of bytes, with the part of \<open>str\<close> that the privacy code uses: byte length, code-point
  boundaries and slices. Offsets are naturals below \<open>2 ^ 64\<close>; checked and saturating additions are written out.
\<close>

type_synonym bytes = "8 word list"

text \<open>The bytes of a text that the code writes out.\<close>

definition str_bytes :: "string \<Rightarrow> bytes" where
  "str_bytes s = map of_char s"

definition USIZE_MAX :: nat where
  "USIZE_MAX = 2 ^ 64 - 1"

definition checked_add :: "nat \<Rightarrow> nat \<Rightarrow> nat option" where
  "checked_add a b = (if a + b \<le> USIZE_MAX then Some (a + b) else None)"

definition usize_saturating_add :: "nat \<Rightarrow> nat \<Rightarrow> nat" where
  "usize_saturating_add a b = min (a + b) USIZE_MAX"

definition boundary_byte :: "8 word \<Rightarrow> bool" where
  "boundary_byte b = (b < 128 \<or> 192 \<le> b)"

definition is_char_boundary :: "bytes \<Rightarrow> nat \<Rightarrow> bool" where
  "is_char_boundary body i =
     (i = 0 \<or> (if i < length body then boundary_byte (body ! i) else i = length body))"

definition slice :: "bytes \<Rightarrow> nat \<Rightarrow> nat \<Rightarrow> bytes" where
  "slice body a b = take (b - a) (drop a body)"

text \<open>Well-formed texts: code points of one to four bytes, a lead byte that gives their number and
  continuation bytes. (The finer rules of UTF-8 on the second byte are not needed.)\<close>

definition code_point_len :: "8 word \<Rightarrow> nat option" where
  "code_point_len b =
     (if b < 128 then Some 1
      else if 194 \<le> b \<and> b < 224 then Some 2
      else if 224 \<le> b \<and> b < 240 then Some 3
      else if 240 \<le> b \<and> b < 245 then Some 4
      else None)"

fun utf8 :: "bytes \<Rightarrow> bool" where
  "utf8 [] = True"
| "utf8 (b # bs) =
     (case code_point_len b of
        None \<Rightarrow> False
      | Some n \<Rightarrow>
          n - 1 \<le> length bs \<and> list_all (\<lambda>x. \<not> boundary_byte x) (take (n - 1) bs) \<and> utf8 (drop (n - 1) bs))"

lemma is_char_boundary_ends [simp]: "is_char_boundary body 0" "is_char_boundary body (length body)"
  by (simp_all add: is_char_boundary_def)

lemma is_char_boundary_le: "is_char_boundary body i \<Longrightarrow> i \<le> length body"
  by (auto simp: is_char_boundary_def split: if_splits)

lemma code_point_len_props:
  assumes "code_point_len b = Some n"
  shows "1 \<le> n" "n \<le> 4" "boundary_byte b"
proof -
  from assms show "1 \<le> n" "n \<le> 4" by (auto simp: code_point_len_def split: if_splits)
  have "192 \<le> b" if "194 \<le> b \<or> 224 \<le> b \<or> 240 \<le> b"
    using that by (auto simp: word_le_nat_alt)
  with assms show "boundary_byte b" by (auto simp: code_point_len_def boundary_byte_def split: if_splits)
qed

lemma boundary_drop:
  assumes "utf8 (drop n body)" "n \<le> length body" "is_char_boundary (drop n body) j"
  shows "is_char_boundary body (n + j)"
proof (cases "drop n body")
  case Nil
  with assms(2,3) show ?thesis by (auto simp: is_char_boundary_def split: if_splits)
next
  case (Cons b bs)
  then have "n < length body" "body ! n = b"
    using assms(2) by (auto simp: drop_eq_Nil2 nth_via_drop intro: ccontr)
  moreover have "boundary_byte b"
    using assms(1) Cons by (auto split: option.splits dest: code_point_len_props(3))
  ultimately show ?thesis
    using assms(3) by (cases "j = 0") (auto simp: is_char_boundary_def add.commute split: if_splits)
qed

text \<open>A boundary lies at most three bytes before every offset.\<close>

lemma boundary_before:
  "utf8 body \<Longrightarrow> e \<le> length body \<Longrightarrow> \<exists>j\<le>e. e \<le> j + 3 \<and> is_char_boundary body j"
proof (induction body arbitrary: e rule: utf8.induct)
  case (2 b bs)
  then obtain n where n: "code_point_len b = Some n" "n - 1 \<le> length bs" "utf8 (drop (n - 1) bs)"
    by (auto split: option.splits)
  note len = code_point_len_props [OF n(1)]
  show ?case
  proof (cases "e < n")
    case True
    with len(2) show ?thesis by (intro exI [of _ 0]) simp
  next
    case False
    have d: "drop n (b # bs) = drop (n - 1) bs" using len(1) by (cases n) auto
    from False 2(3) len(1) have "e - n \<le> length (drop (n - 1) bs)" by simp
    from 2(1) [OF n(1) n(3) this]
    obtain j where j: "j \<le> e - n" "e - n \<le> j + 3" "is_char_boundary (drop (n - 1) bs) j" by auto
    then have "is_char_boundary (b # bs) (n + j)"
      using boundary_drop [of n "b # bs" j] n len(1) by (simp only: d) simp
    with j False show ?thesis by (intro exI [of _ "n + j"]) auto
  qed
qed simp

end
