(* ===== verification/Privacy_Window.thy ===== *)
theory Privacy_Window
  imports Utf8
begin

text \<open>
  The byte windows a large body is cut into before detection (\<open>gradatum-privacy/src/windowing.rs\<close>). The two
  inner loops move a cut back, and the next start forward, onto a code-point boundary.
\<close>

record window_plan =
  wp_max_input_bytes :: nat
  wp_overlap_bytes :: nat

fun cut_back :: "bytes \<Rightarrow> nat \<Rightarrow> nat \<Rightarrow> nat" where
  "cut_back body start e = (if start < e \<and> \<not> is_char_boundary body e then cut_back body start (e - 1) else e)"

function step_forward :: "bytes \<Rightarrow> nat \<Rightarrow> nat \<Rightarrow> nat" where
  "step_forward body e next_start =
     (if next_start < e \<and> \<not> is_char_boundary body next_start then step_forward body e (next_start + 1)
      else next_start)"
  by pat_completeness auto
termination
  by (relation "measure (\<lambda>(body, e, n). e - n)") auto

declare cut_back.simps [simp del] step_forward.simps [simp del]

definition window_end :: "window_plan \<Rightarrow> bytes \<Rightarrow> nat \<Rightarrow> nat" where
  "window_end plan body start =
     cut_back body start (start + min (length body - start) (max (wp_max_input_bytes plan) 4))"

definition next_start :: "window_plan \<Rightarrow> bytes \<Rightarrow> nat \<Rightarrow> nat" where
  "next_start plan body start =
     (let e = window_end plan body start; n = e - wp_overlap_bytes plan in
      step_forward body e (if n \<le> start then start + 1 else n))"

lemma step_forward_ge: "n \<le> step_forward body e n"
  by (induction body e n rule: step_forward.induct) (subst step_forward.simps, auto)

lemma next_start_gt: "start < next_start plan body start"
proof -
  let ?e = "window_end plan body start"
  let ?n = "if ?e - wp_overlap_bytes plan \<le> start then start + 1 else ?e - wp_overlap_bytes plan"
  have "start < ?n" by simp
  also have "?n \<le> step_forward body ?e ?n" by (rule step_forward_ge)
  finally show ?thesis by (simp add: next_start_def Let_def)
qed

function windows_from :: "window_plan \<Rightarrow> bytes \<Rightarrow> nat \<Rightarrow> (nat \<times> bytes) list" where
  "windows_from plan body start =
     (if start < length body then
        (let e = window_end plan body start in
         (start, slice body start e)
         # (if e = length body then [] else windows_from plan body (next_start plan body start)))
      else [])"
  by pat_completeness auto
termination
proof (relation "measure (\<lambda>(plan, body, start). length body - start)")
  fix plan :: window_plan and body :: bytes and start e :: nat
  assume "start < length body"
  with next_start_gt [of start plan body]
  show "((plan, body, next_start plan body start), plan, body, start) \<in> measure (\<lambda>(plan, body, start). length body - start)"
    by simp
qed simp

declare windows_from.simps [simp del]

definition windows :: "window_plan \<Rightarrow> bytes \<Rightarrow> (nat \<times> bytes) list" where
  "windows plan body =
     (if wp_max_input_bytes plan = 0 then []
      else if body = [] then [(0, body)]
      else windows_from plan body 0)"

subsection \<open>The cuts\<close>

lemma cut_back_props:
  "start \<le> e \<Longrightarrow> start \<le> cut_back body start e \<and> cut_back body start e \<le> e
     \<and> (cut_back body start e = start \<or> is_char_boundary body (cut_back body start e))
     \<and> (\<forall>j. cut_back body start e < j \<and> j \<le> e \<longrightarrow> \<not> is_char_boundary body j)"
proof (induction body start e rule: cut_back.induct)
  case (1 body start e)
  show ?case
  proof (cases "start < e \<and> \<not> is_char_boundary body e")
    case True
    then have eq: "cut_back body start e = cut_back body start (e - 1)" by (subst cut_back.simps) simp
    let ?c = "cut_back body start (e - 1)"
    have ih: "start \<le> ?c" "?c \<le> e - 1" "?c = start \<or> is_char_boundary body ?c"
      "\<And>j. ?c < j \<Longrightarrow> j \<le> e - 1 \<Longrightarrow> \<not> is_char_boundary body j"
      using 1(1) [OF True] True by auto
    have "\<not> is_char_boundary body j" if "?c < j" "j \<le> e" for j
      using ih(4) [OF that(1)] that(2) True by (cases "j = e") auto
    with ih(1-3) show ?thesis unfolding eq by auto
  next
    case False
    then have "cut_back body start e = e" by (subst cut_back.simps) auto
    with False 1(2) show ?thesis by auto
  qed
qed

lemma step_forward_props:
  "n \<le> e \<Longrightarrow> step_forward body e n \<le> e
     \<and> (step_forward body e n = e \<or> is_char_boundary body (step_forward body e n))
     \<and> (\<forall>j. n \<le> j \<and> j < step_forward body e n \<longrightarrow> \<not> is_char_boundary body j)"
proof (induction body e n rule: step_forward.induct)
  case (1 body e n)
  show ?case
  proof (cases "n < e \<and> \<not> is_char_boundary body n")
    case True
    then have eq: "step_forward body e n = step_forward body e (n + 1)" by (subst step_forward.simps) simp
    let ?c = "step_forward body e (n + 1)"
    have ih: "?c \<le> e" "?c = e \<or> is_char_boundary body ?c"
      "\<And>j. n + 1 \<le> j \<Longrightarrow> j < ?c \<Longrightarrow> \<not> is_char_boundary body j"
      using 1(1) [OF True] True by auto
    have "\<not> is_char_boundary body j" if "n \<le> j" "j < ?c" for j
      using ih(3) [OF _ that(2)] that(1) True by (cases "j = n") auto
    with ih(1,2) show ?thesis unfolding eq by auto
  next
    case False
    then have "step_forward body e n = n" by (subst step_forward.simps) auto
    with False 1(2) show ?thesis by auto
  qed
qed

text \<open>From a boundary inside the text, a window ends on a later boundary, at most three bytes short of its
  ceiling unless it reaches the end of the text.\<close>

lemma window_end_props:
  assumes "utf8 body" "is_char_boundary body start" "start < length body"
  shows "start < window_end plan body start" "window_end plan body start \<le> length body"
    "is_char_boundary body (window_end plan body start)"
    "window_end plan body start \<le> start + max (wp_max_input_bytes plan) 4"
    "window_end plan body start = length body
     \<or> start + max (wp_max_input_bytes plan) 4 \<le> window_end plan body start + 3"
proof -
  let ?e = "start + min (length body - start) (max (wp_max_input_bytes plan) 4)"
  have e: "start \<le> ?e" "?e \<le> length body" "?e = length body \<or> start + 4 \<le> ?e"
    using assms(3) by linarith+
  note c = cut_back_props [OF e(1), of body, folded window_end_def]
  obtain j where j: "j \<le> ?e" "?e \<le> j + 3" "is_char_boundary body j"
    using boundary_before [OF assms(1) e(2)] by blast
  have le: "j \<le> window_end plan body start" using c j by (meson not_le_imp_less)
  have full: "window_end plan body start = length body" if "?e = length body"
    using c that is_char_boundary_ends(2) [of body] by (metis le_neq_implies_less order_refl)
  show gt: "start < window_end plan body start" using j(2) e(3) full le assms(3) by linarith
  then show "is_char_boundary body (window_end plan body start)" using c by auto
  show "window_end plan body start \<le> length body" using c e by linarith
  show "window_end plan body start \<le> start + max (wp_max_input_bytes plan) 4"
    using c by linarith
  show "window_end plan body start = length body
     \<or> start + max (wp_max_input_bytes plan) 4 \<le> window_end plan body start + 3"
    using full le j(2) assms(3) by (cases "?e = length body") (simp_all add: min_def split: if_splits)
qed

lemma next_start_props:
  assumes "utf8 body" "is_char_boundary body start" "start < length body"
  shows "next_start plan body start \<le> window_end plan body start"
    "is_char_boundary body (next_start plan body start)"
    "\<lbrakk>is_char_boundary body a; start < a; window_end plan body start \<le> a + wp_overlap_bytes plan\<rbrakk>
     \<Longrightarrow> next_start plan body start \<le> a"
proof -
  let ?e = "window_end plan body start"
  let ?n = "if ?e - wp_overlap_bytes plan \<le> start then start + 1 else ?e - wp_overlap_bytes plan"
  note w = window_end_props [OF assms, of plan]
  have n: "?n \<le> ?e" using w(1) by auto
  note p = step_forward_props [OF n, of body]
  have eq: "next_start plan body start = step_forward body ?e ?n" by (simp add: next_start_def Let_def)
  show "next_start plan body start \<le> ?e" using p eq by simp
  show "is_char_boundary body (next_start plan body start)" using p w(3) eq by auto
  show "next_start plan body start \<le> a"
    if "is_char_boundary body a" "start < a" "?e \<le> a + wp_overlap_bytes plan"
  proof -
    have "?n \<le> a" using that(2,3) by auto
    with p that(1) show ?thesis unfolding eq by (meson not_le_imp_less)
  qed
qed

subsection \<open>The windows\<close>

definition is_window :: "window_plan \<Rightarrow> bytes \<Rightarrow> nat \<times> bytes \<Rightarrow> bool" where
  "is_window plan body w \<longleftrightarrow>
     snd w \<noteq> [] \<and> snd w = slice body (fst w) (fst w + length (snd w))
     \<and> fst w + length (snd w) \<le> length body
     \<and> is_char_boundary body (fst w) \<and> is_char_boundary body (fst w + length (snd w))
     \<and> length (snd w) \<le> max (wp_max_input_bytes plan) 4"

definition inside :: "nat \<Rightarrow> nat \<Rightarrow> nat \<times> bytes \<Rightarrow> bool" where
  "inside a b w \<longleftrightarrow> fst w \<le> a \<and> b \<le> fst w + length (snd w)"

lemma first_window:
  assumes "utf8 body" "is_char_boundary body start" "start < length body"
  shows "is_window plan body (start, slice body start (window_end plan body start))"
    "start + length (slice body start (window_end plan body start)) = window_end plan body start"
proof -
  note w = window_end_props [OF assms, of plan]
  then show "start + length (slice body start (window_end plan body start)) = window_end plan body start"
    by (simp add: slice_def)
  with w assms show "is_window plan body (start, slice body start (window_end plan body start))"
    by (auto simp: is_window_def slice_def)
qed

lemma windows_from_Cons:
  assumes "start < length body"
  shows "windows_from plan body start =
    (start, slice body start (window_end plan body start))
    # (if window_end plan body start = length body then []
       else windows_from plan body (next_start plan body start))"
  using assms by (subst windows_from.simps) (simp add: Let_def)

lemma windows_from_windows:
  assumes "utf8 body" "is_char_boundary body start"
  shows "(\<forall>w\<in>set (windows_from plan body start). is_window plan body w)
    \<and> length (windows_from plan body start) \<le> length body - start"
  using assms
proof (induction plan body start rule: windows_from.induct)
  case (1 plan body start)
  show ?case
  proof (cases "start < length body")
    case True
    note fst_w = first_window(1) [OF 1(2,3) True, of plan]
    show ?thesis
    proof (cases "window_end plan body start = length body")
      case True
      then show ?thesis using fst_w \<open>start < length body\<close> by (simp add: windows_from_Cons)
    next
      case False
      from 1(1) [OF True refl False 1(2) next_start_props(2) [OF 1(2,3) True]]
        next_start_gt [of start plan body] fst_w False True
      show ?thesis by (auto simp: windows_from_Cons)
    qed
  qed (simp add: windows_from.simps)
qed

lemma windows_from_cover:
  assumes "utf8 body" "is_char_boundary body start" "start \<le> i" "i < length body"
  shows "\<exists>w\<in>set (windows_from plan body start). inside i (i + 1) w"
  using assms
proof (induction plan body start rule: windows_from.induct)
  case (1 plan body start)
  from 1(4,5) have lt: "start < length body" by simp
  note w = first_window(2) [OF 1(2,3) lt, of plan]
  show ?case
  proof (cases "i < window_end plan body start")
    case True
    then show ?thesis using 1(4) w by (simp add: windows_from_Cons [OF lt] inside_def)
  next
    case False
    then have ne: "window_end plan body start \<noteq> length body" using 1(5) by simp
    have "next_start plan body start \<le> i" using next_start_props(1) [OF 1(2,3) lt, of plan] False by simp
    from 1(1) [OF lt refl ne 1(2) next_start_props(2) [OF 1(2,3) lt] this 1(5)] ne show ?thesis
      by (simp add: windows_from_Cons [OF lt])
  qed
qed

text \<open>An entity no longer than the overlap is seen whole: a window that does not reach its end leaves
  less than the overlap after its start, so the next window starts at or before it.\<close>

lemma windows_from_entity:
  assumes "utf8 body" "is_char_boundary body start" "start \<le> a" "is_char_boundary body a" "a < b"
    "b \<le> length body" "b \<le> a + wp_overlap_bytes plan" "wp_overlap_bytes plan + 3 \<le> max (wp_max_input_bytes plan) 4"
  shows "\<exists>w\<in>set (windows_from plan body start). inside a b w"
  using assms
proof (induction plan body start rule: windows_from.induct)
  case (1 plan body start)
  from 1(4,6,7) have lt: "start < length body" by simp
  note w = first_window(2) [OF 1(2,3) lt, of plan]
  show ?case
  proof (cases "b \<le> window_end plan body start")
    case True
    then show ?thesis using 1(4) w by (simp add: windows_from_Cons [OF lt] inside_def)
  next
    case False
    then have ne: "window_end plan body start \<noteq> length body" using 1(7) by simp
    have "start < a" using window_end_props(5) [OF 1(2,3) lt, of plan] ne False 1(4,8,9) by linarith
    then have "next_start plan body start \<le> a"
      using next_start_props(3) [OF 1(2,3) lt 1(5), of plan] False 1(8) by linarith
    from 1(1) [OF lt refl ne 1(2) next_start_props(2) [OF 1(2,3) lt] this 1(5-9)] ne show ?thesis
      by (simp add: windows_from_Cons [OF lt])
  qed
qed

text \<open>C23: For a positive ceiling and a nonempty UTF-8 text, \<open>windows\<close> returns at least one and at most as many
  windows as the text has bytes; each is a nonempty slice between two code-point boundaries, no longer than the
  ceiling (clamped up to four bytes); together they contain every byte; and, when the overlap is at least
  three bytes below the ceiling, every stretch of text that starts on a boundary and is no longer than the overlap
  lies whole inside one window.\<close>

theorem windows_cover_body:
  assumes "utf8 body" "body \<noteq> []" "0 < wp_max_input_bytes plan"
  shows "(\<forall>w\<in>set (windows plan body). is_window plan body w)
    \<and> 0 < length (windows plan body) \<and> length (windows plan body) \<le> length body
    \<and> (\<forall>i<length body. \<exists>w\<in>set (windows plan body). inside i (i + 1) w)
    \<and> (\<forall>a b. is_char_boundary body a \<and> a < b \<and> b \<le> length body \<and> b \<le> a + wp_overlap_bytes plan
             \<and> wp_overlap_bytes plan + 3 \<le> max (wp_max_input_bytes plan) 4
             \<longrightarrow> (\<exists>w\<in>set (windows plan body). inside a b w))"
proof -
  have eq: "windows plan body = windows_from plan body 0" using assms by (simp add: windows_def)
  have b0: "is_char_boundary body 0" by (rule is_char_boundary_ends)
  have "0 < length (windows_from plan body 0)" using assms(2) windows_from_Cons [of 0 body plan] by simp
  then show ?thesis
    unfolding eq
    using windows_from_windows [OF assms(1) b0, of plan] windows_from_cover [OF assms(1) b0, of _ plan]
      windows_from_entity [OF assms(1) b0 le0, of _ _ plan] by auto
qed

text \<open>Four two-byte code points, a ceiling of five and an overlap of two: three windows of two code points.\<close>

definition sample_text :: bytes where
  "sample_text = [0xC3, 0xA9, 0xC3, 0xA9, 0xC3, 0xA9, 0xC3, 0xA9]"

definition sample_plan :: window_plan where
  "sample_plan = \<lparr>wp_max_input_bytes = 5, wp_overlap_bytes = 2\<rparr>"

lemma sample_text_utf8: "utf8 sample_text"
  by code_simp

lemma sample_windows: "List.map fst (windows sample_plan sample_text) = [0, 2, 4]"
  by code_simp

theorem windows_cover_body_witness:
  "utf8 sample_text \<and> List.map fst (windows sample_plan sample_text) = [0, 2, 4]
   \<and> (\<exists>w\<in>set (windows sample_plan sample_text). inside 2 4 w)"
proof -
  have "is_char_boundary sample_text 2" by code_simp
  moreover have "length sample_text = 8" by (simp add: sample_text_def)
  ultimately show ?thesis
    using windows_cover_body [of sample_text sample_plan, THEN conjunct2, THEN conjunct2, THEN conjunct2, THEN conjunct2,
        rule_format, of 2 4]
      sample_text_utf8 sample_windows
    by (simp add: sample_plan_def) (simp add: sample_text_def)
qed

end
