(* ===== verification/Pii.thy ===== *)
theory Pii
  imports Utf8 Complex_Main "HOL-Library.List_Lexorder" "HOL-Library.Char_ord"
begin

text \<open>
  Personal-data spans (\<open>gradatum-core/src/pii.rs\<close>): the category vocabulary, the conversion of a detector's
  score to thousandths, the activation policy and the rewrite that masks spans of a text.
\<close>

subsection \<open>Categories\<close>

datatype pii_category = AccountNumber | Address | Email | Person | Phone | Url | Date | Secret

fun category_as_str :: "pii_category \<Rightarrow> string" where
  "category_as_str AccountNumber = ''account_number''"
| "category_as_str Address = ''address''"
| "category_as_str Email = ''email''"
| "category_as_str Person = ''person''"
| "category_as_str Phone = ''phone''"
| "category_as_str Url = ''url''"
| "category_as_str Date = ''date''"
| "category_as_str Secret = ''secret''"

text \<open>The error of \<open>from_str\<close> carries the label that named no category.\<close>

definition category_from_str :: "string \<Rightarrow> string + pii_category" where
  "category_from_str s =
     (if s = ''account_number'' then Inr AccountNumber
      else if s = ''address'' then Inr Address
      else if s = ''email'' then Inr Email
      else if s = ''person'' then Inr Person
      else if s = ''phone'' then Inr Phone
      else if s = ''url'' then Inr Url
      else if s = ''date'' then Inr Date
      else if s = ''secret'' then Inr Secret
      else Inl s)"

definition pii_categories :: "pii_category list" where
  "pii_categories = [AccountNumber, Address, Email, Person, Phone, Url, Date, Secret]"

lemma in_pii_categories [simp]: "c \<in> set pii_categories"
  by (cases c) (simp_all add: pii_categories_def)

lemma if_Inr_cases: "(if b then Inr x else y) = Inr c \<Longrightarrow> (b \<Longrightarrow> x = c \<Longrightarrow> P) \<Longrightarrow> (y = Inr c \<Longrightarrow> P) \<Longrightarrow> P"
  by (auto split: if_splits)

lemma category_from_as_str [simp]: "category_from_str (category_as_str c) = Inr c"
  by (cases c) (simp_all add: category_from_str_def)

lemma category_as_str_eq [simp]: "category_as_str c = category_as_str d \<longleftrightarrow> c = d"
  by (metis category_from_as_str sum.inject(2))

lemma category_from_str_Inr: "category_from_str s = Inr c \<longleftrightarrow> s = category_as_str c"
proof
  show "category_from_str s = Inr c \<Longrightarrow> s = category_as_str c"
    unfolding category_from_str_def by (elim if_Inr_cases) simp_all
qed simp

subsection \<open>Scores\<close>

text \<open>A 32-bit float of the detector, and the product of a number of [0, 1] with 1000: the nearest float, ties to
  the even one. A float of exponent \<open>e\<close> is a multiple of \<open>2 ^ (e - 23)\<close>; the smallest normal exponent is -126.\<close>

datatype f32 = NaN | NegInf | PosInf | Finite rat

fun f32_max :: "f32 \<Rightarrow> f32 \<Rightarrow> f32" where
  "f32_max NaN y = y"
| "f32_max x NaN = x"
| "f32_max NegInf y = y"
| "f32_max x NegInf = x"
| "f32_max PosInf y = PosInf"
| "f32_max x PosInf = PosInf"
| "f32_max (Finite a) (Finite b) = Finite (max a b)"

fun f32_clamp01 :: "f32 \<Rightarrow> rat" where
  "f32_clamp01 NaN = 0"
| "f32_clamp01 NegInf = 0"
| "f32_clamp01 PosInf = 1"
| "f32_clamp01 (Finite a) = max 0 (min 1 a)"

fun f32_exponent :: "nat \<Rightarrow> rat \<Rightarrow> int" where
  "f32_exponent n v =
     (if n = 0 \<or> 2 powi (int n - 126) \<le> v then int n - 126 else f32_exponent (n - 1) v)"

declare f32_exponent.simps [simp del]

definition round_half_even :: "rat \<Rightarrow> int" where
  "round_half_even x =
     (let f = \<lfloor>x\<rfloor>; d = x - of_int f in
      if d < 1 / 2 \<or> (d = 1 / 2 \<and> even f) then f else f + 1)"

definition f32_round :: "rat \<Rightarrow> rat" where
  "f32_round v =
     (let u = 2 powi (f32_exponent 135 v - 23) in of_int (round_half_even (v / u)) * u)"

definition score_m :: "f32 \<Rightarrow> 16 word" where
  "score_m s = (if s = NaN then 0 else word_of_int \<lfloor>f32_round (f32_clamp01 s * 1000) + 1 / 2\<rfloor>)"

lemma round_half_even_le: "x \<le> of_int n \<Longrightarrow> round_half_even x \<le> n"
  by (auto simp: round_half_even_def Let_def) linarith+

lemma round_half_even_ge: "of_int n \<le> x \<Longrightarrow> n \<le> round_half_even x"
  by (auto simp: round_half_even_def Let_def) linarith+

lemma round_half_even_mono: "x \<le> y \<Longrightarrow> round_half_even x \<le> round_half_even y"
proof (cases "\<lfloor>x\<rfloor> = \<lfloor>y\<rfloor>")
  case True
  assume "x \<le> y"
  with True show ?thesis by (auto simp: round_half_even_def Let_def)
next
  case False
  assume "x \<le> y"
  then have "\<lfloor>x\<rfloor> + 1 \<le> \<lfloor>y\<rfloor>" using False floor_mono [of x y] by linarith
  then have "x \<le> of_int \<lfloor>y\<rfloor>" by linarith
  then have "round_half_even x \<le> \<lfloor>y\<rfloor>" by (rule round_half_even_le)
  also have "\<lfloor>y\<rfloor> \<le> round_half_even y" by (rule round_half_even_ge) simp
  finally show ?thesis .
qed

lemma f32_exponent_props:
  "-126 \<le> f32_exponent n v \<and> f32_exponent n v \<le> int n - 126
   \<and> (f32_exponent n v = -126 \<or> 2 powi f32_exponent n v \<le> v)
   \<and> (v < 2 powi (int n - 125) \<longrightarrow> v < 2 powi (f32_exponent n v + 1))"
proof (induction n v rule: f32_exponent.induct)
  case (1 n v)
  show ?case
  proof (cases "n = 0 \<or> 2 powi (int n - 126) \<le> v")
    case True
    then have "f32_exponent n v = int n - 126" by (subst f32_exponent.simps) auto
    with True show ?thesis by auto
  next
    case False
    then have eq: "f32_exponent n v = f32_exponent (n - 1) v" by (subst f32_exponent.simps) auto
    have "int (n - 1) - 125 = int n - 126" using False by simp
    then show ?thesis using 1 [OF False] False unfolding eq by auto
  qed
qed

lemma powi_mono_int: "a \<le> b \<Longrightarrow> (2::rat) powi a \<le> 2 powi b"
  by (simp add: power_int_increasing)

lemma f32_round_mono:
  assumes "0 \<le> v" "v \<le> w" "w < 1024"
  shows "f32_round v \<le> f32_round w"
proof -
  let ?e = "f32_exponent 135" and ?u = "\<lambda>e. (2::rat) powi (e - 23)"
  have top: "w < 2 powi (int 135 - 125)" using assms(3) by simp
  note ev = f32_exponent_props [of 135 v] and ew = f32_exponent_props [of 135 w]
  have upos: "0 < ?u e" for e by simp
  have split: "(2::rat) powi (e + n) = of_int (2 ^ nat n) * 2 powi e" if "0 \<le> n" for e n
  proof -
    have "(2::rat) powi (e + n) = 2 powi e * 2 powi n" by (rule power_int_add) simp
    also have "(2::rat) powi n = of_int (2 ^ nat n)" using that by (simp add: power_int_def)
    finally show ?thesis by (simp only: mult.commute)
  qed
  have u24: "(2::rat) powi (e + 1) = of_int (2 ^ 24) * ?u e" for e
    using split [of 24 "e - 23"] by (simp only: algebra_simps) simp
  have u23: "(2::rat) powi e = of_int (2 ^ 23) * ?u e" for e
    using split [of 23 "e - 23"] by (simp only: algebra_simps) simp
  show ?thesis
  proof (cases "?e v < ?e w")
    case True
    have "v < 2 powi (?e v + 1)" using ev top assms(2) by auto
    then have "v / ?u (?e v) \<le> of_int (2 ^ 24)"
      unfolding u24 using upos by (simp add: pos_divide_le_eq)
    then have "f32_round v \<le> of_int (2 ^ 24) * ?u (?e v)"
      using round_half_even_le [of "v / ?u (?e v)" "2 ^ 24"] upos
      unfolding f32_round_def Let_def by (intro mult_right_mono) (simp_all add: less_imp_le)
    also have "\<dots> = 2 powi (?e v + 1)" by (rule u24 [symmetric])
    also have "\<dots> \<le> 2 powi (?e w)" using True by (intro powi_mono_int) simp
    also have "\<dots> = of_int (2 ^ 23) * ?u (?e w)" by (rule u23)
    also have "\<dots> \<le> f32_round w"
    proof -
      have "2 powi ?e w \<le> w" using ew ev True by auto
      then have "of_int (2 ^ 23) \<le> w / ?u (?e w)"
        unfolding pos_le_divide_eq [OF upos] u23 [of "?e w", symmetric] .
      then show ?thesis
        using round_half_even_ge [of "2 ^ 23" "w / ?u (?e w)"] upos
        unfolding f32_round_def Let_def by (intro mult_right_mono) (simp_all add: less_imp_le)
    qed
    finally show ?thesis .
  next
    case False
    moreover have "?e v \<le> ?e w"
    proof (rule ccontr)
      assume *: "\<not> ?e v \<le> ?e w"
      then have "2 powi ?e v \<le> v" using ev ew by auto
      moreover have "w < 2 powi (?e w + 1)" using ew top by auto
      moreover have "(2::rat) powi (?e w + 1) \<le> 2 powi ?e v" using * by (intro powi_mono_int) simp
      ultimately show False using assms(2) by linarith
    qed
    ultimately have eq: "?e v = ?e w" by simp
    have "v / ?u (?e w) \<le> w / ?u (?e w)" using assms(2) upos by (simp add: divide_right_mono less_imp_le)
    then have "round_half_even (v / ?u (?e w)) \<le> round_half_even (w / ?u (?e w))" by (rule round_half_even_mono)
    then show ?thesis
      using upos unfolding f32_round_def Let_def eq by (intro mult_right_mono) (simp_all add: less_imp_le)
  qed
qed

lemma f32_round_0: "f32_round 0 = 0"
  by (simp add: f32_round_def round_half_even_def)

lemma f32_round_1000: "f32_round 1000 = 1000"
proof -
  have "f32_exponent 135 (1000::rat) = 9" by (subst f32_exponent.simps) simp
  moreover have "(2::rat) powi (9 - 23) = 1 / 16384" by (simp add: power_int_def power_divide)
  moreover have "round_half_even (1000 / (1 / 16384)) = 16384000" by (simp add: round_half_even_def)
  ultimately show ?thesis by (simp add: f32_round_def Let_def)
qed

lemma clamp01_bounds: "0 \<le> f32_clamp01 s" "f32_clamp01 s \<le> 1"
  by (cases s; simp)+

text \<open>The score in thousandths is a number of 0 to 1000, and 1000 at the top of the scale.\<close>

definition thousandths :: "f32 \<Rightarrow> int" where
  "thousandths s = (if s = NaN then 0 else \<lfloor>f32_round (f32_clamp01 s * 1000) + 1 / 2\<rfloor>)"

lemma thousandths_bounds: "0 \<le> thousandths s" "thousandths s \<le> 1000"
proof -
  have "f32_round 0 \<le> f32_round (f32_clamp01 s * 1000)"
    using clamp01_bounds [of s] by (intro f32_round_mono) auto
  moreover have "f32_round (f32_clamp01 s * 1000) \<le> f32_round 1000"
    using clamp01_bounds [of s] by (intro f32_round_mono) auto
  ultimately show "0 \<le> thousandths s" "thousandths s \<le> 1000"
    by (auto simp: thousandths_def f32_round_0 f32_round_1000 floor_le_iff)
qed

lemma score_m_thousandths: "score_m s = word_of_int (thousandths s)" "uint (score_m s) = thousandths s"
proof -
  show eq: "score_m s = word_of_int (thousandths s)" by (simp add: score_m_def thousandths_def)
  show "uint (score_m s) = thousandths s"
    using thousandths_bounds [of s] by (simp add: eq uint_word_of_int)
qed

lemma thousandths_mono: "s \<noteq> NaN \<Longrightarrow> t \<noteq> NaN \<Longrightarrow> f32_clamp01 s \<le> f32_clamp01 t \<Longrightarrow> thousandths s \<le> thousandths t"
  using clamp01_bounds [of s] clamp01_bounds [of t]
    f32_round_mono [of "f32_clamp01 s * 1000" "f32_clamp01 t * 1000"]
  by (auto simp: thousandths_def intro!: floor_mono)

lemma score_m_top: "1 \<le> f32_clamp01 s \<Longrightarrow> s \<noteq> NaN \<Longrightarrow> score_m s = 1000"
proof -
  assume *: "1 \<le> f32_clamp01 s" "s \<noteq> NaN"
  then have "f32_clamp01 s = 1" using clamp01_bounds [of s] by simp
  with * have "thousandths s = 1000" by (simp add: thousandths_def f32_round_1000 floor_eq_iff)
  then show "score_m s = 1000" by (simp add: score_m_thousandths(1))
qed

lemma score_m_max: "score_m s \<le> score_m (f32_max s t)" "score_m t \<le> score_m (f32_max s t)"
proof -
  have le: "score_m a \<le> score_m b" if "a = NaN \<or> a \<noteq> NaN \<and> b \<noteq> NaN \<and> f32_clamp01 a \<le> f32_clamp01 b" for a b
    using that thousandths_mono [of a b] thousandths_bounds(1) [of b] thousandths_def [of NaN]
    by (auto simp: word_le_def score_m_thousandths(2))
  show "score_m s \<le> score_m (f32_max s t)" by (rule le) (cases s; cases t; simp add: max_def min_def)
  show "score_m t \<le> score_m (f32_max s t)" by (rule le) (cases s; cases t; simp add: max_def min_def)
qed

subsection \<open>Spans and the activation policy\<close>

record pii_span =
  sp_start :: nat
  sp_len :: nat
  sp_category :: pii_category
  sp_score :: f32

definition span_score_m :: "pii_span \<Rightarrow> 16 word" where
  "span_score_m s = score_m (sp_score s)"

definition covers :: "pii_span \<Rightarrow> nat \<Rightarrow> bool" where
  "covers s i \<longleftrightarrow> sp_start s \<le> i \<and> i < sp_start s + sp_len s"

definition THRESHOLD_MAX_M :: "16 word" where
  "THRESHOLD_MAX_M = 1000"

text \<open>The two ordered maps of a policy: thresholds by category, and exception patterns by tenant, in key order.\<close>

record privacy_policy =
  pp_mask :: bool
  pp_thresholds :: "pii_category \<Rightarrow> 16 word option"
  pp_exceptions :: "(string \<times> bytes list) list"

definition policy_default :: privacy_policy where
  "policy_default = \<lparr>pp_mask = False, pp_thresholds = (\<lambda>_. None), pp_exceptions = []\<rparr>"

definition masks :: "privacy_policy \<Rightarrow> bool" where
  "masks p = pp_mask p"

definition threshold_m :: "privacy_policy \<Rightarrow> pii_category \<Rightarrow> 16 word option" where
  "threshold_m p c = pp_thresholds p c"

definition enabled_categories :: "privacy_policy \<Rightarrow> pii_category list" where
  "enabled_categories p = filter (\<lambda>c. pp_thresholds p c \<noteq> None) pii_categories"

definition exceptions_for :: "privacy_policy \<Rightarrow> string \<Rightarrow> bytes list" where
  "exceptions_for p tenant = (case map_of (pp_exceptions p) tenant of None \<Rightarrow> [] | Some ps \<Rightarrow> ps)"

definition marks :: "privacy_policy \<Rightarrow> pii_span \<Rightarrow> bool" where
  "marks p s = (case threshold_m p (sp_category s) of None \<Rightarrow> False | Some t \<Rightarrow> 0 < t \<and> t \<le> span_score_m s)"

definition str_contains :: "bytes \<Rightarrow> bytes \<Rightarrow> bool" where
  "str_contains text pattern = list_ex (\<lambda>i. take (length pattern) (drop i text) = pattern) [0..<length text + 1]"

definition str_get :: "bytes \<Rightarrow> nat \<Rightarrow> nat \<Rightarrow> bytes option" where
  "str_get body a b =
     (if a \<le> b \<and> b \<le> length body \<and> is_char_boundary body a \<and> is_char_boundary body b
      then Some (slice body a b) else None)"

text \<open>The pattern that drops a span, if any: the first nonempty one that its text contains. The digest that names a
  pattern is a parameter.\<close>

definition covering_pattern :: "bytes list \<Rightarrow> bytes \<Rightarrow> pii_span \<Rightarrow> bytes option" where
  "covering_pattern patterns body s =
     (case str_get body (sp_start s) (usize_saturating_add (sp_start s) (sp_len s)) of
        None \<Rightarrow> None
      | Some text \<Rightarrow> List.find (\<lambda>pattern. pattern \<noteq> [] \<and> str_contains text pattern) patterns)"

fun retain_loop ::
  "(bytes \<Rightarrow> string) \<Rightarrow> bytes list \<Rightarrow> bytes \<Rightarrow> pii_span list \<Rightarrow> (string \<Rightarrow> nat option) \<Rightarrow> pii_span list \<times> (string \<Rightarrow> nat option)"
where
  "retain_loop pattern_id patterns body [] hits = ([], hits)"
| "retain_loop pattern_id patterns body (s # ss) hits =
     (case covering_pattern patterns body s of
        Some pattern \<Rightarrow>
          (let n = (case hits (pattern_id pattern) of None \<Rightarrow> 0 | Some n \<Rightarrow> n) in
           retain_loop pattern_id patterns body ss (hits(pattern_id pattern \<mapsto> n + 1)))
      | None \<Rightarrow>
          (let (kept, hits') = retain_loop pattern_id patterns body ss hits in (s # kept, hits')))"

definition retain ::
  "(bytes \<Rightarrow> string) \<Rightarrow> privacy_policy \<Rightarrow> string \<Rightarrow> bytes \<Rightarrow> pii_span list \<Rightarrow> pii_span list \<times> (string \<Rightarrow> nat option)"
where
  "retain pattern_id p tenant body spans =
     (let patterns = exceptions_for p tenant in
      if patterns = [] then (spans, Map.empty) else retain_loop pattern_id patterns body spans Map.empty)"

lemma retain_loop_spans:
  "fst (retain_loop pattern_id patterns body ss hits) = filter (\<lambda>s. covering_pattern patterns body s = None) ss"
  by (induction ss arbitrary: hits) (auto simp: Let_def case_prod_beta split: option.splits)

lemma retain_spans:
  "fst (retain pattern_id p tenant body ss)
   = filter (\<lambda>s. covering_pattern (exceptions_for p tenant) body s = None) ss"
proof (cases "exceptions_for p tenant = []")
  case True
  then have "covering_pattern (exceptions_for p tenant) body = (\<lambda>s. None)"
    by (auto simp: covering_pattern_def split: option.splits)
  with True show ?thesis by (simp add: retain_def)
qed (simp add: retain_def Let_def retain_loop_spans)

lemma marks_mono:
  assumes "marks p s" "sp_category s = sp_category t" "span_score_m s \<le> span_score_m t"
  shows "marks p t"
  using assms by (auto simp: marks_def split: option.splits intro: order_trans)

subsection \<open>Budgets\<close>

datatype surface = Async | Sync

record budget =
  bg_timeout_ms :: "64 word"
  bg_max_input_bytes :: nat

record privacy_budgets =
  pb_max_input_bytes :: nat
  pb_window_overlap_bytes :: nat
  pb_async_timeout_ms :: "64 word"
  pb_sync_base_ms :: "64 word"
  pb_sync_per_kib_ms :: "64 word"
  pb_sync_cap_ms :: "64 word"

definition budgets_default :: privacy_budgets where
  "budgets_default = \<lparr>pb_max_input_bytes = 262144, pb_window_overlap_bytes = 512, pb_async_timeout_ms = 10000,
     pb_sync_base_ms = 2000, pb_sync_per_kib_ms = 0, pb_sync_cap_ms = 20000\<rparr>"

definition for_surface :: "privacy_budgets \<Rightarrow> surface \<Rightarrow> nat \<Rightarrow> budget" where
  "for_surface b surface input_bytes =
     \<lparr>bg_timeout_ms =
        (case surface of
           Async \<Rightarrow> pb_async_timeout_ms b
         | Sync \<Rightarrow>
             (let kib = of_nat ((input_bytes + 1023) div 1024);
                  proportional = saturating_add (pb_sync_base_ms b) (saturating_mul (pb_sync_per_kib_ms b) kib) in
              min proportional (pb_sync_cap_ms b))),
      bg_max_input_bytes = pb_max_input_bytes b\<rparr>"

end
