(* ===== verification/Privacy_Merge.thy ===== *)
theory Privacy_Merge
  imports Pii
begin

text \<open>
  Rebasing, validation and fusion of detected spans (\<open>gradatum-privacy/src/merge.rs\<close>). The growing vector
  whose last element is widened is a list with its last element at the end.
\<close>

record merge_stats =
  ms_rejected_out_of_bounds :: nat
  ms_rejected_utf8_boundary :: nat
  ms_touching_window_edge :: nat
  ms_merged :: nat

definition stats_zero :: merge_stats where
  "stats_zero = \<lparr>ms_rejected_out_of_bounds = 0, ms_rejected_utf8_boundary = 0, ms_touching_window_edge = 0,
     ms_merged = 0\<rparr>"

definition rebase :: "pii_span list \<Rightarrow> nat \<Rightarrow> pii_span list" where
  "rebase spans window_start =
     List.map (\<lambda>s. s\<lparr>sp_start := usize_saturating_add (sp_start s) window_start\<rparr>) spans"

fun validate_spans :: "bytes \<Rightarrow> pii_span list \<Rightarrow> merge_stats \<Rightarrow> pii_span list \<times> merge_stats" where
  "validate_spans body [] stats = ([], stats)"
| "validate_spans body (s # ss) stats =
     (case checked_add (sp_start s) (sp_len s) of
        None \<Rightarrow>
          validate_spans body ss (stats\<lparr>ms_rejected_out_of_bounds := ms_rejected_out_of_bounds stats + 1\<rparr>)
      | Some e \<Rightarrow>
          if length body < e then
            validate_spans body ss (stats\<lparr>ms_rejected_out_of_bounds := ms_rejected_out_of_bounds stats + 1\<rparr>)
          else if \<not> is_char_boundary body (sp_start s) \<or> \<not> is_char_boundary body e then
            validate_spans body ss (stats\<lparr>ms_rejected_utf8_boundary := ms_rejected_utf8_boundary stats + 1\<rparr>)
          else (let (accepted, stats') = validate_spans body ss stats in (s # accepted, stats')))"

definition span_union :: "pii_span \<Rightarrow> pii_span \<Rightarrow> pii_span" where
  "span_union current s =
     (let e = max (sp_start current + sp_len current) (sp_start s + sp_len s) in
      current\<lparr>sp_len := e - sp_start current, sp_score := f32_max (sp_score current) (sp_score s)\<rparr>)"

fun fuse :: "pii_span list \<Rightarrow> pii_span list \<Rightarrow> nat \<Rightarrow> pii_span list \<times> nat" where
  "fuse merged [] n = (merged, n)"
| "fuse merged (s # ss) n =
     (if merged \<noteq> [] \<and> sp_category (last merged) = sp_category s
         \<and> sp_start s < sp_start (last merged) + sp_len (last merged)
      then fuse (butlast merged @ [span_union (last merged) s]) ss (n + 1)
      else fuse (merged @ [s]) ss n)"

definition validate_and_merge :: "bytes \<Rightarrow> pii_span list \<Rightarrow> pii_span list \<times> merge_stats" where
  "validate_and_merge body spans =
     (let (accepted, stats) = validate_spans body spans stats_zero;
          grouped = sort_key (\<lambda>s. (category_as_str (sp_category s), sp_start s, - int (sp_len s))) accepted;
          (merged, n) = fuse [] grouped (ms_merged stats) in
      (sort_key (\<lambda>s. (sp_start s, - int (sp_len s))) merged, stats\<lparr>ms_merged := n\<rparr>))"

subsection \<open>Validation\<close>

definition span_in :: "bytes \<Rightarrow> pii_span \<Rightarrow> bool" where
  "span_in body s \<longleftrightarrow>
     sp_start s + sp_len s \<le> USIZE_MAX \<and> sp_start s + sp_len s \<le> length body
     \<and> is_char_boundary body (sp_start s) \<and> is_char_boundary body (sp_start s + sp_len s)"

lemma validate_spans_filter: "fst (validate_spans body ss stats) = filter (span_in body) ss"
  by (induction ss arbitrary: stats) (auto simp: span_in_def checked_add_def case_prod_beta)

lemma validate_spans_counts:
  "let st = snd (validate_spans body ss stats) in
   ms_rejected_out_of_bounds st + ms_rejected_utf8_boundary st + length (filter (span_in body) ss)
     = ms_rejected_out_of_bounds stats + ms_rejected_utf8_boundary stats + length ss
   \<and> ms_merged st = ms_merged stats \<and> ms_touching_window_edge st = ms_touching_window_edge stats"
  by (induction ss arbitrary: stats) (auto simp: span_in_def checked_add_def case_prod_beta Let_def)

subsection \<open>Fusion\<close>

definition span_count :: "pii_category \<Rightarrow> nat \<Rightarrow> pii_span list \<Rightarrow> nat" where
  "span_count c i ss = length (filter (\<lambda>s. sp_category s = c \<and> covers s i) ss)"

text \<open>A span kept whole by another: same category, range inside, score in thousandths at most as high.\<close>

definition absorbed :: "pii_span \<Rightarrow> pii_span \<Rightarrow> bool" where
  "absorbed s t \<longleftrightarrow>
     sp_category s = sp_category t \<and> sp_start t \<le> sp_start s
     \<and> sp_start s + sp_len s \<le> sp_start t + sp_len t \<and> span_score_m s \<le> span_score_m t"

lemma absorbed_refl: "absorbed s s"
  by (simp add: absorbed_def)

lemma absorbed_trans: "absorbed s t \<Longrightarrow> absorbed t u \<Longrightarrow> absorbed s u"
  by (auto simp: absorbed_def)

text \<open>What holds between the spans already fused and those still to come: every earlier span ends before any
  later one of its category starts, except that the last one may still grow.\<close>

definition fusable :: "pii_span list \<Rightarrow> pii_span list \<Rightarrow> bool" where
  "fusable merged ss \<longleftrightarrow>
     (\<forall>m\<in>set (butlast merged). \<forall>s\<in>set ss. sp_category m = sp_category s \<longrightarrow> sp_start m + sp_len m \<le> sp_start s)
     \<and> (merged \<noteq> [] \<longrightarrow>
          (\<forall>s\<in>set ss. (category_as_str (sp_category (last merged)), sp_start (last merged))
             \<le> (category_as_str (sp_category s), sp_start s)))
     \<and> (\<forall>c i. span_count c i merged \<le> 1)"

lemma span_count_append: "span_count c i (xs @ ys) = span_count c i xs + span_count c i ys"
  by (simp add: span_count_def)

lemma span_count_single: "span_count c i [s] = (if sp_category s = c \<and> covers s i then 1 else 0)"
  by (simp add: span_count_def)

lemma span_count_0: "span_count c i ss = 0 \<longleftrightarrow> (\<forall>s\<in>set ss. sp_category s = c \<longrightarrow> \<not> covers s i)"
  by (auto simp: span_count_def filter_empty_conv)

lemma span_union_props:
  assumes "sp_category m = sp_category s" "sp_start m \<le> sp_start s" "sp_start s < sp_start m + sp_len m"
  shows "sp_category (span_union m s) = sp_category m" "sp_start (span_union m s) = sp_start m"
    "sp_start m + sp_len (span_union m s) = max (sp_start m + sp_len m) (sp_start s + sp_len s)"
    "covers (span_union m s) i \<longleftrightarrow> covers m i \<or> covers s i"
    "absorbed m (span_union m s)" "absorbed s (span_union m s)"
    "span_in body m \<Longrightarrow> span_in body s \<Longrightarrow> span_in body (span_union m s)"
proof -
  let ?u = "span_union m s"
  show c: "sp_category ?u = sp_category m" and st: "sp_start ?u = sp_start m"
    by (simp_all add: span_union_def Let_def)
  show e: "sp_start m + sp_len ?u = max (sp_start m + sp_len m) (sp_start s + sp_len s)"
    using assms(2) by (simp add: span_union_def Let_def)
  show "covers ?u i \<longleftrightarrow> covers m i \<or> covers s i"
    using assms(2,3) e by (auto simp: covers_def st)
  have sc: "span_score_m m \<le> span_score_m ?u" "span_score_m s \<le> span_score_m ?u"
    by (simp_all add: span_score_m_def span_union_def Let_def score_m_max)
  show "absorbed m ?u" "absorbed s ?u"
    using assms e sc by (auto simp: absorbed_def c st)
  show "span_in body ?u" if "span_in body m" "span_in body s"
    using that e by (auto simp: span_in_def st max_def)
qed

lemma key_le:
  "(category_as_str c, i::nat) \<le> (category_as_str d, j) \<longleftrightarrow> category_as_str c < category_as_str d \<or> c = d \<and> i \<le> j"
  by (auto simp: less_eq_prod_simp)

lemma key_between:
  assumes "(category_as_str c, i::nat) \<le> (category_as_str d, j)" "(category_as_str d, j) \<le> (category_as_str c, k)"
  shows "c = d \<and> j \<le> k"
  using assms unfolding key_le by auto

abbreviation span_key :: "pii_span \<Rightarrow> string \<times> nat" where
  "span_key s \<equiv> (category_as_str (sp_category s), sp_start s)"

text \<open>One step of the loop keeps the relation between fused and pending spans.\<close>

lemma fusable_union:
  assumes "fusable (ms @ [m]) (s # ss)" "sp_category m = sp_category s" "sp_start s < sp_start m + sp_len m"
  shows "fusable (ms @ [span_union m s]) ss"
    "span_count c i (ms @ [span_union m s]) = 1 \<longleftrightarrow> span_count c i (ms @ [m]) = 1 \<or> sp_category s = c \<and> covers s i"
proof -
  let ?u = "span_union m s"
  have A: "\<forall>x\<in>set ms. \<forall>t\<in>set (s # ss). sp_category x = sp_category t \<longrightarrow> sp_start x + sp_len x \<le> sp_start t"
    and B: "\<forall>t\<in>set (s # ss). span_key m \<le> span_key t" and C: "\<And>c i. span_count c i (ms @ [m]) \<le> 1"
    using assms(1) by (simp_all add: fusable_def)
  have "sp_start m \<le> sp_start s" using B assms(2) by (simp add: less_eq_prod_simp)
  note u = span_union_props [OF assms(2) this assms(3)]
  have none: "span_count (sp_category s) i ms = 0" if "covers s i" for i
    using A that by (fastforce simp: span_count_0 covers_def)
  have count: "span_count c i (ms @ [?u])
    = (if sp_category s = c \<and> covers s i then 1 else span_count c i (ms @ [m]))" for c i
    using none [of i] u(1,4) assms(2) by (auto simp: span_count_append span_count_single)
  show "span_count c i (ms @ [?u]) = 1 \<longleftrightarrow> span_count c i (ms @ [m]) = 1 \<or> sp_category s = c \<and> covers s i"
    by (auto simp: count)
  show "fusable (ms @ [?u]) ss"
    unfolding fusable_def using A B C u(1,2) by (simp add: count)
qed

lemma fusable_push:
  assumes "fusable merged (s # ss)" "sorted (List.map span_key (s # ss))"
    and new: "merged \<noteq> [] \<Longrightarrow> sp_category (last merged) = sp_category s
      \<Longrightarrow> sp_start (last merged) + sp_len (last merged) \<le> sp_start s"
  shows "fusable (merged @ [s]) ss"
    "span_count c i (merged @ [s]) = 1 \<longleftrightarrow> span_count c i merged = 1 \<or> sp_category s = c \<and> covers s i"
proof -
  have A: "\<And>x t. x \<in> set (butlast merged) \<Longrightarrow> t \<in> set (s # ss) \<Longrightarrow> sp_category x = sp_category t
      \<Longrightarrow> sp_start x + sp_len x \<le> sp_start t"
    and B: "\<And>t. merged \<noteq> [] \<Longrightarrow> t \<in> set (s # ss) \<Longrightarrow> span_key (last merged) \<le> span_key t"
    and C: "\<And>c i. span_count c i merged \<le> 1"
    using assms(1) unfolding fusable_def by blast+
  have S: "\<And>t. t \<in> set ss \<Longrightarrow> span_key s \<le> span_key t" using assms(2) by simp
  have before: "sp_start x + sp_len x \<le> sp_start t"
    if x: "x \<in> set merged" and t: "t \<in> set (s # ss)" and c: "sp_category x = sp_category t" for x t
  proof (cases "x \<in> set (butlast merged)")
    case True
    then show ?thesis using A t c by blast
  next
    case False
    then have last: "merged \<noteq> []" "x = last merged"
      using x by (cases merged rule: rev_cases; simp)+
    have le: "sp_category s = sp_category x \<and> sp_start s \<le> sp_start t"
    proof (cases "t = s")
      case False
      then show ?thesis
        using B [OF last(1), of s] S [of t] t c key_between [of "sp_category x" "sp_start x" "sp_category s" "sp_start s" "sp_start t"] last(2)
        by auto
    qed (use c in simp)
    then show ?thesis using new [OF last(1)] last(2) by simp
  qed
  have none: "span_count (sp_category s) i merged = 0" if "covers s i" for i
    using before [of _ s] that by (fastforce simp: span_count_0 covers_def)
  have count: "span_count c i (merged @ [s]) = (if sp_category s = c \<and> covers s i then 1 else span_count c i merged)" for c i
    using none [of i] by (auto simp: span_count_append span_count_single)
  show "span_count c i (merged @ [s]) = 1 \<longleftrightarrow> span_count c i merged = 1 \<or> sp_category s = c \<and> covers s i"
    by (auto simp: count)
  show "fusable (merged @ [s]) ss"
    unfolding fusable_def using before S C by (auto simp: count)
qed

text \<open>What the loop makes of fused and pending spans.\<close>

definition fuse_spec :: "bytes \<Rightarrow> pii_span list \<Rightarrow> pii_span list \<Rightarrow> nat \<Rightarrow> pii_span list \<times> nat \<Rightarrow> bool" where
  "fuse_spec body merged ss n out \<longleftrightarrow>
     (\<forall>c i. span_count c i (fst out) =
        (if span_count c i merged = 1 \<or> (\<exists>s\<in>set ss. sp_category s = c \<and> covers s i) then 1 else 0))
     \<and> (\<forall>s\<in>set (merged @ ss). \<exists>t\<in>set (fst out). absorbed s t)
     \<and> ((\<forall>s\<in>set (merged @ ss). span_in body s) \<longrightarrow> (\<forall>t\<in>set (fst out). span_in body t))
     \<and> length (fst out) + snd out = length merged + length ss + n"

lemma fuse_spec_step:
  assumes count: "\<And>c i. span_count c i merged' = 1 \<longleftrightarrow> span_count c i merged = 1 \<or> sp_category s = c \<and> covers s i"
    and absorb: "\<And>x. x \<in> set (merged @ [s]) \<Longrightarrow> \<exists>y\<in>set merged'. absorbed x y"
    and valid: "(\<And>x. x \<in> set (merged @ [s]) \<Longrightarrow> span_in body x) \<Longrightarrow> \<forall>y\<in>set merged'. span_in body y"
    and len: "length merged' + n' = length merged + 1 + n"
    and spec: "fuse_spec body merged' ss n' out"
  shows "fuse_spec body merged (s # ss) n out"
proof -
  have "\<exists>t\<in>set (fst out). absorbed x t" if "x \<in> set (merged @ s # ss)" for x
  proof -
    have "\<exists>y\<in>set (merged' @ ss). absorbed x y"
      using that absorb [of x] absorbed_refl [of x] by auto
    then obtain y where "y \<in> set (merged' @ ss)" "absorbed x y" by blast
    moreover have "\<exists>t\<in>set (fst out). absorbed y t" using spec calculation(1) unfolding fuse_spec_def by blast
    ultimately show ?thesis using absorbed_trans by blast
  qed
  moreover have "\<forall>t\<in>set (fst out). span_in body t" if "\<forall>x\<in>set (merged @ s # ss). span_in body x"
  proof -
    have "\<forall>y\<in>set (merged' @ ss). span_in body y" using that valid by auto
    then show ?thesis using spec unfolding fuse_spec_def by blast
  qed
  moreover have "span_count c i (fst out) =
      (if span_count c i merged = 1 \<or> (\<exists>x\<in>set (s # ss). sp_category x = c \<and> covers x i) then 1 else 0)" for c i
    using spec count [of c i] unfolding fuse_spec_def by auto
  moreover have "length (fst out) + snd out = length merged + length (s # ss) + n"
    using spec len unfolding fuse_spec_def by simp
  ultimately show ?thesis unfolding fuse_spec_def by blast
qed

lemma fuse_props: "fusable merged ss \<Longrightarrow> sorted (List.map span_key ss) \<Longrightarrow> fuse_spec body merged ss n (fuse merged ss n)"
proof (induction merged ss n rule: fuse.induct)
  case (1 merged n)
  have "span_count c i merged \<le> 1" for c i using 1(1) by (simp add: fusable_def)
  then have "span_count c i merged = (if span_count c i merged = 1 then 1 else 0)" for c i
    by (metis le_neq_implies_less less_one)
  then show ?case by (auto simp: fuse_spec_def intro: absorbed_refl)
next
  case (2 merged s ss n)
  have srt: "sorted (List.map span_key ss)" using 2(4) by simp
  show ?case
  proof (cases "merged \<noteq> [] \<and> sp_category (last merged) = sp_category s
      \<and> sp_start s < sp_start (last merged) + sp_len (last merged)")
    case True
    then obtain ms m where m: "merged = ms @ [m]" by (metis append_butlast_last_id)
    let ?u = "span_union m s"
    have c: "sp_category m = sp_category s" "sp_start s < sp_start m + sp_len m" using True by (simp_all add: m)
    note f = fusable_union [OF 2(3) [unfolded m] c]
    have "span_key m \<le> span_key s" using 2(3) by (simp add: fusable_def m)
    then have "sp_start m \<le> sp_start s" using c by (simp add: less_eq_prod_simp)
    note u = span_union_props [OF c(1) this c(2)]
    have eqm: "butlast merged @ [span_union (last merged) s] = ms @ [?u]" by (simp add: m)
    have eq: "fuse merged (s # ss) n = fuse (ms @ [?u]) ss (n + 1)" using True by (simp add: m)
    have absorb: "\<exists>y\<in>set (ms @ [?u]). absorbed x y" if "x \<in> set (merged @ [s])" for x
      using that u(5,6) absorbed_refl [of x] by (auto simp: m)
    show ?thesis
      unfolding eq
      by (rule fuse_spec_step [where merged' = "ms @ [?u]" and n' = "n + 1", OF _ absorb])
        (use f(2) u(7) 2(1) [OF True, unfolded eqm, OF f(1) srt] in \<open>auto simp: m\<close>)
  next
    case False
    then have eq: "fuse merged (s # ss) n = fuse (merged @ [s]) ss n" by auto
    have new: "merged \<noteq> [] \<Longrightarrow> sp_category (last merged) = sp_category s
      \<Longrightarrow> sp_start (last merged) + sp_len (last merged) \<le> sp_start s" using False by auto
    note f = fusable_push [OF 2(3,4) new]
    have absorb: "\<exists>y\<in>set (merged @ [s]). absorbed x y" if "x \<in> set (merged @ [s])" for x
      using that absorbed_refl [of x] by blast
    show ?thesis
      unfolding eq
      by (rule fuse_spec_step [where merged' = "merged @ [s]" and n' = n, OF _ absorb])
        (use f(2) 2(2) [OF False f(1) srt] in auto)
  qed
qed

lemma sorted_weaken:
  assumes "sorted (List.map g xs)" "\<And>x y. g x \<le> g y \<Longrightarrow> h x \<le> h y"
  shows "sorted (List.map h xs)"
  using assms by (induction xs) auto

lemma span_count_sort: "span_count c i (sort_key k xs) = span_count c i xs"
  by (simp add: span_count_def filter_sort)

text \<open>The whole pass, in terms of the spans handed in.\<close>

lemma validate_and_merge_props:
  fixes body spans
  defines "out \<equiv> validate_and_merge body spans"
  shows "span_count c i (fst out) = (if \<exists>s\<in>set spans. span_in body s \<and> sp_category s = c \<and> covers s i then 1 else 0)"
    "\<lbrakk>s \<in> set spans; span_in body s\<rbrakk> \<Longrightarrow> \<exists>t\<in>set (fst out). absorbed s t"
    "t \<in> set (fst out) \<Longrightarrow> span_in body t"
    "sorted (List.map sp_start (fst out))"
    "ms_rejected_out_of_bounds (snd out) + ms_rejected_utf8_boundary (snd out) + ms_merged (snd out) + length (fst out)
     = length spans"
    "ms_touching_window_edge (snd out) = 0"
proof -
  let ?acc = "filter (span_in body) spans"
  let ?grouped = "sort_key (\<lambda>s. (category_as_str (sp_category s), sp_start s, - int (sp_len s))) ?acc"
  let ?st = "snd (validate_spans body spans stats_zero)"
  let ?f = "fuse [] ?grouped (ms_merged ?st)"
  have out: "out = (sort_key (\<lambda>s. (sp_start s, - int (sp_len s))) (fst ?f), ?st\<lparr>ms_merged := snd ?f\<rparr>)"
    using validate_spans_filter [of body spans stats_zero]
    by (simp add: out_def validate_and_merge_def case_prod_beta Let_def)
  have "sorted (List.map span_key ?grouped)"
    by (rule sorted_weaken [OF sorted_sort_key]) (auto simp: less_eq_prod_simp)
  then have spec: "fuse_spec body [] ?grouped (ms_merged ?st) ?f"
    by (intro fuse_props) (simp_all add: fusable_def span_count_def)
  have all: "(\<forall>x\<in>set ([] @ ?grouped). Q x) \<longleftrightarrow> (\<forall>x\<in>set spans. span_in body x \<longrightarrow> Q x)" for Q by auto
  have "span_count c i (fst ?f) =
      (if span_count c i [] = 1 \<or> (\<exists>s\<in>set ?grouped. sp_category s = c \<and> covers s i) then 1 else 0)"
    using spec unfolding fuse_spec_def by blast
  then show "span_count c i (fst out) = (if \<exists>s\<in>set spans. span_in body s \<and> sp_category s = c \<and> covers s i then 1 else 0)"
    unfolding out fst_conv span_count_sort by (simp add: span_count_def [of c i "[]"] conj_assoc Bex_def)
  have "\<forall>x\<in>set spans. span_in body x \<longrightarrow> (\<exists>t\<in>set (fst ?f). absorbed x t)"
    using spec unfolding fuse_spec_def all by blast
  then show "\<lbrakk>s \<in> set spans; span_in body s\<rbrakk> \<Longrightarrow> \<exists>t\<in>set (fst out). absorbed s t"
    unfolding out fst_conv set_sort by blast
  have "\<forall>t\<in>set (fst ?f). span_in body t" using spec unfolding fuse_spec_def all by blast
  then show "t \<in> set (fst out) \<Longrightarrow> span_in body t" unfolding out fst_conv set_sort by blast
  show "sorted (List.map sp_start (fst out))"
    unfolding out fst_conv by (rule sorted_weaken [OF sorted_sort_key]) (auto simp: less_eq_prod_simp)
  have "length (fst ?f) + snd ?f = length ?acc + ms_merged ?st"
    using spec by (simp add: fuse_spec_def)
  then show "ms_rejected_out_of_bounds (snd out) + ms_rejected_utf8_boundary (snd out) + ms_merged (snd out)
      + length (fst out) = length spans"
    using validate_spans_counts [of body spans stats_zero] by (simp add: out Let_def stats_zero_def)
  show "ms_touching_window_edge (snd out) = 0"
    using validate_spans_counts [of body spans stats_zero] by (simp add: out Let_def stats_zero_def)
qed

end
