(* ===== verification/Pii_Mask.thy ===== *)
theory Pii_Mask
  imports Pii
begin

text \<open>
  The rewrite that masks spans of a text (\<open>mask_spans\<close> of \<open>gradatum-core/src/pii.rs\<close>) and its equivalence with a
  reference that looks at every byte on its own.
\<close>

definition MASK_FILLER :: bytes where
  "MASK_FILLER = List.map of_char ''[redacted]''"

definition span_range :: "bytes \<Rightarrow> pii_span \<Rightarrow> (nat \<times> nat) option" where
  "span_range body s =
     (case checked_add (sp_start s) (sp_len s) of
        None \<Rightarrow> None
      | Some e \<Rightarrow>
          if e \<le> sp_start s \<or> length body < e
             \<or> \<not> is_char_boundary body (sp_start s) \<or> \<not> is_char_boundary body e
          then None else Some (sp_start s, e))"

fun merge_ranges :: "(nat \<times> nat) list \<Rightarrow> (nat \<times> nat) list \<Rightarrow> (nat \<times> nat) list" where
  "merge_ranges merged [] = merged"
| "merge_ranges merged ((a, b) # rs) =
     (if merged \<noteq> [] \<and> a \<le> snd (last merged)
      then merge_ranges (butlast merged @ [(fst (last merged), max (snd (last merged)) b)]) rs
      else merge_ranges (merged @ [(a, b)]) rs)"

fun mask_render :: "bytes \<Rightarrow> nat \<Rightarrow> (nat \<times> nat) list \<Rightarrow> bytes" where
  "mask_render body cursor [] = drop cursor body"
| "mask_render body cursor ((a, b) # rs) = slice body cursor a @ MASK_FILLER @ mask_render body b rs"

definition mask_spans :: "bytes \<Rightarrow> pii_span list \<Rightarrow> bytes" where
  "mask_spans body spans =
     (let ranges = List.map_filter (span_range body) spans in
      if ranges = [] then body else mask_render body 0 (merge_ranges [] (sort ranges)))"

text \<open>The reference: a byte outside the masked positions stays, the first position of a masked run becomes the
  filler, the others disappear.\<close>

definition mask_byte :: "(nat \<Rightarrow> bool) \<Rightarrow> bytes \<Rightarrow> nat \<Rightarrow> bytes" where
  "mask_byte P body i =
     (if \<not> P i then [body ! i] else if i = 0 \<or> \<not> P (i - 1) then MASK_FILLER else [])"

definition mask_ref :: "(nat \<Rightarrow> bool) \<Rightarrow> bytes \<Rightarrow> bytes" where
  "mask_ref P body = concat (List.map (mask_byte P body) [0..<length body])"

definition in_ranges :: "(nat \<times> nat) list \<Rightarrow> nat \<Rightarrow> bool" where
  "in_ranges rs i \<longleftrightarrow> (\<exists>(a, b)\<in>set rs. a \<le> i \<and> i < b)"

definition masked_at :: "bytes \<Rightarrow> pii_span list \<Rightarrow> nat \<Rightarrow> bool" where
  "masked_at body spans i \<longleftrightarrow> (\<exists>s\<in>set spans. span_range body s \<noteq> None \<and> covers s i)"

text \<open>Ranges in order, nonempty, with a gap between any two of them, inside the text.\<close>

fun separated :: "(nat \<times> nat) list \<Rightarrow> bool" where
  "separated [] = True"
| "separated ((a, b) # rs) = (a < b \<and> (\<forall>(c, d)\<in>set rs. b < c) \<and> separated rs)"

lemma separated_append:
  "separated (xs @ ys) \<longleftrightarrow> separated xs \<and> separated ys \<and> (\<forall>(a, b)\<in>set xs. \<forall>(c, d)\<in>set ys. b < c)"
  by (induction xs rule: separated.induct) auto

lemma in_ranges_append: "in_ranges (xs @ ys) i \<longleftrightarrow> in_ranges xs i \<or> in_ranges ys i"
  by (auto simp: in_ranges_def)

lemma in_ranges_Cons: "in_ranges ((a, b) # rs) i \<longleftrightarrow> a \<le> i \<and> i < b \<or> in_ranges rs i"
  by (auto simp: in_ranges_def)

lemma merge_ranges_props:
  assumes "separated merged" "sorted (List.map fst rs)" "\<forall>(a, b)\<in>set rs. a < b"
    "\<forall>(a, b)\<in>set merged. \<forall>c\<in>fst ` set rs. a \<le> c" "\<forall>(a, b)\<in>set (merged @ rs). b \<le> n"
  shows "separated (merge_ranges merged rs) \<and> (\<forall>i. in_ranges (merge_ranges merged rs) i \<longleftrightarrow> in_ranges (merged @ rs) i)
    \<and> (\<forall>(a, b)\<in>set (merge_ranges merged rs). b \<le> n)"
  using assms
proof (induction merged rs rule: merge_ranges.induct)
  case (2 merged a b rs)
  show ?case
  proof (cases "merged \<noteq> [] \<and> a \<le> snd (last merged)")
    case True
    then obtain ms c d where m: "merged = ms @ [(c, d)]" by (metis append_butlast_last_id prod.collapse)
    have sep: "separated ms" "c < d" "\<forall>(x, y)\<in>set ms. y < c" using 2(3) by (auto simp: m separated_append)
    have ca: "c \<le> a" "a \<le> d" "a < b" using 2(5,6) True by (auto simp: m)
    have eq: "merge_ranges merged ((a, b) # rs) = merge_ranges (ms @ [(c, max d b)]) rs"
      using True by (simp add: m)
    have eqm: "butlast merged @ [(fst (last merged), max (snd (last merged)) b)] = ms @ [(c, max d b)]"
      by (simp add: m)
    have "separated (ms @ [(c, max d b)])" using sep by (auto simp: separated_append)
    note IH = 2(1) [OF True, unfolded eqm, OF this]
    have "separated (merge_ranges (ms @ [(c, max d b)]) rs)
      \<and> (\<forall>i. in_ranges (merge_ranges (ms @ [(c, max d b)]) rs) i \<longleftrightarrow> in_ranges ((ms @ [(c, max d b)]) @ rs) i)
      \<and> (\<forall>(a, b)\<in>set (merge_ranges (ms @ [(c, max d b)]) rs). b \<le> n)"
      by (rule IH) (use 2(4-7) in \<open>auto simp: m\<close>)
    moreover have "in_ranges ((ms @ [(c, max d b)]) @ rs) i \<longleftrightarrow> in_ranges (merged @ (a, b) # rs) i" for i
      using ca sep(2) by (auto simp: m in_ranges_append in_ranges_Cons in_ranges_def)
    ultimately show ?thesis unfolding eq by blast
  next
    case False
    then have eq: "merge_ranges merged ((a, b) # rs) = merge_ranges (merged @ [(a, b)]) rs" by auto
    have sep: "separated (merged @ [(a, b)])"
    proof (cases "merged = []")
      case True
      then show ?thesis using 2(5) by simp
    next
      case ne: False
      then obtain ms c d where m: "merged = ms @ [(c, d)]" by (metis append_butlast_last_id prod.collapse)
      then show ?thesis using 2(3,5) False by (fastforce simp: separated_append)
    qed
    show ?thesis
      unfolding eq using 2(2) [OF False sep] 2(4-7) by auto
  qed
qed simp

lemma upt_split: "i \<le> j \<Longrightarrow> j \<le> k \<Longrightarrow> [i..<k] = [i..<j] @ [j..<k]"
  by (metis le_add_diff_inverse upt_add_eq_append)

lemma kept_slice:
  assumes "c \<le> a" "a \<le> length body" "\<forall>i. c \<le> i \<and> i < a \<longrightarrow> \<not> P i"
  shows "concat (List.map (mask_byte P body) [c..<a]) = slice body c a"
proof -
  have "concat (List.map (mask_byte P body) [c..<a]) = concat (List.map (\<lambda>i. [body ! i]) [c..<a])"
    using assms(3) by (intro arg_cong [of _ _ concat] map_cong) (auto simp: mask_byte_def)
  also have "\<dots> = List.map ((!) body) [c..<a]" by (induction a) (auto simp: concat_append)
  also have "\<dots> = slice body c a"
    using assms(1,2) by (intro nth_equalityI) (auto simp: slice_def)
  finally show ?thesis .
qed

lemma mask_render_ref:
  assumes "separated rs" "\<forall>(a, b)\<in>set rs. b \<le> length body" "c \<le> length body"
    "c = 0 \<or> (\<forall>(a, b)\<in>set rs. c < a)" "\<forall>i\<ge>c. P i \<longleftrightarrow> in_ranges rs i"
  shows "mask_render body c rs = concat (List.map (mask_byte P body) [c..<length body])"
  using assms
proof (induction rs arbitrary: c rule: separated.induct)
  case 1
  then show ?case
    using kept_slice [of c "length body" body P] by (simp add: in_ranges_def slice_def)
next
  case (2 a b rs)
  have ab: "a < b" "b \<le> length body" "c \<le> a" "\<forall>(x, y)\<in>set rs. b < x" "separated rs" using 2(2-5) by auto
  have rest: "in_ranges rs i \<Longrightarrow> b < i" for i using ab(4) by (force simp: in_ranges_def)
  have P: "c \<le> i \<Longrightarrow> P i \<longleftrightarrow> a \<le> i \<and> i < b \<or> in_ranges rs i" for i using 2(6) by (simp add: in_ranges_Cons)
  have "[c..<length body] = [c..<a] @ a # [Suc a..<b] @ [b..<length body]"
    using ab upt_split [of c a "length body"] upt_split [of a b "length body"] by (simp add: upt_conv_Cons)
  moreover have "concat (List.map (mask_byte P body) [c..<a]) = slice body c a"
    using ab P rest by (intro kept_slice) fastforce+
  moreover have "mask_byte P body a = MASK_FILLER"
  proof -
    have "\<not> P (a - 1)" if "a \<noteq> 0"
    proof -
      have "c \<le> a - 1" using 2(5) that by auto
      then show ?thesis using P [of "a - 1"] rest [of "a - 1"] that ab(1) by auto
    qed
    then show ?thesis using P [of a] ab by (auto simp: mask_byte_def)
  qed
  moreover have "concat (List.map (mask_byte P body) [Suc a..<b]) = []"
  proof -
    have "mask_byte P body i = []" if "Suc a \<le> i" "i < b" for i
    proof -
      have "P i" "P (i - 1)" using P [of i] P [of "i - 1"] that ab(3) by auto
      then show ?thesis using that by (simp add: mask_byte_def)
    qed
    then show ?thesis by simp
  qed
  moreover have "mask_render body b rs = concat (List.map (mask_byte P body) [b..<length body])"
    using 2(1) [of b] 2(3) ab P by auto
  ultimately show ?case by simp
qed

lemma map_filter_set: "r \<in> set (List.map_filter f xs) \<longleftrightarrow> (\<exists>x\<in>set xs. f x = Some r)"
  by (force simp: List.map_filter_def)

lemma span_range_Some:
  "span_range body s = Some r \<longleftrightarrow>
     r = (sp_start s, sp_start s + sp_len s) \<and> 0 < sp_len s \<and> sp_start s + sp_len s \<le> USIZE_MAX
     \<and> sp_start s + sp_len s \<le> length body
     \<and> is_char_boundary body (sp_start s) \<and> is_char_boundary body (sp_start s + sp_len s)"
  by (auto simp: span_range_def checked_add_def split: if_splits)

lemma in_ranges_masked: "in_ranges (List.map_filter (span_range body) spans) i \<longleftrightarrow> masked_at body spans i"
proof -
  have "(\<exists>r\<in>set (List.map_filter (span_range body) spans). fst r \<le> i \<and> i < snd r)
    \<longleftrightarrow> (\<exists>s\<in>set spans. \<exists>r. span_range body s = Some r \<and> fst r \<le> i \<and> i < snd r)"
    unfolding Bex_def map_filter_set by blast
  also have "\<dots> \<longleftrightarrow> masked_at body spans i"
    by (auto simp: masked_at_def span_range_Some covers_def)
  finally show ?thesis by (simp add: in_ranges_def case_prod_beta)
qed

lemma mask_spans_ref: "mask_spans body spans = mask_ref (masked_at body spans) body"
proof (cases "List.map_filter (span_range body) spans = []")
  case True
  then have "\<not> masked_at body spans i" for i
    using in_ranges_masked [of body spans i] by (simp add: in_ranges_def)
  then show ?thesis
    using True kept_slice [of 0 "length body" body "masked_at body spans"]
    by (simp add: mask_spans_def mask_ref_def slice_def)
next
  case False
  let ?rs = "sort (List.map_filter (span_range body) spans)"
  have rs: "a < b" "b \<le> length body" if "(a, b) \<in> set ?rs" for a b
    using that by (auto simp: map_filter_set span_range_Some)
  have "sorted (List.map fst ?rs)"
    by (rule sorted_map_mono [OF sorted_sort]) (auto simp: monotone_on_def)
  then have m: "separated (merge_ranges [] ?rs) \<and> (\<forall>i. in_ranges (merge_ranges [] ?rs) i \<longleftrightarrow> in_ranges ([] @ ?rs) i)
    \<and> (\<forall>(a, b)\<in>set (merge_ranges [] ?rs). b \<le> length body)"
    by (intro merge_ranges_props) (use rs in auto)
  have "in_ranges ?rs i \<longleftrightarrow> masked_at body spans i" for i
    using in_ranges_masked [of body spans i] by (simp add: in_ranges_def)
  then show ?thesis
    using False m mask_render_ref [of "merge_ranges [] ?rs" body 0 "masked_at body spans"]
    by (simp add: mask_spans_def mask_ref_def)
qed

end
