(* ===== verification/Note_Types.thy ===== *)
theory Note_Types
  imports Prelude Complex_Main "HOL-Library.List_Lexorder" "HOL-Library.Char_ord"
begin

text \<open>
  The vocabulary of a note (\<open>gradatum-core/src/section.rs\<close>, \<open>status.rs\<close>, \<open>tag.rs\<close>): sections with their
  protection sets, the note life cycle, and tags with the names reserved to the privacy code. A string is the
  list of its UTF-8 bytes; \<open>str::to_lowercase\<close> is a parameter.
\<close>

subsection \<open>Sections\<close>

datatype section_kind = Decisions | Architecture | Debug | Reasoning | Feedback | LessonsLearned
  | Retrospectives | Experiments | AgentIssues | Reference | Council | ProjectMap | Identity | Snapshot | Messaging

fun section_as_str :: "section_kind \<Rightarrow> string" where
  "section_as_str Decisions = ''decisions''"
| "section_as_str Architecture = ''architecture''"
| "section_as_str Debug = ''debug''"
| "section_as_str Reasoning = ''reasoning''"
| "section_as_str Feedback = ''feedback''"
| "section_as_str LessonsLearned = ''lessons-learned''"
| "section_as_str Retrospectives = ''retrospectives''"
| "section_as_str Experiments = ''experiments''"
| "section_as_str AgentIssues = ''agent-issues''"
| "section_as_str Reference = ''reference''"
| "section_as_str Council = ''council''"
| "section_as_str ProjectMap = ''project-map''"
| "section_as_str Identity = ''identity''"
| "section_as_str Snapshot = ''snapshot''"
| "section_as_str Messaging = ''messaging''"

definition SECTION_ALL :: "section_kind list" where
  "SECTION_ALL = [Decisions, Architecture, Debug, Reasoning, Feedback, LessonsLearned, Retrospectives, Experiments,
     AgentIssues, Reference, Council, ProjectMap, Identity, Snapshot, Messaging]"

definition from_canonical_str :: "string \<Rightarrow> section_kind option" where
  "from_canonical_str s = List.find (\<lambda>sec. section_as_str sec = s) SECTION_ALL"

definition PROTECTED_FORGET :: "section_kind list" where
  "PROTECTED_FORGET = [AgentIssues, Council, ProjectMap, Identity]"

definition PROTECTED_DELETE :: "section_kind list" where
  "PROTECTED_DELETE = [AgentIssues, Council, ProjectMap, Identity, Decisions, Reasoning]"

definition DEFAULT_SEARCH_EXCLUDED :: "section_kind list" where
  "DEFAULT_SEARCH_EXCLUDED = [Snapshot, Messaging]"

definition IDENTITY_PERSON_TITLE_PREFIX :: string where
  "IDENTITY_PERSON_TITLE_PREFIX = ''identity/person/''"

definition starts_with :: "string \<Rightarrow> string \<Rightarrow> bool" where
  "starts_with s p = (take (length p) s = p)"

definition identity_person_carveout :: "string \<Rightarrow> bool" where
  "identity_person_carveout title = starts_with title IDENTITY_PERSON_TITLE_PREFIX"

definition is_forget_protected :: "string \<Rightarrow> string \<Rightarrow> bool" where
  "is_forget_protected sec title =
     (if sec = section_as_str Identity then \<not> identity_person_carveout title
      else list_ex (\<lambda>s. section_as_str s = sec) PROTECTED_FORGET)"

definition is_delete_protected :: "string \<Rightarrow> string \<Rightarrow> bool" where
  "is_delete_protected sec title =
     (if sec = section_as_str Identity then \<not> identity_person_carveout title
      else list_ex (\<lambda>s. section_as_str s = sec) PROTECTED_DELETE)"

definition is_protected_delete :: "string \<Rightarrow> bool" where
  "is_protected_delete name = is_delete_protected name []"

definition PROTECTED_DOWNGRADE :: "string list" where
  "PROTECTED_DOWNGRADE = [''agent-issues'', ''council'', ''project-map'', ''identity'', ''decisions'',
     ''lessons-learned'', ''feedback'', ''retrospectives'', ''architecture'']"

definition is_protected_downgrade :: "string \<Rightarrow> bool" where
  "is_protected_downgrade sec = (sec \<in> set PROTECTED_DOWNGRADE)"

fun section_to_c_kind :: "section_kind \<Rightarrow> string" where
  "section_to_c_kind Architecture = ''semantic''"
| "section_to_c_kind Decisions = ''episodic''"
| "section_to_c_kind Debug = ''episodic''"
| "section_to_c_kind Reasoning = ''semantic''"
| "section_to_c_kind Feedback = ''reflective''"
| "section_to_c_kind LessonsLearned = ''semantic''"
| "section_to_c_kind Retrospectives = ''reflective''"
| "section_to_c_kind Experiments = ''semantic''"
| "section_to_c_kind AgentIssues = ''procedural''"
| "section_to_c_kind Reference = ''semantic''"
| "section_to_c_kind Council = ''episodic''"
| "section_to_c_kind ProjectMap = ''procedural''"
| "section_to_c_kind Identity = ''procedural''"
| "section_to_c_kind Snapshot = ''episodic''"
| "section_to_c_kind Messaging = ''episodic''"

fun section_to_doc_kind :: "section_kind \<Rightarrow> string" where
  "section_to_doc_kind Debug = ''Event''"
| "section_to_doc_kind AgentIssues = ''Event''"
| "section_to_doc_kind Snapshot = ''Event''"
| "section_to_doc_kind Architecture = ''Static''"
| "section_to_doc_kind Decisions = ''Static''"
| "section_to_doc_kind Reasoning = ''Static''"
| "section_to_doc_kind Feedback = ''Static''"
| "section_to_doc_kind LessonsLearned = ''Static''"
| "section_to_doc_kind Retrospectives = ''Static''"
| "section_to_doc_kind Experiments = ''Static''"
| "section_to_doc_kind Reference = ''Static''"
| "section_to_doc_kind ProjectMap = ''Static''"
| "section_to_doc_kind Identity = ''Static''"
| "section_to_doc_kind Council = ''Event''"
| "section_to_doc_kind Messaging = ''Event''"

text \<open>The trust scores are the decimal numbers the source writes.\<close>

definition SECTION_TRUST_SCORES :: "(string \<times> rat) list" where
  "SECTION_TRUST_SCORES =
     [(''council'', 95 / 100), (''decisions'', 95 / 100), (''project-map'', 95 / 100), (''identity'', 95 / 100),
      (''lessons-learned'', 75 / 100), (''architecture'', 75 / 100), (''retrospectives'', 75 / 100),
      (''feedback'', 75 / 100), (''reasoning'', 75 / 100), (''reference'', 60 / 100), (''agent-issues'', 60 / 100),
      (''debug'', 40 / 100), (''experiments'', 40 / 100)]"

definition TRUST_NON_DECAYING_SECTIONS :: "string list" where
  "TRUST_NON_DECAYING_SECTIONS = [''council'', ''decisions'', ''project-map'', ''identity'']"

definition is_trust_non_decaying :: "string \<Rightarrow> bool" where
  "is_trust_non_decaying sec = (sec \<in> set TRUST_NON_DECAYING_SECTIONS)"

fun trust_for_section :: "section_kind \<Rightarrow> rat" where
  "trust_for_section Council = 95 / 100"
| "trust_for_section Decisions = 95 / 100"
| "trust_for_section ProjectMap = 95 / 100"
| "trust_for_section Identity = 95 / 100"
| "trust_for_section LessonsLearned = 75 / 100"
| "trust_for_section Architecture = 75 / 100"
| "trust_for_section Retrospectives = 75 / 100"
| "trust_for_section Feedback = 75 / 100"
| "trust_for_section Reasoning = 75 / 100"
| "trust_for_section Reference = 60 / 100"
| "trust_for_section AgentIssues = 60 / 100"
| "trust_for_section Debug = 40 / 100"
| "trust_for_section Experiments = 40 / 100"
| "trust_for_section Snapshot = 40 / 100"
| "trust_for_section Messaging = 40 / 100"

definition trust_for_section_str :: "string \<Rightarrow> rat" where
  "trust_for_section_str sec =
     (case from_canonical_str sec of Some s \<Rightarrow> trust_for_section s | None \<Rightarrow> 50 / 100)"

definition section_str_to_doc_kind :: "string \<Rightarrow> string" where
  "section_str_to_doc_kind sec =
     (case from_canonical_str sec of Some s \<Rightarrow> section_to_doc_kind s | None \<Rightarrow> ''Static'')"

subsection \<open>Note life cycle\<close>

datatype note_status = Draft | Staging | PendingReview | Live | Deprecated | Garbage

definition can_transition_to :: "note_status \<Rightarrow> note_status \<Rightarrow> bool" where
  "can_transition_to s t =
     ((s, t) \<in> set [(Draft, PendingReview), (Draft, Garbage), (PendingReview, Live), (PendingReview, Garbage),
        (PendingReview, Staging), (Staging, Live), (Staging, Garbage), (Live, Deprecated), (Live, Garbage),
        (Deprecated, Live), (Garbage, Live)])"

definition is_visible_default :: "note_status \<Rightarrow> bool" where
  "is_visible_default s = (s = Live)"

definition is_embeddable_default :: "note_status \<Rightarrow> bool" where
  "is_embeddable_default s = (s = Live \<or> s = PendingReview \<or> s = Staging)"

definition STATUS_ALL :: "note_status list" where
  "STATUS_ALL = [Draft, Staging, PendingReview, Live, Deprecated, Garbage]"

fun serde_kebab_repr :: "note_status \<Rightarrow> string" where
  "serde_kebab_repr Draft = ''draft''"
| "serde_kebab_repr Staging = ''staging''"
| "serde_kebab_repr PendingReview = ''pending-review''"
| "serde_kebab_repr Live = ''live''"
| "serde_kebab_repr Deprecated = ''deprecated''"
| "serde_kebab_repr Garbage = ''garbage''"

fun join :: "string \<Rightarrow> string list \<Rightarrow> string" where
  "join sep [] = []"
| "join sep [x] = x"
| "join sep (x # y # xs) = x @ sep @ join sep (y # xs)"

definition embeddable_default_sql_list :: string where
  "embeddable_default_sql_list =
     join '', '' (List.map (\<lambda>s. [CHR 0x27] @ serde_kebab_repr s @ [CHR 0x27]) (filter is_embeddable_default STATUS_ALL))"

definition is_embeddable :: "note_status \<Rightarrow> string list option \<Rightarrow> bool" where
  "is_embeddable s embeddable_status =
     (case embeddable_status of
        Some allowed \<Rightarrow> list_ex (\<lambda>a. a = serde_kebab_repr s) allowed
      | None \<Rightarrow> is_embeddable_default s)"

subsection \<open>Tags\<close>

definition is_ascii_lowercase :: "char \<Rightarrow> bool" where
  "is_ascii_lowercase c = (CHR ''a'' \<le> c \<and> c \<le> CHR ''z'')"

definition is_ascii_digit :: "char \<Rightarrow> bool" where
  "is_ascii_digit c = (CHR ''0'' \<le> c \<and> c \<le> CHR ''9'')"

definition alnum :: "char \<Rightarrow> bool" where
  "alnum c = (is_ascii_lowercase c \<or> is_ascii_digit c)"

definition PERSONAL_CLASSIFIED :: string where
  "PERSONAL_CLASSIFIED = ''personal-classified''"

definition PRIVACY_UNSCANNED :: string where
  "PRIVACY_UNSCANNED = ''privacy-unscanned''"

definition RESERVED_ALL :: "string list" where
  "RESERVED_ALL = [PERSONAL_CLASSIFIED, PRIVACY_UNSCANNED]"

definition is_reserved_literal :: "string \<Rightarrow> bool" where
  "is_reserved_literal coerced = list_ex (\<lambda>r. r = coerced) RESERVED_ALL"

text \<open>The loop over the characters, with the result so far and whether a run of other characters is open.\<close>

fun coerce_loop :: "string \<Rightarrow> string \<Rightarrow> bool \<Rightarrow> string" where
  "coerce_loop [] acc in_invalid_run = acc"
| "coerce_loop (ch # cs) acc in_invalid_run =
     (if alnum ch then
        coerce_loop cs ((if in_invalid_run \<and> acc \<noteq> [] then acc @ ''-'' else acc) @ [ch]) False
      else coerce_loop cs acc True)"

definition trim_end_dashes :: "string \<Rightarrow> string" where
  "trim_end_dashes s = rev (dropWhile (\<lambda>c. c = CHR ''-'') (rev s))"

definition coerce :: "(string \<Rightarrow> string) \<Rightarrow> string \<Rightarrow> string option" where
  "coerce to_lowercase s =
     (let r = coerce_loop (to_lowercase s) [] False in
      if r = [] then None
      else
        (let r' = (if 64 < length r then trim_end_dashes (take 64 r) else r) in
         if r' = [] then None else Some r'))"

definition coerces_to_reserved :: "(string \<Rightarrow> string) \<Rightarrow> string \<Rightarrow> bool" where
  "coerces_to_reserved to_lowercase s =
     (case coerce to_lowercase s of None \<Rightarrow> False | Some c \<Rightarrow> is_reserved_literal c)"

text \<open>\<open>Tag::new\<close>: the error is the offending string.\<close>

definition tag_new :: "(string \<Rightarrow> string) \<Rightarrow> string \<Rightarrow> string + string" where
  "tag_new to_lowercase s =
     (if s = [] \<or> 64 < length s then Inl s
      else if coerces_to_reserved to_lowercase s then Inl s
      else if \<not> alnum (hd s) then Inl s
      else if list_ex (\<lambda>b. \<not> alnum b \<and> b \<noteq> CHR ''-'') (tl s) then Inl s
      else Inr s)"

definition tag_normalize :: "(string \<Rightarrow> string) \<Rightarrow> string \<Rightarrow> string option" where
  "tag_normalize to_lowercase s =
     (case coerce to_lowercase s of
        None \<Rightarrow> None
      | Some r \<Rightarrow> if is_reserved_literal r then None else Some r)"

definition parse_tag_query :: "(string \<Rightarrow> string) \<Rightarrow> string \<Rightarrow> string option" where
  "parse_tag_query to_lowercase s =
     (if list_ex (\<lambda>r. r = s) RESERVED_ALL then Some s
      else (case tag_new to_lowercase s of Inr _ \<Rightarrow> Some s | Inl _ \<Rightarrow> None))"

subsection \<open>Names and sections\<close>

lemma section_ALL [simp]: "s \<in> set SECTION_ALL"
  by (cases s) (simp_all add: SECTION_ALL_def)

lemma section_as_str_inj [simp]: "section_as_str s = section_as_str t \<longleftrightarrow> s = t"
proof -
  have "distinct (List.map section_as_str SECTION_ALL)" by (simp add: SECTION_ALL_def)
  then show ?thesis by (auto simp: distinct_map inj_on_def)
qed

lemma from_canonical_str_Some: "from_canonical_str s = Some sec \<longleftrightarrow> s = section_as_str sec"
proof
  show "from_canonical_str s = Some sec \<Longrightarrow> s = section_as_str sec"
    unfolding from_canonical_str_def List.find_Some_iff by auto
next
  assume s: "s = section_as_str sec"
  then have "from_canonical_str s \<noteq> None"
    unfolding from_canonical_str_def List.find_None_iff using section_ALL [of sec] by auto
  then obtain t where t: "from_canonical_str s = Some t" by blast
  then have "section_as_str t = s" unfolding from_canonical_str_def List.find_Some_iff by auto
  with s t show "from_canonical_str s = Some sec" by simp
qed

text \<open>Forgetting is the weaker protection: what may not be forgotten may not be deleted, and outside the
  person notes of the identity section the title plays no role.\<close>

lemma forget_protected_delete_protected: "is_forget_protected sec title \<Longrightarrow> is_delete_protected sec title"
  by (auto simp: is_forget_protected_def is_delete_protected_def PROTECTED_FORGET_def PROTECTED_DELETE_def)

lemma trust_table_agrees:
  "list_all (\<lambda>(sec, trust). trust_for_section_str sec = trust) SECTION_TRUST_SCORES"
proof -
  have "trust_for_section_str (section_as_str s) = trust_for_section s" for s
    by (simp add: trust_for_section_str_def from_canonical_str_Some [THEN iffD2])
  from this [of Council] this [of Decisions] this [of ProjectMap] this [of Identity] this [of LessonsLearned]
    this [of Architecture] this [of Retrospectives] this [of Feedback] this [of Reasoning] this [of Reference]
    this [of AgentIssues] this [of Debug] this [of Experiments]
  show ?thesis by (simp add: SECTION_TRUST_SCORES_def)
qed

lemma non_decaying_top_trust:
  "is_trust_non_decaying sec \<longleftrightarrow> trust_for_section_str sec = 95 / 100"
proof (cases "from_canonical_str sec")
  case None
  then have "section_as_str t \<noteq> sec" for t using from_canonical_str_Some [of sec t] by auto
  from this [of Council] this [of Decisions] this [of ProjectMap] this [of Identity] None
  show ?thesis
    by (auto simp: is_trust_non_decaying_def TRUST_NON_DECAYING_SECTIONS_def trust_for_section_str_def)
next
  case (Some t)
  then have "sec = section_as_str t" by (simp add: from_canonical_str_Some)
  with Some show ?thesis
    by (cases t) (simp_all add: is_trust_non_decaying_def TRUST_NON_DECAYING_SECTIONS_def trust_for_section_str_def)
qed

text \<open>Every status is reachable from \<open>Draft\<close>, and every note can still be made \<open>Live\<close>.\<close>

lemma status_connected: "can_transition_to\<^sup>*\<^sup>* s Live"
proof -
  have step: "can_transition_to s t \<Longrightarrow> can_transition_to\<^sup>*\<^sup>* t Live \<Longrightarrow> can_transition_to\<^sup>*\<^sup>* s Live" for s t
    by (rule converse_rtranclp_into_rtranclp)
  have one: "can_transition_to s Live \<Longrightarrow> can_transition_to\<^sup>*\<^sup>* s Live" for s by (rule r_into_rtranclp)
  show ?thesis
  proof (cases s)
    case Draft
    show ?thesis unfolding Draft by (rule step [of _ PendingReview], simp add: can_transition_to_def, rule one,
        simp add: can_transition_to_def)
  qed (auto intro: one simp: can_transition_to_def)
qed

subsection \<open>Tags\<close>

fun no_double_dash :: "string \<Rightarrow> bool" where
  "no_double_dash (x # y # r) = (\<not> (x = CHR ''-'' \<and> y = CHR ''-'') \<and> no_double_dash (y # r))"
| "no_double_dash _ = True"

definition tag_shape :: "string \<Rightarrow> bool" where
  "tag_shape r \<longleftrightarrow> r \<noteq> [] \<and> alnum (hd r) \<and> alnum (last r) \<and> (\<forall>c\<in>set r. alnum c \<or> c = CHR ''-'') \<and> no_double_dash r"

lemma dash_not_alnum [simp]: "\<not> alnum (CHR ''-'')"
  by (simp add: alnum_def is_ascii_lowercase_def is_ascii_digit_def less_eq_char_def)

lemma no_double_dash_append:
  "no_double_dash (xs @ ys) \<longleftrightarrow> no_double_dash xs \<and> no_double_dash ys
     \<and> (xs = [] \<or> ys = [] \<or> \<not> (last xs = CHR ''-'' \<and> hd ys = CHR ''-''))"
  by (induction xs rule: no_double_dash.induct) (auto simp: neq_Nil_conv, (cases ys; simp)+)

lemma tag_shape_snoc:
  "alnum c \<Longrightarrow> acc = [] \<or> tag_shape acc \<Longrightarrow> tag_shape (acc @ [c])"
  "alnum c \<Longrightarrow> tag_shape acc \<Longrightarrow> tag_shape (acc @ ''-'' @ [c])"
  by (auto simp: tag_shape_def no_double_dash_append)

lemma coerce_loop_shape:
  "acc = [] \<or> tag_shape acc \<Longrightarrow> coerce_loop cs acc inr = [] \<or> tag_shape (coerce_loop cs acc inr)"
proof (induction cs acc inr rule: coerce_loop.induct)
  case (2 ch cs acc inr)
  then show ?case using tag_shape_snoc [of ch acc] by auto
qed simp

lemma coerce_loop_fix:
  assumes "tag_shape (acc @ (if inr then ''-'' else []) @ cs)" "inr \<Longrightarrow> acc \<noteq> []"
  shows "coerce_loop cs acc inr = acc @ (if inr then ''-'' else []) @ cs"
  using assms
proof (induction cs acc inr rule: coerce_loop.induct)
  case (1 acc inr)
  then show ?case by (auto simp: tag_shape_def split: if_splits)
next
  case (2 ch cs acc inr)
  show ?case
  proof (cases "alnum ch")
    case True
    then show ?thesis using 2(1,3,4) by (cases inr) auto
  next
    case False
    then have ch: "ch = CHR ''-''" and "acc \<noteq> []" "\<not> inr"
      using 2(3,4) by (auto simp: tag_shape_def no_double_dash_append split: if_splits)
    then show ?thesis using 2(2) [OF False] 2(3) by simp
  qed
qed

lemma trim_end_dashes_prefix: "\<exists>ds. s = trim_end_dashes s @ ds"
  by (metis trim_end_dashes_def takeWhile_dropWhile_id rev_append rev_rev_ident)

lemma tag_shape_truncate:
  assumes "tag_shape r" "0 < n"
  shows "tag_shape (trim_end_dashes (take n r)) \<and> length (trim_end_dashes (take n r)) \<le> n"
proof -
  let ?t = "trim_end_dashes (take n r)"
  obtain ds where ds: "take n r = ?t @ ds" using trim_end_dashes_prefix by blast
  then have r: "r = ?t @ ds @ drop n r" by (metis append.assoc append_take_drop_id)
  have "hd r \<noteq> CHR ''-''" using assms(1) dash_not_alnum by (metis tag_shape_def)
  moreover have "r \<noteq> []" using assms(1) by (simp add: tag_shape_def)
  ultimately have ne: "?t \<noteq> []"
    using assms(2) unfolding trim_end_dashes_def rev_is_Nil_conv dropWhile_eq_Nil_conv
    by (cases r; cases n) auto
  have "last ?t \<noteq> CHR ''-''"
    using ne hd_dropWhile [of "\<lambda>c. c = CHR ''-''" "rev (take n r)"] by (auto simp: trim_end_dashes_def last_rev)
  moreover have "set ?t \<subseteq> set r" "no_double_dash ?t" "hd ?t = hd r"
    using assms(1) ne r no_double_dash_append [of ?t "ds @ drop n r"]
    by (metis set_append Un_upper1) (metis assms(1) r no_double_dash_append tag_shape_def, metis hd_append2 ne r)
  moreover have "length ?t \<le> n" using ds by (metis append_take_drop_id le_add1 length_append length_take min.bounded_iff order_trans min.cobounded2)
  moreover have "last ?t \<in> set r" using calculation(2) last_in_set [OF ne] by blast
  ultimately show ?thesis using assms(1) ne unfolding tag_shape_def by auto
qed

text \<open>What the code relies on of \<open>to_lowercase\<close>: it leaves ASCII lower-case letters, digits and hyphens alone.\<close>

definition lower_ok :: "(string \<Rightarrow> string) \<Rightarrow> bool" where
  "lower_ok to_lowercase \<longleftrightarrow> (\<forall>s. list_all (\<lambda>c. alnum c \<or> c = CHR ''-'') s \<longrightarrow> to_lowercase s = s)"

lemma coerce_Some: "coerce to_lowercase s = Some r \<Longrightarrow> tag_shape r \<and> length r \<le> 64"
  using coerce_loop_shape [of "[]" "to_lowercase s" False] tag_shape_truncate [of "coerce_loop (to_lowercase s) [] False" 64]
  by (auto simp: coerce_def Let_def split: if_splits)

lemma coerce_fix:
  assumes "lower_ok to_lowercase" "tag_shape r" "length r \<le> 64"
  shows "coerce to_lowercase r = Some r"
proof -
  have "to_lowercase r = r" using assms(1,2) by (simp add: lower_ok_def tag_shape_def list_all_iff)
  moreover have "coerce_loop r [] False = r" using coerce_loop_fix [of "[]" False r] assms(2) by simp
  ultimately show ?thesis using assms(2,3) by (simp add: coerce_def tag_shape_def)
qed

lemma reserved_shape: "is_reserved_literal r \<Longrightarrow> tag_shape r \<and> length r \<le> 64"
  by (auto simp: is_reserved_literal_def RESERVED_ALL_def PERSONAL_CLASSIFIED_def PRIVACY_UNSCANNED_def tag_shape_def
      alnum_def is_ascii_lowercase_def is_ascii_digit_def less_eq_char_def)


definition ascii_lower :: "string \<Rightarrow> string" where
  "ascii_lower = List.map (\<lambda>c. if CHR ''A'' \<le> c \<and> c \<le> CHR ''Z'' then char_of (of_char c + (32::nat)) else c)"

lemma ascii_lower_ok: "lower_ok ascii_lower"
  unfolding lower_ok_def ascii_lower_def
  by (auto simp: list_all_iff alnum_def is_ascii_lowercase_def is_ascii_digit_def less_eq_char_def intro!: map_idI)


text \<open>A tag that \<open>Tag::new\<close> accepts is not always left unchanged by \<open>Tag::normalize\<close>: runs of hyphens and a
  trailing hyphen go.\<close>

lemma normalize_changes_valid_tag:
  "tag_new ascii_lower ''a--b'' = Inr ''a--b'' \<and> tag_normalize ascii_lower ''a--b'' = Some ''a-b''"
  by code_simp

text \<open>The canonical name of a section determines it: parsing the name gives the section back and no other string
  parses to it. A note that may not be forgotten may not be deleted, and the sections whose trust does not decay are
  exactly those of the highest trust.\<close>

theorem section_name_roundtrip:
  "(from_canonical_str s = Some sec \<longleftrightarrow> s = section_as_str sec)
   \<and> (is_forget_protected s title \<longrightarrow> is_delete_protected s title)
   \<and> (is_trust_non_decaying s \<longleftrightarrow> trust_for_section_str s = 95 / 100)"
  using from_canonical_str_Some [of s sec] forget_protected_delete_protected [of s title] non_decaying_top_trust [of s]
  by blast

theorem section_name_roundtrip_witness:
  "from_canonical_str ''council'' = Some Council \<and> is_delete_protected ''council'' ''verdict''"
proof -
  have "is_forget_protected ''council'' ''verdict''" by code_simp
  then show ?thesis using section_name_roundtrip [of "''council''" Council "''verdict''"] by simp
qed

end
