(* ===== verification/Privacy_Pass.thy ===== *)
theory Privacy_Pass
  imports Privacy_Window Privacy_Merge Pii_Mask Note_Types
begin

text \<open>
  The detection pass over one body (\<open>gradatum-vault/src/privacy.rs\<close>): exclusion, windows, one detector call per
  window, rebasing, fusion. The detector is a parameter: what it declares about itself, and how the call made for
  the window at a given offset ends.
\<close>

datatype pii_detect_error = Timeout "64 word" | Unavailable string | InputTooLarge nat nat | Protocol string

record detection =
  dt_spans :: "pii_span list"
  dt_unmapped_labels :: "64 word"

record detector_identity =
  di_detector :: string
  di_model_digest :: string
  di_model_source :: string
  di_mapping_v :: nat
  di_sidecar_v :: string
  di_score_mode :: string

text \<open>The call runs on a blocking thread under a deadline: it outlives the deadline, its thread panics or is
  cancelled, or it answers.\<close>

datatype detect_call = Elapsed | Panicked | Cancelled | Answered "pii_detect_error + detection"

record detector =
  dr_identity :: "detector_identity option"
  dr_detect :: "nat \<Rightarrow> bytes \<Rightarrow> surface \<Rightarrow> budget \<Rightarrow> detect_call"

definition noop_detector :: detector where
  "noop_detector = \<lparr>dr_identity = None, dr_detect = (\<lambda>_ _ _ _. Answered (Inr \<lparr>dt_spans = [], dt_unmapped_labels = 0\<rparr>))\<rparr>"

definition unattributed :: detector_identity where
  "unattributed = \<lparr>di_detector = ''unattributed'', di_model_digest = [], di_model_source = [], di_mapping_v = 1,
     di_sidecar_v = [], di_score_mode = ''unattributed''\<rparr>"

definition CODE_VAULT_PREFIX :: string where
  "CODE_VAULT_PREFIX = ''code-''"

definition surface_for :: "section_kind \<Rightarrow> surface" where
  "surface_for sec = (case sec of Messaging \<Rightarrow> Sync | _ \<Rightarrow> Async)"

definition is_excluded :: "string \<Rightarrow> section_kind \<Rightarrow> bool" where
  "is_excluded vault_id sec = (starts_with vault_id CODE_VAULT_PREFIX \<or> sec = Identity)"

record privacy_scan =
  ps_spans :: "pii_span list"
  ps_stats :: merge_stats
  ps_windows :: nat
  ps_unmapped_labels :: "64 word"

definition detect_window ::
  "detector \<Rightarrow> nat \<Rightarrow> bytes \<Rightarrow> surface \<Rightarrow> budget \<Rightarrow> pii_detect_error + detection" where
  "detect_window det start text surface budget =
     (if bg_max_input_bytes budget < length text
      then Inl (InputTooLarge (length text) (bg_max_input_bytes budget))
      else
        (case dr_detect det start text surface budget of
           Elapsed \<Rightarrow> Inl (Timeout (bg_timeout_ms budget))
         | Panicked \<Rightarrow> Inl (Unavailable ''detector task panicked'')
         | Cancelled \<Rightarrow> Inl (Unavailable ''detector task cancelled'')
         | Answered result \<Rightarrow> result))"

fun scan_windows ::
  "detector \<Rightarrow> surface \<Rightarrow> budget \<Rightarrow> (nat \<times> bytes) list \<Rightarrow> pii_span list \<Rightarrow> 64 word
   \<Rightarrow> pii_detect_error + pii_span list \<times> 64 word" where
  "scan_windows det surface budget [] collected unmapped = Inr (collected, unmapped)"
| "scan_windows det surface budget ((start, window) # ws) collected unmapped =
     (case detect_window det start window surface budget of
        Inl e \<Rightarrow> Inl e
      | Inr d \<Rightarrow>
          scan_windows det surface budget ws (collected @ rebase (dt_spans d) start)
            (saturating_add unmapped (dt_unmapped_labels d)))"

definition touches_cut :: "pii_span \<Rightarrow> nat \<Rightarrow> bool" where
  "touches_cut s edge =
     (let e = usize_saturating_add (sp_start s) (sp_len s) in
      sp_start s \<le> usize_saturating_add edge 1 \<and> edge \<le> usize_saturating_add e 1)"

definition scan :: "detector \<Rightarrow> bytes \<Rightarrow> surface \<Rightarrow> privacy_budgets \<Rightarrow> pii_detect_error + privacy_scan" where
  "scan det body surface budgets =
     (let plan = \<lparr>wp_max_input_bytes = pb_max_input_bytes budgets,
                  wp_overlap_bytes = pb_window_overlap_bytes budgets\<rparr>;
          ws = windows plan body in
      if ws = [] then Inl (InputTooLarge (length body) 0)
      else
        (case scan_windows det surface (for_surface budgets surface (length body)) ws [] 0 of
           Inl e \<Rightarrow> Inl e
         | Inr (collected, unmapped) \<Rightarrow>
             (let (spans, stats) = validate_and_merge body collected;
                  intercuts = List.map (\<lambda>(start, text). start + length text) (take (length ws - 1) ws) in
              Inr \<lparr>ps_spans = spans,
                   ps_stats = stats\<lparr>ms_touching_window_edge :=
                     length (filter (\<lambda>s. list_ex (touches_cut s) intercuts) spans)\<rparr>,
                   ps_windows = length ws, ps_unmapped_labels = unmapped\<rparr>)))"

definition pass ::
  "detector \<Rightarrow> string \<Rightarrow> section_kind \<Rightarrow> bytes \<Rightarrow> privacy_budgets \<Rightarrow> pii_detect_error + privacy_scan option" where
  "pass det vault_id sec body budgets =
     (if is_excluded vault_id sec then Inr None
      else if dr_identity det = None then Inr None
      else
        (case scan det body (surface_for sec) budgets of
           Inl e \<Rightarrow> Inl e
         | Inr s \<Rightarrow> Inr (Some s)))"

subsection \<open>What a completed scan reports\<close>

definition plan_of :: "privacy_budgets \<Rightarrow> window_plan" where
  "plan_of budgets = \<lparr>wp_max_input_bytes = pb_max_input_bytes budgets, wp_overlap_bytes = pb_window_overlap_bytes budgets\<rparr>"

text \<open>The spans the detector reported, in the coordinates of the body.\<close>

definition reported :: "detector \<Rightarrow> bytes \<Rightarrow> surface \<Rightarrow> privacy_budgets \<Rightarrow> pii_span list" where
  "reported det body surface budgets =
     concat (List.map (\<lambda>(start, text).
       case detect_window det start text surface (for_surface budgets surface (length body)) of
         Inl _ \<Rightarrow> [] | Inr d \<Rightarrow> rebase (dt_spans d) start) (windows (plan_of budgets) body))"

lemma scan_windows_Inr:
  assumes "scan_windows det surface budget ws collected unmapped = Inr (spans, labels)"
  shows "spans = collected @ concat (List.map (\<lambda>(start, text).
      case detect_window det start text surface budget of Inl _ \<Rightarrow> [] | Inr d \<Rightarrow> rebase (dt_spans d) start) ws)
    \<and> (\<forall>(start, text)\<in>set ws. \<exists>d. detect_window det start text surface budget = Inr d)"
  using assms
  by (induction det surface budget ws collected unmapped rule: scan_windows.induct) (auto split: sum.splits)

lemma scan_windows_total:
  assumes "\<forall>(start, text)\<in>set ws. \<exists>d. detect_window det start text surface budget = Inr d"
  shows "\<exists>r. scan_windows det surface budget ws collected unmapped = Inr r"
  using assms by (induction det surface budget ws collected unmapped rule: scan_windows.induct) auto

lemma scan_Inr:
  assumes "scan det body surface budgets = Inr r"
  shows "ps_spans r = fst (validate_and_merge body (reported det body surface budgets))"
    "ps_windows r = length (windows (plan_of budgets) body)"
    "(start, text) \<in> set (windows (plan_of budgets) body) \<Longrightarrow>
      \<exists>d. detect_window det start text surface (for_surface budgets surface (length body)) = Inr d"
proof -
  let ?ws = "windows (plan_of budgets) body"
  obtain collected unmapped where
    sw: "scan_windows det surface (for_surface budgets surface (length body)) ?ws [] 0 = Inr (collected, unmapped)"
    and r: "ps_spans r = fst (validate_and_merge body collected)" "ps_windows r = length ?ws"
    using assms
    by (auto simp: scan_def plan_of_def [symmetric] Let_def case_prod_beta split: if_splits sum.splits prod.splits)
  note ok = scan_windows_Inr [OF sw]
  have "collected = reported det body surface budgets" using ok by (simp add: reported_def)
  with r show "ps_spans r = fst (validate_and_merge body (reported det body surface budgets))" "ps_windows r = length ?ws"
    by simp_all
  show "\<exists>d. detect_window det start text surface (for_surface budgets surface (length body)) = Inr d"
    if "(start, text) \<in> set ?ws"
    using ok that by blast
qed

lemma scan_answers:
  assumes "utf8 body" "body \<noteq> []" "4 \<le> pb_max_input_bytes budgets"
    "\<forall>(start, text)\<in>set (windows (plan_of budgets) body).
       \<exists>d. dr_detect det start text surface (for_surface budgets surface (length body)) = Answered (Inr d)"
  shows "\<exists>r. scan det body surface budgets = Inr r"
proof -
  let ?ws = "windows (plan_of budgets) body" and ?b = "for_surface budgets surface (length body)"
  have ws: "?ws = windows_from (plan_of budgets) body 0" "windows_from (plan_of budgets) body 0 \<noteq> []"
    using assms(2,3) windows_from_Cons [of 0 body "plan_of budgets"] by (simp_all add: windows_def plan_of_def)
  have short: "length str \<le> pb_max_input_bytes budgets" if "(start, str) \<in> set ?ws" for start and str :: bytes
    using windows_from_windows [OF assms(1) is_char_boundary_ends(1), of "plan_of budgets"] that assms(3) ws(1)
    by (auto simp: is_window_def plan_of_def max_def dest!: bspec)
  have ok: "\<forall>(start, text)\<in>set ?ws. \<exists>d. detect_window det start text surface ?b = Inr d"
  proof (clarify)
    fix start :: nat and str :: bytes assume w: "(start, str) \<in> set ?ws"
    then obtain d where "dr_detect det start str surface ?b = Answered (Inr d)" using assms(4) by blast
    with short [OF w] show "\<exists>d. detect_window det start str surface ?b = Inr d"
      by (simp add: detect_window_def for_surface_def)
  qed
  obtain r where "scan_windows det surface ?b ?ws [] 0 = Inr r" using scan_windows_total [OF ok] by blast
  then show ?thesis using ws by (cases r) (simp add: scan_def plan_of_def [symmetric] Let_def case_prod_beta)
qed


text \<open>A ceiling of one to three bytes refuses every longer ASCII text: the windows are widened to four bytes,
  which the call then finds too long.\<close>

lemma narrow_ceiling_refused:
  assumes "0 < pb_max_input_bytes budgets" "pb_max_input_bytes budgets < 4" "4 \<le> length body" "is_char_boundary body 4"
  shows "scan det body surface budgets = Inl (InputTooLarge 4 (pb_max_input_bytes budgets))"
proof -
  let ?p = "plan_of budgets"
  have e: "window_end ?p body 0 = 4"
    using assms by (simp add: window_end_def plan_of_def cut_back.simps min_def max_def)
  have "wp_max_input_bytes ?p \<noteq> 0" "body \<noteq> []" using assms by (auto simp: plan_of_def)
  then obtain ws where ws: "windows ?p body = (0, slice body 0 4) # ws"
    using windows_from_Cons [of 0 body ?p] e by (auto simp: windows_def)
  have "length (slice body 0 4) = 4" using assms(3) by (simp add: slice_def)
  then show ?thesis
    using ws assms(2)
    by (simp add: scan_def plan_of_def [symmetric] Let_def detect_window_def for_surface_def)
qed

text \<open>A detector that reports the two bytes of a code point at offset two of the text, from two windows.\<close>

definition sample_budgets :: privacy_budgets where
  "sample_budgets = \<lparr>pb_max_input_bytes = 5, pb_window_overlap_bytes = 2, pb_async_timeout_ms = 10,
     pb_sync_base_ms = 2, pb_sync_per_kib_ms = 0, pb_sync_cap_ms = 20\<rparr>"

definition sample_detector :: detector where
  "sample_detector =
     \<lparr>dr_identity = Some unattributed,
      dr_detect = (\<lambda>start text surface budget.
        Answered (Inr \<lparr>dt_spans = (if start \<le> 2 then [\<lparr>sp_start = 2 - start, sp_len = 2, sp_category = Email,
          sp_score = Finite 1\<rparr>] else []), dt_unmapped_labels = 0\<rparr>))\<rparr>"

lemma sample_plan_of: "plan_of sample_budgets = sample_plan"
  by (simp add: plan_of_def sample_budgets_def sample_plan_def)

lemma sample_windows_text:
  "windows sample_plan sample_text = [(0, [0xC3, 0xA9, 0xC3, 0xA9]), (2, [0xC3, 0xA9, 0xC3, 0xA9]), (4, [0xC3, 0xA9, 0xC3, 0xA9])]"
  by code_simp

lemma sample_reported:
  "reported sample_detector sample_text Async sample_budgets
   = [\<lparr>sp_start = 2, sp_len = 2, sp_category = Email, sp_score = Finite 1\<rparr>,
      \<lparr>sp_start = 2, sp_len = 2, sp_category = Email, sp_score = Finite 1\<rparr>]"
  unfolding reported_def sample_plan_of sample_windows_text
  by (simp add: detect_window_def sample_detector_def for_surface_def
      sample_budgets_def rebase_def usize_saturating_add_def USIZE_MAX_def)

lemma sample_span_in: "span_in sample_text \<lparr>sp_start = 2, sp_len = 2, sp_category = Email, sp_score = Finite 1\<rparr>"
  by (simp add: span_in_def sample_text_def is_char_boundary_def boundary_byte_def USIZE_MAX_def)


end
