(* ===== verification/Privacy_Block.thy ===== *)
theory Privacy_Block
  imports Privacy_Pass
begin

text \<open>
  What a detection pass records on a note and how it decides the two reserved tags
  (\<open>gradatum-vault/src/privacy_block.rs\<close> and \<open>decide_privacy\<close> of \<open>privacy_rescan.rs\<close>). SHA-256 in hexadecimal and
  the printing of a clock reading are parameters.
\<close>

subsection \<open>TOML tables\<close>

text \<open>The values the extra fields of a note hold; a table is the list of its entries in key order.\<close>

datatype toml_value = TString string | TInteger int | TBoolean bool | TArray "toml_value list"
  | TTable "(string \<times> toml_value) list"

type_synonym toml_table = "(string \<times> toml_value) list"

fun tbl_insert :: "string \<Rightarrow> 'v \<Rightarrow> (string \<times> 'v) list \<Rightarrow> (string \<times> 'v) list" where
  "tbl_insert k v [] = [(k, v)]"
| "tbl_insert k v ((k', v') # t) =
     (if k < k' then (k, v) # (k', v') # t
      else if k = k' then (k, v) # t
      else (k', v') # tbl_insert k v t)"

definition tbl_remove :: "string \<Rightarrow> (string \<times> 'v) list \<Rightarrow> (string \<times> 'v) list" where
  "tbl_remove k t = filter (\<lambda>(k', v). k' \<noteq> k) t"

fun as_table :: "toml_value \<Rightarrow> toml_table option" where
  "as_table (TTable t) = Some t"
| "as_table _ = None"

fun as_str :: "toml_value \<Rightarrow> string option" where
  "as_str (TString s) = Some s"
| "as_str _ = None"

fun as_integer :: "toml_value \<Rightarrow> int option" where
  "as_integer (TInteger i) = Some i"
| "as_integer _ = None"

definition toml_get :: "toml_value \<Rightarrow> string \<Rightarrow> toml_value option" where
  "toml_get v k = (case as_table v of None \<Rightarrow> None | Some t \<Rightarrow> map_of t k)"

lemma map_of_tbl_insert [simp]: "map_of (tbl_insert k v t) k' = (if k' = k then Some v else map_of t k')"
  by (induction t) auto

subsection \<open>Constants and small types\<close>

record privacy_env =
  pe_sha256_hex :: "bytes \<Rightarrow> string"
  pe_rfc3339 :: "time \<Rightarrow> string"

definition BLOCK_KEY :: string where "BLOCK_KEY = ''privacy''"

definition UNSCANNED_TAG :: string where "UNSCANNED_TAG = PRIVACY_UNSCANNED"

definition CLASSIFIED_TAG :: string where "CLASSIFIED_TAG = PERSONAL_CLASSIFIED"

definition RESERVED_TAGS :: "string list" where "RESERVED_TAGS = [CLASSIFIED_TAG, UNSCANNED_TAG]"

definition is_reserved :: "string \<Rightarrow> bool" where
  "is_reserved tag = list_ex (\<lambda>r. r = tag) RESERVED_TAGS"

definition MAX_SPANS :: nat where "MAX_SPANS = 256"

definition BLOCK_VERSION :: int where "BLOCK_VERSION = 1"

definition REVIEW_KEY :: string where "REVIEW_KEY = ''review''"

datatype pass_status = StatusOk | DetectorUnavailable | StatusInputTooLarge | SpansTruncated

fun status_from_error :: "pii_detect_error \<Rightarrow> pass_status" where
  "status_from_error (InputTooLarge _ _) = StatusInputTooLarge"
| "status_from_error _ = DetectorUnavailable"

fun status_as_str :: "pass_status \<Rightarrow> string" where
  "status_as_str StatusOk = ''ok''"
| "status_as_str DetectorUnavailable = ''detector_unavailable''"
| "status_as_str StatusInputTooLarge = ''input_too_large''"
| "status_as_str SpansTruncated = ''spans_truncated''"

definition is_unscanned :: "pass_status \<Rightarrow> bool" where
  "is_unscanned s = (s \<noteq> StatusOk)"

datatype review = ReviewPending | Accepted | Rejected

fun review_as_str :: "review \<Rightarrow> string" where
  "review_as_str ReviewPending = ''pending''"
| "review_as_str Accepted = ''accepted''"
| "review_as_str Rejected = ''rejected''"

definition review_of :: "toml_value \<Rightarrow> review" where
  "review_of block =
     (case Option.bind (toml_get block REVIEW_KEY) as_str of
        Some s \<Rightarrow> if s = ''accepted'' then Accepted else if s = ''rejected'' then Rejected else ReviewPending
      | None \<Rightarrow> ReviewPending)"

datatype tag_action = Pose | Retire | Keep

record tag_verdict =
  vd_block :: toml_value
  vd_classified :: tag_action
  vd_unscanned :: tag_action

definition digest_of :: "toml_value \<Rightarrow> string option" where
  "digest_of block = Option.bind (toml_get block ''spans_digest'') as_str"

definition binds_the_tag :: "toml_value \<Rightarrow> toml_value option \<Rightarrow> bool" where
  "binds_the_tag block previous = (review_of block = Rejected \<and> digest_of block = Option.bind previous digest_of)"

definition moves_only_the_review :: "toml_value \<Rightarrow> toml_value \<Rightarrow> bool" where
  "moves_only_the_review incoming recorded =
     (case (as_table incoming, as_table recorded) of
        (Some i, Some r) \<Rightarrow>
          length i = length r \<and> list_all (\<lambda>(key, v). key = REVIEW_KEY \<or> map_of r key = Some v) i
      | _ \<Rightarrow> False)"

definition stripped :: "toml_value \<Rightarrow> toml_value" where
  "stripped v = (case v of TTable t \<Rightarrow> TTable (tbl_remove ''scanned_at'' t) | _ \<Rightarrow> v)"

definition same_block_modulo_scanned_at :: "toml_value \<Rightarrow> toml_value \<Rightarrow> bool" where
  "same_block_modulo_scanned_at a b = (stripped a = stripped b)"

definition markable :: "pii_span list \<Rightarrow> privacy_policy \<Rightarrow> bool" where
  "markable spans policy = list_ex (marks policy) spans"

definition markable_categories :: "pii_span list \<Rightarrow> privacy_policy \<Rightarrow> string list" where
  "markable_categories spans policy =
     remdups_adj (sort (List.map (\<lambda>s. category_as_str (sp_category s)) (filter (marks policy) spans)))"

definition apply_reserved_tag :: "string list \<Rightarrow> string \<Rightarrow> tag_action \<Rightarrow> string list" where
  "apply_reserved_tag tags tag action =
     (case action of
        Keep \<Rightarrow> tags
      | Pose \<Rightarrow> if tag \<in> set tags then tags else tags @ [tag]
      | Retire \<Rightarrow> if tag \<in> set tags then filter (\<lambda>held. held \<noteq> tag) tags else tags)"

subsection \<open>Digests\<close>

definition spans_preimage :: "pii_span list \<Rightarrow> bytes" where
  "spans_preimage spans =
     (let triplets = sort (List.map (\<lambda>s. (sp_start s, usize_saturating_add (sp_start s) (sp_len s),
            category_as_str (sp_category s))) spans) in
      str_bytes (concat (List.map (\<lambda>(a, e, c). show_nat a @ '':'' @ show_nat e @ '':'' @ c @ [CHR 0x0A]) triplets)))"

definition spans_digest :: "privacy_env \<Rightarrow> pii_span list \<Rightarrow> string" where
  "spans_digest env spans = ''sha256:'' @ pe_sha256_hex env (spans_preimage spans)"

definition canon_line :: "string \<Rightarrow> string \<Rightarrow> bytes" where
  "canon_line key v = str_bytes (key @ ''='' @ v @ [CHR 0x0A])"

definition mode_str :: "privacy_policy \<Rightarrow> string" where
  "mode_str policy = (if masks policy then ''mask'' else ''report_only'')"

definition policy_preimage :: "detector_identity \<Rightarrow> privacy_budgets \<Rightarrow> privacy_policy \<Rightarrow> bytes" where
  "policy_preimage identity budgets policy =
     canon_line ''detector'' (di_detector identity) @ canon_line ''model_digest'' (di_model_digest identity)
     @ canon_line ''model_source'' (di_model_source identity) @ canon_line ''sidecar_v'' (di_sidecar_v identity)
     @ canon_line ''score_mode'' (di_score_mode identity)
     @ canon_line ''mapping_v'' (show_nat (di_mapping_v identity))
     @ canon_line ''max_input_bytes'' (show_nat (pb_max_input_bytes budgets))
     @ canon_line ''window_overlap_bytes'' (show_nat (pb_window_overlap_bytes budgets))
     @ canon_line ''mode'' (mode_str policy)
     @ concat (List.map (\<lambda>c. canon_line ''category''
         (category_as_str c @ '':'' @ show_nat (case threshold_m policy c of None \<Rightarrow> 0 | Some t \<Rightarrow> unat t)))
         (enabled_categories policy))
     @ concat (List.map (\<lambda>(tenant, patterns). canon_line ''exception_tenant'' tenant
         @ concat (List.map (\<lambda>p. str_bytes ''exception='' @ p @ str_bytes [CHR 0x0A]) patterns)) (pp_exceptions policy))"

definition policy_digest :: "privacy_env \<Rightarrow> detector_identity \<Rightarrow> privacy_budgets \<Rightarrow> privacy_policy \<Rightarrow> string" where
  "policy_digest env identity budgets policy = ''sha256:'' @ pe_sha256_hex env (policy_preimage identity budgets policy)"

subsection \<open>The block and the verdict\<close>

definition span_value :: "pii_span \<Rightarrow> toml_value" where
  "span_value s =
     TTable (tbl_insert ''score_m'' (TInteger (uint (score_m (sp_score s))))
       (tbl_insert ''category'' (TString (category_as_str (sp_category s)))
       (tbl_insert ''len'' (TInteger (sint (of_nat (sp_len s) :: 64 word)))
       (tbl_insert ''start'' (TInteger (sint (of_nat (sp_start s) :: 64 word))) []))))"

fun counts_loop :: "pii_span list \<Rightarrow> toml_table \<Rightarrow> toml_table" where
  "counts_loop [] t = t"
| "counts_loop (s # ss) t =
     (let key = category_as_str (sp_category s);
          seen = (case Option.bind (map_of t key) as_integer of None \<Rightarrow> 0 | Some n \<Rightarrow> n) in
      counts_loop ss (tbl_insert key (TInteger (seen + 1)) t))"

definition counts :: "pii_span list \<Rightarrow> toml_table" where
  "counts spans = counts_loop spans []"

definition block_status :: "pass_status \<Rightarrow> pii_span list \<Rightarrow> pass_status" where
  "block_status status spans = (if status = StatusOk \<and> MAX_SPANS < length spans then SpansTruncated else status)"

definition block_entries ::
  "privacy_env \<Rightarrow> string \<Rightarrow> detector_identity \<Rightarrow> pass_status \<Rightarrow> pii_span list \<Rightarrow> privacy_budgets \<Rightarrow> privacy_policy
   \<Rightarrow> review \<Rightarrow> toml_table" where
  "block_entries env scanned_at identity status spans budgets policy review =
     [(''v'', TInteger BLOCK_VERSION),
      (''mode'', TString (mode_str policy)),
      (''status'', TString (status_as_str (block_status status spans))),
      (''review'', TString (review_as_str review)),
      (''scanned_at'', TString scanned_at),
      (''detector'', TString (di_detector identity)),
      (''model_digest'', TString (di_model_digest identity)),
      (''model_source'', TString (di_model_source identity)),
      (''mapping_v'', TInteger (int (di_mapping_v identity))),
      (''sidecar_v'', TString (di_sidecar_v identity)),
      (''score_mode'', TString (di_score_mode identity)),
      (''policy'', TString (policy_digest env identity budgets policy)),
      (''spans_digest'', TString (spans_digest env (take MAX_SPANS spans))),
      (''counts'', TTable (counts spans)),
      (''spans'', TArray (if masks policy then [] else List.map span_value (take MAX_SPANS spans)))]"

definition block ::
  "privacy_env \<Rightarrow> time \<Rightarrow> detector_identity \<Rightarrow> pass_status \<Rightarrow> pii_span list \<Rightarrow> privacy_budgets \<Rightarrow> privacy_policy
   \<Rightarrow> review \<Rightarrow> toml_value \<times> bool" where
  "block env now identity status spans budgets policy review =
     (TTable (fold (\<lambda>(k, v). tbl_insert k v)
        (block_entries env (pe_rfc3339 env now) identity status spans budgets policy review) []),
      is_unscanned (block_status status spans))"

definition verdict ::
  "privacy_env \<Rightarrow> time \<Rightarrow> detector_identity \<Rightarrow> pass_status \<Rightarrow> pii_span list \<Rightarrow> privacy_budgets \<Rightarrow> privacy_policy
   \<Rightarrow> toml_value option \<Rightarrow> tag_verdict" where
  "verdict env now identity status spans budgets policy previous =
     (let digest = spans_digest env (take MAX_SPANS spans);
          review = (case previous of
                      Some prev \<Rightarrow> if digest_of prev = Some digest then review_of prev else ReviewPending
                    | None \<Rightarrow> ReviewPending);
          (v, unscanned) = block env now identity status spans budgets policy review in
      \<lparr>vd_block = v,
       vd_classified =
         (if review = Rejected then Retire
          else if unscanned then Keep
          else if markable spans policy then Pose
          else Retire),
       vd_unscanned = (if unscanned then Pose else Retire)\<rparr>)"

subsection \<open>The decision on a note\<close>

text \<open>The fields of a note's frontmatter that the write path reads or writes; the others are one value.\<close>

record 'm frontmatter =
  fm_vault_id :: string
  fm_section :: section_kind
  fm_tags :: "string list"
  fm_created :: time
  fm_updated :: "time option"
  fm_extra :: "toml_table option"
  fm_rest :: 'm

record 'm vault_note =
  nt_id :: nat
  nt_frontmatter :: "'m frontmatter"
  nt_body :: bytes

record pass_outcome =
  po_status :: pass_status
  po_spans :: "pii_span list"
  po_unmapped_labels :: "64 word"
  po_rejected_out_of_bounds :: nat
  po_rejected_utf8_boundary :: nat
  po_touching_window_edge :: nat
  po_exception_hits :: "string \<Rightarrow> nat option"

definition extra_get :: "toml_table option \<Rightarrow> string \<Rightarrow> toml_value option" where
  "extra_get extra k = (case extra of None \<Rightarrow> None | Some t \<Rightarrow> map_of t k)"

definition extra_insert :: "toml_table option \<Rightarrow> string \<Rightarrow> toml_value \<Rightarrow> toml_table option" where
  "extra_insert extra k v = Some (tbl_insert k v (case extra of None \<Rightarrow> [] | Some t \<Rightarrow> t))"

definition carry_extra :: "toml_table option \<Rightarrow> toml_table option \<Rightarrow> toml_table option" where
  "carry_extra prev extra =
     (case prev of
        None \<Rightarrow> extra
      | Some t \<Rightarrow> fold (\<lambda>(k, v) e. if extra_get e k = None then extra_insert e k v else e) t extra)"

definition carry_tags :: "bool \<Rightarrow> string list \<Rightarrow> string list \<Rightarrow> string list" where
  "carry_tags binds prev tags =
     fold (\<lambda>tag ts.
       if \<not> is_reserved tag then ts
       else if binds \<and> tag = CLASSIFIED_TAG then ts
       else if tag \<in> set ts then ts else ts @ [tag]) prev tags"

definition previous_block :: "'m vault_note option \<Rightarrow> toml_value option" where
  "previous_block existing =
     (case existing of None \<Rightarrow> None | Some prev \<Rightarrow> extra_get (fm_extra (nt_frontmatter prev)) BLOCK_KEY)"

definition block_binds :: "toml_value option \<Rightarrow> bool" where
  "block_binds previous = (case previous of None \<Rightarrow> False | Some b \<Rightarrow> binds_the_tag b previous)"

definition carried_block :: "toml_value option \<Rightarrow> toml_value option \<Rightarrow> toml_value option" where
  "carried_block incoming previous =
     (case (incoming, previous) of
        (Some inc, Some recorded) \<Rightarrow> if moves_only_the_review inc recorded then Some inc else previous
      | _ \<Rightarrow> previous)"

definition decide_privacy ::
  "privacy_env \<Rightarrow> time \<Rightarrow> detector \<Rightarrow> privacy_budgets \<Rightarrow> privacy_policy \<Rightarrow> 'm frontmatter \<Rightarrow> 'm vault_note option
   \<Rightarrow> pass_outcome option \<Rightarrow> 'm frontmatter \<times> (tag_action \<times> tag_action) option" where
  "decide_privacy env now det budgets policy fm existing outcome =
     (let extra = (case existing of None \<Rightarrow> fm_extra fm
                   | Some prev \<Rightarrow> carry_extra (fm_extra (nt_frontmatter prev)) (fm_extra fm));
          previous = previous_block existing;
          binds = block_binds previous;
          carried = carried_block (extra_get extra BLOCK_KEY) previous;
          tags = (case existing of None \<Rightarrow> fm_tags fm
                  | Some prev \<Rightarrow> carry_tags binds (fm_tags (nt_frontmatter prev)) (fm_tags fm)) in
      case (outcome, dr_identity det) of
        (Some o', Some identity) \<Rightarrow>
          (let d = verdict env now identity (po_status o') (po_spans o') budgets policy carried;
               tags1 = apply_reserved_tag tags UNSCANNED_TAG (vd_unscanned d);
               tags2 = apply_reserved_tag tags1 CLASSIFIED_TAG (vd_classified d) in
           (fm\<lparr>fm_tags := tags2, fm_extra := extra_insert extra BLOCK_KEY (vd_block d)\<rparr>,
            Some (vd_classified d, vd_unscanned d)))
      | _ \<Rightarrow>
          (fm\<lparr>fm_tags := (if binds then apply_reserved_tag tags CLASSIFIED_TAG Retire else tags), fm_extra := extra\<rparr>,
           None))"

subsection \<open>How the reserved tags move\<close>

lemma tags_differ [simp]: "CLASSIFIED_TAG \<noteq> UNSCANNED_TAG" "UNSCANNED_TAG \<noteq> CLASSIFIED_TAG"
  by (simp_all add: CLASSIFIED_TAG_def UNSCANNED_TAG_def PERSONAL_CLASSIFIED_def PRIVACY_UNSCANNED_def)

lemma reserved_tags [simp]: "is_reserved CLASSIFIED_TAG" "is_reserved UNSCANNED_TAG"
  by (simp_all add: is_reserved_def RESERVED_TAGS_def)

lemma in_apply_reserved_tag:
  "x \<in> set (apply_reserved_tag tags tag action) \<longleftrightarrow>
     (if x = tag then action = Pose \<or> action = Keep \<and> x \<in> set tags else x \<in> set tags)"
  by (cases action) (auto simp: apply_reserved_tag_def)

lemma in_carry_tags:
  "x \<in> set (carry_tags binds prev tags) \<longleftrightarrow>
     x \<in> set tags \<or> x \<in> set prev \<and> is_reserved x \<and> \<not> (binds \<and> x = CLASSIFIED_TAG)"
  unfolding carry_tags_def by (induction prev arbitrary: tags) auto

lemma block_binds_iff: "block_binds previous \<longleftrightarrow> (\<exists>b. previous = Some b \<and> review_of b = Rejected)"
  by (cases previous) (auto simp: block_binds_def binds_the_tag_def)

lemma verdict_tags:
  fixes env now identity status spans budgets policy previous
  defines "d \<equiv> verdict env now identity status spans budgets policy previous"
    and "whole \<equiv> status = StatusOk \<and> length spans \<le> MAX_SPANS"
    and "rejected \<equiv> (\<exists>b. previous = Some b \<and> review_of b = Rejected
      \<and> digest_of b = Some (spans_digest env (take MAX_SPANS spans)))"
  shows "vd_classified d = (if rejected then Retire else if \<not> whole then Keep else if markable spans policy then Pose else Retire)"
    "vd_unscanned d = (if whole then Retire else Pose)"
proof -
  have "is_unscanned (block_status status spans) \<longleftrightarrow> \<not> whole"
    by (auto simp: whole_def block_status_def is_unscanned_def)
  then show "vd_classified d = (if rejected then Retire else if \<not> whole then Keep else if markable spans policy then Pose else Retire)"
    "vd_unscanned d = (if whole then Retire else Pose)"
    by (auto simp: d_def rejected_def verdict_def Let_def block_def split: option.splits)
qed

text \<open>A completed pass, and a rejection that covers the spans a pass reports.\<close>

definition pass_complete :: "pass_outcome \<Rightarrow> bool" where
  "pass_complete o' \<longleftrightarrow> po_status o' = StatusOk \<and> length (po_spans o') \<le> MAX_SPANS"

definition rejection_covers :: "privacy_env \<Rightarrow> toml_value option \<Rightarrow> pass_outcome \<Rightarrow> bool" where
  "rejection_covers env carried o' \<longleftrightarrow>
     (\<exists>b. carried = Some b \<and> review_of b = Rejected
       \<and> digest_of b = Some (spans_digest env (take MAX_SPANS (po_spans o'))))"

text \<open>The block that enters a rewrite: the caller's, or the recorded one carried over.\<close>

definition incoming_block :: "'m frontmatter \<Rightarrow> 'm vault_note \<Rightarrow> toml_value option" where
  "incoming_block fm prev = extra_get (carry_extra (fm_extra (nt_frontmatter prev)) (fm_extra fm)) BLOCK_KEY"


text \<open>A note that carries the marker of personal data and a pass that failed on its new body.\<close>

definition sample_env :: privacy_env where
  "sample_env = \<lparr>pe_sha256_hex = (\<lambda>b. show_nat (length b)), pe_rfc3339 = (\<lambda>t. show_nat (nat t))\<rparr>"

definition sample_fm :: "unit frontmatter" where
  "sample_fm = \<lparr>fm_vault_id = ''main'', fm_section = Debug, fm_tags = [''draft''], fm_created = secs 1,
     fm_updated = None, fm_extra = None, fm_rest = ()\<rparr>"

definition marked_note :: "unit vault_note" where
  "marked_note = \<lparr>nt_id = 1, nt_frontmatter = sample_fm\<lparr>fm_tags := [CLASSIFIED_TAG]\<rparr>, nt_body = sample_text\<rparr>"

definition failed_outcome :: pass_outcome where
  "failed_outcome = \<lparr>po_status = DetectorUnavailable, po_spans = [], po_unmapped_labels = 0, po_rejected_out_of_bounds = 0,
     po_rejected_utf8_boundary = 0, po_touching_window_edge = 0, po_exception_hits = Map.empty\<rparr>"


end
