(* ===== verification/Vault_Write.thy ===== *)
theory Vault_Write
  imports Privacy_Block
begin

text \<open>
  The write path of a vault (\<open>gradatum-vault/src/lifecycle.rs\<close>, \<open>write.rs\<close>, \<open>privacy_rescan.rs\<close>): the single
  insertion point \<open>write_note_judged\<close>, its version history, the optimistic lock and the deferred re-judgement. A
  vault keeps, per tenant and note id, the current note and its snapshots by millisecond. Storage, index and
  Markdown encoding are taken to succeed and to return what was written; the two digests of a note are
  parameters.
\<close>

record history_config =
  hc_max_versions :: nat
  hc_ttl_days :: "32 word option"

record privacy_pass =
  pv_status :: string
  pv_categories :: "string list"
  pv_classified_tagged :: bool
  pv_unscanned_tagged :: bool
  pv_unmapped_labels :: "64 word"
  pv_rejected_out_of_bounds :: nat
  pv_rejected_utf8_boundary :: nat
  pv_touching_window_edge :: nat
  pv_exception_hits :: "string \<Rightarrow> nat option"

record 'm vault =
  va_vault_id :: string
  va_detector :: detector
  va_budgets :: privacy_budgets
  va_policy :: privacy_policy
  va_history_config :: history_config
  va_observer :: bool
  va_notes :: "string \<Rightarrow> nat \<Rightarrow> 'm vault_note option"
  va_history :: "string \<Rightarrow> nat \<Rightarrow> (int \<times> 'm vault_note) list"
  va_passes :: "privacy_pass list"

record ('m, 'h) write_env =
  we_privacy :: privacy_env
  we_content_hash :: "'m frontmatter \<Rightarrow> bytes \<Rightarrow> 'h"
  we_history_hash :: "'m vault_note \<Rightarrow> 'h"

datatype vault_error = InvalidInput string | NoteNotFound nat

subsection \<open>The pass and the rewrite\<close>

definition pattern_id :: "privacy_env \<Rightarrow> bytes \<Rightarrow> string" where
  "pattern_id env pattern = take 16 (pe_sha256_hex env pattern)"

definition run_privacy_pass ::
  "privacy_env \<Rightarrow> 'm vault \<Rightarrow> string \<Rightarrow> section_kind \<Rightarrow> bytes \<Rightarrow> pass_outcome option" where
  "run_privacy_pass env v vault_id sec body =
     (case pass (va_detector v) vault_id sec body (va_budgets v) of
        Inr (Some s) \<Rightarrow>
          (let (spans, hits) = retain (pattern_id env) (va_policy v) vault_id body (ps_spans s) in
           Some \<lparr>po_status = StatusOk, po_spans = spans, po_unmapped_labels = ps_unmapped_labels s,
             po_rejected_out_of_bounds = ms_rejected_out_of_bounds (ps_stats s),
             po_rejected_utf8_boundary = ms_rejected_utf8_boundary (ps_stats s),
             po_touching_window_edge = ms_touching_window_edge (ps_stats s), po_exception_hits = hits\<rparr>)
      | Inr None \<Rightarrow> None
      | Inl err \<Rightarrow>
          Some \<lparr>po_status = status_from_error err, po_spans = [], po_unmapped_labels = 0,
            po_rejected_out_of_bounds = 0, po_rejected_utf8_boundary = 0, po_touching_window_edge = 0,
            po_exception_hits = Map.empty\<rparr>)"

definition masked_body :: "privacy_policy \<Rightarrow> bytes \<Rightarrow> pass_outcome option \<Rightarrow> bytes \<times> bool" where
  "masked_body policy body outcome =
     (case outcome of
        None \<Rightarrow> (body, False)
      | Some o' \<Rightarrow>
          if \<not> masks policy then (body, False)
          else
            (let marked = filter (marks policy) (take MAX_SPANS (po_spans o')) in
             if marked = [] then (body, False)
             else (let masked = mask_spans body marked in (masked, masked \<noteq> body))))"

definition observe_pass ::
  "pass_outcome \<Rightarrow> toml_value \<Rightarrow> tag_action \<Rightarrow> tag_action \<Rightarrow> 'm vault \<Rightarrow> 'm vault" where
  "observe_pass o' blk classified unscanned v =
     (if \<not> va_observer v then v
      else v\<lparr>va_passes := va_passes v @
        [\<lparr>pv_status = (case Option.bind (toml_get blk ''status'') as_str of None \<Rightarrow> [] | Some s \<Rightarrow> s),
          pv_categories = markable_categories (po_spans o') (va_policy v),
          pv_classified_tagged = (classified = Pose), pv_unscanned_tagged = (unscanned = Pose),
          pv_unmapped_labels = po_unmapped_labels o', pv_rejected_out_of_bounds = po_rejected_out_of_bounds o',
          pv_rejected_utf8_boundary = po_rejected_utf8_boundary o',
          pv_touching_window_edge = po_touching_window_edge o', pv_exception_hits = po_exception_hits o'\<rparr>]\<rparr>)"

subsection \<open>Version history\<close>

definition set_history :: "string \<Rightarrow> nat \<Rightarrow> (int \<times> 'm vault_note) list \<Rightarrow> 'm vault \<Rightarrow> 'm vault" where
  "set_history tenant nid h v =
     v\<lparr>va_history := (\<lambda>t i. if t = tenant \<and> i = nid then h else va_history v t i)\<rparr>"

definition history_versions :: "'m vault \<Rightarrow> nat \<Rightarrow> int list" where
  "history_versions v nid = sort (List.map fst (va_history v (va_vault_id v) nid))"

definition history_get :: "'m vault \<Rightarrow> nat \<Rightarrow> int \<Rightarrow> 'm vault_note option" where
  "history_get v nid ts_ms = map_of (va_history v (va_vault_id v) nid) ts_ms"

definition put_snapshot :: "string \<Rightarrow> nat \<Rightarrow> int \<Rightarrow> 'm vault_note \<Rightarrow> 'm vault \<Rightarrow> 'm vault" where
  "put_snapshot tenant nid ts_ms n v =
     set_history tenant nid ((ts_ms, n) # filter (\<lambda>(t, _). t \<noteq> ts_ms) (va_history v tenant nid)) v"

definition delete_snapshots :: "string \<Rightarrow> nat \<Rightarrow> int list \<Rightarrow> 'm vault \<Rightarrow> 'm vault" where
  "delete_snapshots tenant nid ts v =
     set_history tenant nid (filter (\<lambda>(t, _). t \<notin> set ts) (va_history v tenant nid)) v"

definition ttl_cutoff_ms :: "32 word \<Rightarrow> nat \<Rightarrow> nat" where
  "ttl_cutoff_ms ttl_days now_ms = now_ms - min (unat ttl_days * (24 * 3600 * 1000)) (2 ^ 64 - 1)"

definition history_expired :: "history_config \<Rightarrow> nat \<Rightarrow> int list \<Rightarrow> int list" where
  "history_expired cfg now_ms versions =
     (case hc_ttl_days cfg of
        None \<Rightarrow> []
      | Some ttl_days \<Rightarrow> filter (\<lambda>ts. nat ts < ttl_cutoff_ms ttl_days now_ms) versions)"

definition history_excess :: "history_config \<Rightarrow> int list \<Rightarrow> int list" where
  "history_excess cfg versions = take (length versions - max (hc_max_versions cfg) 1) versions"

definition apply_history_trim :: "nat \<Rightarrow> string \<Rightarrow> history_config \<Rightarrow> nat \<Rightarrow> 'm vault \<Rightarrow> 'm vault" where
  "apply_history_trim nid tenant cfg now_ms v =
     (let versions = history_versions v nid;
          expired = history_expired cfg now_ms versions;
          v1 = delete_snapshots tenant nid expired v;
          remaining = filter (\<lambda>ts. ts \<notin> set expired) versions in
      delete_snapshots tenant nid (history_excess cfg remaining) v1)"

definition purge_history_dir :: "nat \<Rightarrow> string \<Rightarrow> 'm vault \<Rightarrow> 'm vault" where
  "purge_history_dir nid tenant v = set_history tenant nid [] v"

definition timestamp_millis :: "time \<Rightarrow> int" where
  "timestamp_millis t = t div 1000000"

subsection \<open>The insertion point\<close>

definition resolve_vault :: "'m vault \<Rightarrow> 'm frontmatter \<Rightarrow> 'm frontmatter" where
  "resolve_vault v fm = (if fm_vault_id fm = [] then fm\<lparr>fm_vault_id := va_vault_id v\<rparr> else fm)"

definition mask_refused :: string where
  "mask_refused = ''privacy mask: the detection pass did not complete (detector_unavailable) '' @ em_dash @
     '' the body was not written rather than persisted unmasked''"

text \<open>The copy of the replaced version: none on a creation, the history emptied when text was masked, otherwise a
  snapshot if the note changed, and the retention bound.\<close>

definition copy_on_write ::
  "('m, 'h) write_env \<Rightarrow> time \<Rightarrow> 'm vault_note option \<Rightarrow> 'm vault_note \<Rightarrow> bool \<Rightarrow> 'm vault \<Rightarrow> 'm vault" where
  "copy_on_write env t_trim existing n body_masked v =
     (case existing of
        None \<Rightarrow> v
      | Some prev \<Rightarrow>
          (let tenant = fm_vault_id (nt_frontmatter prev) in
           if body_masked then purge_history_dir (nt_id prev) tenant v
           else if we_history_hash env prev \<noteq> we_history_hash env n then
             (let ts_ms = timestamp_millis (case fm_updated (nt_frontmatter prev) of
                            Some t \<Rightarrow> t | None \<Rightarrow> fm_created (nt_frontmatter prev)) in
              apply_history_trim (nt_id n) tenant (va_history_config v) (nat (max (timestamp_millis t_trim) 0))
                (put_snapshot tenant (nt_id prev) ts_ms prev v))
           else v))"

definition store_note :: "'m vault_note \<Rightarrow> 'm vault \<Rightarrow> 'm vault" where
  "store_note n v =
     v\<lparr>va_notes := (\<lambda>t i. if t = fm_vault_id (nt_frontmatter n) \<and> i = nt_id n then Some n else va_notes v t i)\<rparr>"

text \<open>The clock is read when the block is built, when the note is stamped and when the history is trimmed.\<close>

type_synonym clock = "time \<times> time \<times> time"

definition write_note_judged ::
  "('m, 'h) write_env \<Rightarrow> clock \<Rightarrow> 'm vault \<Rightarrow> 'm frontmatter \<Rightarrow> bytes \<Rightarrow> nat \<Rightarrow> pass_outcome option
   \<Rightarrow> (vault_error + 'm vault_note) \<times> 'm vault" where
  "write_note_judged env clk v fm body nid reuse =
     (let (t_scan, t_upd, t_trim) = clk;
          fm1 = resolve_vault v fm;
          write_vault = fm_vault_id fm1;
          outcome = (case reuse of
                       Some o' \<Rightarrow> Some o'
                     | None \<Rightarrow> run_privacy_pass (we_privacy env) v write_vault (fm_section fm1) body) in
      if masks (va_policy v) \<and> map_option po_status outcome = Some DetectorUnavailable
      then (Inl (InvalidInput mask_refused), v)
      else
        (let existing = va_notes v write_vault nid;
             (fm2, decided) = decide_privacy (we_privacy env) t_scan (va_detector v) (va_budgets v) (va_policy v)
                                fm1 existing outcome;
             v1 = (case (outcome, decided, extra_get (fm_extra fm2) BLOCK_KEY) of
                     (Some o', Some (classified, unscanned), Some blk) \<Rightarrow> observe_pass o' blk classified unscanned v
                   | _ \<Rightarrow> v);
             fm3 = fm2\<lparr>fm_updated := Some t_upd\<rparr>;
             (body', body_masked) = masked_body (va_policy v) body outcome;
             n = \<lparr>nt_id = nid, nt_frontmatter = fm3, nt_body = body'\<rparr> in
         (Inr n, store_note n (copy_on_write env t_trim existing n body_masked v1))))"

definition write_note_inner ::
  "('m, 'h) write_env \<Rightarrow> clock \<Rightarrow> 'm vault \<Rightarrow> 'm frontmatter \<Rightarrow> bytes \<Rightarrow> nat
   \<Rightarrow> (vault_error + 'm vault_note) \<times> 'm vault" where
  "write_note_inner env clk v fm body nid = write_note_judged env clk v fm body nid None"

subsection \<open>The optimistic lock\<close>

datatype 'h write_result = Written 'h | Conflict 'h

definition note_hash :: "('m, 'h) write_env \<Rightarrow> 'm vault_note \<Rightarrow> 'h" where
  "note_hash env n = we_content_hash env (nt_frontmatter n) (nt_body n)"

definition write_if_match ::
  "('m, 'h) write_env \<Rightarrow> clock \<Rightarrow> 'm vault \<Rightarrow> 'm frontmatter \<Rightarrow> bytes \<Rightarrow> nat \<Rightarrow> 'h option
   \<Rightarrow> (vault_error + 'h write_result) \<times> 'm vault" where
  "write_if_match env clk v fm body nid expected =
     (case (expected, va_notes v (va_vault_id v) nid) of
        (Some h, Some existing) \<Rightarrow>
          if note_hash env existing \<noteq> h then (Inr (Conflict (note_hash env existing)), v)
          else (case write_note_inner env clk v fm body nid of
                  (Inl e, v') \<Rightarrow> (Inl e, v') | (Inr n, v') \<Rightarrow> (Inr (Written (note_hash env n)), v'))
      | _ \<Rightarrow>
          (case write_note_inner env clk v fm body nid of
             (Inl e, v') \<Rightarrow> (Inl e, v') | (Inr n, v') \<Rightarrow> (Inr (Written (note_hash env n)), v')))"

subsection \<open>The deferred sweep\<close>

datatype rescan_outcome = Rewritten | Unchanged | Skipped

fun rescan_as_str :: "rescan_outcome \<Rightarrow> string" where
  "rescan_as_str Rewritten = ''rewritten''"
| "rescan_as_str Unchanged = ''unchanged''"
| "rescan_as_str Skipped = ''skipped''"

definition rescan_identical :: "toml_value option \<Rightarrow> toml_value option \<Rightarrow> bool" where
  "rescan_identical before after =
     (case (before, after) of
        (Some a, Some b) \<Rightarrow> same_block_modulo_scanned_at a b
      | (None, None) \<Rightarrow> True
      | _ \<Rightarrow> False)"

definition rescan_privacy_in ::
  "('m, 'h) write_env \<Rightarrow> time \<Rightarrow> clock \<Rightarrow> 'm vault \<Rightarrow> string \<Rightarrow> nat \<Rightarrow> (vault_error + rescan_outcome) \<times> 'm vault" where
  "rescan_privacy_in env t_preview clk v vault_id nid =
     (case va_notes v vault_id nid of
        None \<Rightarrow> (Inr Skipped, v)
      | Some n \<Rightarrow>
          (let fm = nt_frontmatter n;
               write_vault = (if fm_vault_id fm = [] then va_vault_id v else fm_vault_id fm) in
           case run_privacy_pass (we_privacy env) v write_vault (fm_section fm) (nt_body n) of
             None \<Rightarrow> (Inr Skipped, v)
           | Some o' \<Rightarrow>
               (let preview = fst (decide_privacy (we_privacy env) t_preview (va_detector v) (va_budgets v) (va_policy v)
                        fm (Some n) (Some o')) in
                if rescan_identical (extra_get (fm_extra fm) BLOCK_KEY) (extra_get (fm_extra preview) BLOCK_KEY)
                then (Inr Unchanged, v)
                else
                  (case write_note_judged env clk v fm (nt_body n) nid (Some o') of
                     (Inl e, v') \<Rightarrow> (Inl e, v')
                   | (Inr _, v') \<Rightarrow> (Inr Rewritten, v')))))"

subsection \<open>An example vault\<close>

definition mask_policy :: privacy_policy where
  "mask_policy = \<lparr>pp_mask = True, pp_thresholds = (\<lambda>c. if c = Email then Some 1 else None), pp_exceptions = []\<rparr>"

definition sample_span :: pii_span where
  "sample_span = \<lparr>sp_start = 2, sp_len = 2, sp_category = Email, sp_score = Finite 1\<rparr>"

definition sample_write_env :: "(unit, nat) write_env" where
  "sample_write_env = \<lparr>we_privacy = sample_env, we_content_hash = (\<lambda>fm b. length b), we_history_hash = (\<lambda>n. length (nt_body n))\<rparr>"

definition sample_vault :: "privacy_policy \<Rightarrow> unit vault" where
  "sample_vault policy =
     \<lparr>va_vault_id = ''main'', va_detector = sample_detector, va_budgets = sample_budgets, va_policy = policy,
      va_history_config = \<lparr>hc_max_versions = 50, hc_ttl_days = None\<rparr>, va_observer = False,
      va_notes = (\<lambda>t i. if t = ''main'' \<and> i = 1 then Some marked_note else None),
      va_history = (\<lambda>t i. if t = ''main'' \<and> i = 1 then [(1000, marked_note)] else []), va_passes = []\<rparr>"

lemma mask_policy_marks: "marks mask_policy sample_span" "masks mask_policy"
proof -
  have "score_m (Finite 1) = 1000" by (rule score_m_top) simp_all
  then show "marks mask_policy sample_span"
    by (simp add: marks_def threshold_m_def mask_policy_def sample_span_def span_score_m_def)
qed (simp add: masks_def mask_policy_def)

lemma sample_merged: "fst (validate_and_merge sample_text [sample_span, sample_span]) = [sample_span]"
proof -
  have "fst (validate_spans sample_text [sample_span, sample_span] stats_zero) = [sample_span, sample_span]"
    using sample_span_in [folded sample_span_def] by (simp add: validate_spans_filter del: validate_spans.simps)
  then obtain st where "validate_spans sample_text [sample_span, sample_span] stats_zero = ([sample_span, sample_span], st)"
    by (metis prod.collapse)
  moreover have "span_union sample_span sample_span = sample_span"
    by (simp add: span_union_def sample_span_def)
  moreover have "sp_len sample_span = 2" by (simp add: sample_span_def)
  ultimately show ?thesis by (simp add: validate_and_merge_def del: validate_spans.simps)
qed

lemma sample_pass:
  assumes "exceptions_for policy ''main'' = []"
  shows "\<exists>o'. run_privacy_pass env (sample_vault policy) ''main'' Debug sample_text = Some o' \<and> po_status o' = StatusOk
    \<and> po_spans o' = [sample_span]"
proof -
  have "\<exists>r. scan sample_detector sample_text Async sample_budgets = Inr r"
    by (rule scan_answers [OF sample_text_utf8])
      (auto simp: sample_text_def sample_budgets_def sample_detector_def)
  then obtain r where r: "scan sample_detector sample_text Async sample_budgets = Inr r" by blast
  have spans: "ps_spans r = [sample_span]"
    using scan_Inr(1) [OF r] sample_reported [folded sample_span_def] sample_merged by simp
  have "pass sample_detector ''main'' Debug sample_text sample_budgets = Inr (Some r)"
    using r by (simp add: pass_def is_excluded_def starts_with_def CODE_VAULT_PREFIX_def surface_for_def)
      (simp add: sample_detector_def)
  with spans assms show ?thesis by (simp add: run_privacy_pass_def sample_vault_def retain_def)
qed

end
