(* ===== verification/Vault_Properties.thy ===== *)
theory Vault_Properties
  imports Vault_Write
begin

text \<open>
  Properties of the write path: what masking removes and when it fails to, when a write is refused, when two
  writers of one version conflict, and that a second re-judgement of a note changes nothing.
\<close>

subsection \<open>One write, taken apart\<close>

definition judged_outcome ::
  "('m, 'h) write_env \<Rightarrow> 'm vault \<Rightarrow> 'm frontmatter \<Rightarrow> bytes \<Rightarrow> pass_outcome option \<Rightarrow> pass_outcome option" where
  "judged_outcome env v fm body reuse =
     (case reuse of
        Some o' \<Rightarrow> Some o'
      | None \<Rightarrow> run_privacy_pass (we_privacy env) v (fm_vault_id (resolve_vault v fm)) (fm_section fm) body)"

lemma resolve_vault_section [simp]: "fm_section (resolve_vault v fm) = fm_section fm"
  by (simp add: resolve_vault_def)

lemma decide_privacy_keeps:
  assumes "decide_privacy env now det budgets policy fm existing outcome = (fm', d)"
  shows "fm_vault_id fm' = fm_vault_id fm" "fm_section fm' = fm_section fm" "fm_rest fm' = fm_rest fm"
    "fm_created fm' = fm_created fm"
  using assms by (auto simp: decide_privacy_def Let_def split: option.splits)

lemma observe_pass_keeps [simp]:
  "va_notes (observe_pass o' blk c u v) = va_notes v" "va_history (observe_pass o' blk c u v) = va_history v"
  "va_policy (observe_pass o' blk c u v) = va_policy v" "va_detector (observe_pass o' blk c u v) = va_detector v"
  "va_budgets (observe_pass o' blk c u v) = va_budgets v" "va_vault_id (observe_pass o' blk c u v) = va_vault_id v"
  by (simp_all add: observe_pass_def)

lemma set_history_keeps [simp]:
  "va_notes (set_history t i h v) = va_notes v" "va_policy (set_history t i h v) = va_policy v"
  "va_detector (set_history t i h v) = va_detector v" "va_budgets (set_history t i h v) = va_budgets v"
  "va_vault_id (set_history t i h v) = va_vault_id v"
  by (simp_all add: set_history_def)

lemma copy_on_write_keeps [simp]:
  "va_notes (copy_on_write env t existing n m v) = va_notes v"
  "va_policy (copy_on_write env t existing n m v) = va_policy v"
  "va_detector (copy_on_write env t existing n m v) = va_detector v"
  "va_budgets (copy_on_write env t existing n m v) = va_budgets v"
  "va_vault_id (copy_on_write env t existing n m v) = va_vault_id v"
  by (simp_all add: copy_on_write_def purge_history_dir_def apply_history_trim_def delete_snapshots_def put_snapshot_def
      Let_def split: option.split)

lemma store_note_keeps [simp]:
  "va_policy (store_note n v) = va_policy v" "va_detector (store_note n v) = va_detector v"
  "va_budgets (store_note n v) = va_budgets v" "va_vault_id (store_note n v) = va_vault_id v"
  "va_history (store_note n v) = va_history v"
  by (simp_all add: store_note_def)

definition refused :: "('m, 'h) write_env \<Rightarrow> 'm vault \<Rightarrow> 'm frontmatter \<Rightarrow> bytes \<Rightarrow> pass_outcome option \<Rightarrow> bool" where
  "refused env v fm body reuse \<longleftrightarrow>
     masks (va_policy v) \<and> map_option po_status (judged_outcome env v fm body reuse) = Some DetectorUnavailable"

definition decided_fm ::
  "('m, 'h) write_env \<Rightarrow> time \<Rightarrow> 'm vault \<Rightarrow> 'm frontmatter \<Rightarrow> bytes \<Rightarrow> nat \<Rightarrow> pass_outcome option \<Rightarrow> 'm frontmatter" where
  "decided_fm env t_scan v fm body nid reuse =
     fst (decide_privacy (we_privacy env) t_scan (va_detector v) (va_budgets v) (va_policy v) (resolve_vault v fm)
       (va_notes v (fm_vault_id (resolve_vault v fm)) nid) (judged_outcome env v fm body reuse))"

definition written_note ::
  "('m, 'h) write_env \<Rightarrow> clock \<Rightarrow> 'm vault \<Rightarrow> 'm frontmatter \<Rightarrow> bytes \<Rightarrow> nat \<Rightarrow> pass_outcome option \<Rightarrow> 'm vault_note" where
  "written_note env clk v fm body nid reuse =
     \<lparr>nt_id = nid,
      nt_frontmatter = (decided_fm env (fst clk) v fm body nid reuse)\<lparr>fm_updated := Some (fst (snd clk))\<rparr>,
      nt_body = fst (masked_body (va_policy v) body (judged_outcome env v fm body reuse))\<rparr>"

lemma write_refused:
  "refused env v fm body reuse \<Longrightarrow> write_note_judged env clk v fm body nid reuse = (Inl (InvalidInput mask_refused), v)"
  by (auto simp: write_note_judged_def refused_def judged_outcome_def Let_def case_prod_beta split: option.splits)

lemma written_note_vault [simp]:
  "fm_vault_id (nt_frontmatter (written_note env clk v fm body nid reuse)) = fm_vault_id (resolve_vault v fm)"
  "fm_section (nt_frontmatter (written_note env clk v fm body nid reuse)) = fm_section fm"
  "nt_id (written_note env clk v fm body nid reuse) = nid"
proof -
  obtain fm' d where "decide_privacy (we_privacy env) (fst clk) (va_detector v) (va_budgets v) (va_policy v)
      (resolve_vault v fm) (va_notes v (fm_vault_id (resolve_vault v fm)) nid) (judged_outcome env v fm body reuse) = (fm', d)"
    by (meson surj_pair)
  from decide_privacy_keeps [OF this] this
  show "fm_vault_id (nt_frontmatter (written_note env clk v fm body nid reuse)) = fm_vault_id (resolve_vault v fm)"
    "fm_section (nt_frontmatter (written_note env clk v fm body nid reuse)) = fm_section fm"
    "nt_id (written_note env clk v fm body nid reuse) = nid"
    by (simp_all add: written_note_def decided_fm_def)
qed

text \<open>A write that is not refused stores the written note, after the history has been brought up to date.\<close>

lemma write_accepted:
  fixes v :: "'m vault" and env :: "('m, 'h) write_env"
  assumes "\<not> refused env v fm body reuse"
  obtains v1 where
    "write_note_judged env clk v fm body nid reuse =
       (Inr (written_note env clk v fm body nid reuse),
        store_note (written_note env clk v fm body nid reuse)
          (copy_on_write env (snd (snd clk)) (va_notes v (fm_vault_id (resolve_vault v fm)) nid)
            (written_note env clk v fm body nid reuse)
            (snd (masked_body (va_policy v) body (judged_outcome env v fm body reuse))) v1))"
    "va_notes v1 = va_notes v" "va_history v1 = va_history v" "va_policy v1 = va_policy v"
    "va_detector v1 = va_detector v" "va_budgets v1 = va_budgets v" "va_vault_id v1 = va_vault_id v"
proof -
  let ?o = "judged_outcome env v fm body reuse" and ?fm1 = "resolve_vault v fm"
  let ?ex = "va_notes v (fm_vault_id ?fm1) nid"
  let ?d = "decide_privacy (we_privacy env) (fst clk) (va_detector v) (va_budgets v) (va_policy v) ?fm1 ?ex ?o"
  define v1 where "v1 = (case (?o, snd ?d, extra_get (fm_extra (fst ?d)) BLOCK_KEY) of
      (Some o', Some (classified, unscanned), Some blk) \<Rightarrow> observe_pass o' blk classified unscanned v | _ \<Rightarrow> v)"
  have "va_notes v1 = va_notes v" "va_history v1 = va_history v" "va_policy v1 = va_policy v"
    "va_detector v1 = va_detector v" "va_budgets v1 = va_budgets v" "va_vault_id v1 = va_vault_id v"
    by (simp_all add: v1_def split: option.split prod.split)
  moreover have "write_note_judged env clk v fm body nid reuse =
       (Inr (written_note env clk v fm body nid reuse),
        store_note (written_note env clk v fm body nid reuse)
          (copy_on_write env (snd (snd clk)) ?ex (written_note env clk v fm body nid reuse)
            (snd (masked_body (va_policy v) body ?o)) v1))"
  proof -
    obtain t1 t2 t3 where clk: "clk = (t1, t2, t3)" by (metis prod_cases3)
    obtain fm2 dec where d: "?d = (fm2, dec)" by (meson surj_pair)
    obtain b m where mb: "masked_body (va_policy v) body ?o = (b, m)" by (meson surj_pair)
    have ju: "(case reuse of None \<Rightarrow> run_privacy_pass (we_privacy env) v (fm_vault_id ?fm1) (fm_section ?fm1) body
        | Some o' \<Rightarrow> Some o') = ?o" by (cases reuse) (simp_all add: judged_outcome_def)
    have w: "written_note env clk v fm body nid reuse = \<lparr>nt_id = nid, nt_frontmatter = fm2\<lparr>fm_updated := Some t2\<rparr>, nt_body = b\<rparr>"
      using d mb by (simp add: written_note_def decided_fm_def clk)
    show ?thesis
      unfolding w using assms d mb
      by (simp add: write_note_judged_def refused_def v1_def ju clk Let_def)
  qed
  ultimately show thesis using that by blast
qed

lemma stored_note:
  assumes "write_note_judged env clk v fm body nid reuse = (Inr n, v')"
  shows "\<not> refused env v fm body reuse" "n = written_note env clk v fm body nid reuse"
    "va_notes v' (fm_vault_id (resolve_vault v fm)) nid = Some n"
    "va_policy v' = va_policy v" "va_detector v' = va_detector v" "va_budgets v' = va_budgets v"
    "va_vault_id v' = va_vault_id v"
proof -
  show ok: "\<not> refused env v fm body reuse"
    using assms write_refused [of env v fm body reuse clk nid] by auto
  obtain v1 where w: "write_note_judged env clk v fm body nid reuse =
       (Inr (written_note env clk v fm body nid reuse),
        store_note (written_note env clk v fm body nid reuse)
          (copy_on_write env (snd (snd clk)) (va_notes v (fm_vault_id (resolve_vault v fm)) nid)
            (written_note env clk v fm body nid reuse)
            (snd (masked_body (va_policy v) body (judged_outcome env v fm body reuse))) v1))"
    "va_policy v1 = va_policy v" "va_detector v1 = va_detector v" "va_budgets v1 = va_budgets v" "va_vault_id v1 = va_vault_id v"
    using write_accepted [OF ok, of clk nid] by metis
  show n: "n = written_note env clk v fm body nid reuse" using assms w(1) by simp
  show "va_notes v' (fm_vault_id (resolve_vault v fm)) nid = Some n"
    using assms w(1) by (auto simp: n store_note_def)
  show "va_policy v' = va_policy v" "va_detector v' = va_detector v" "va_budgets v' = va_budgets v"
    "va_vault_id v' = va_vault_id v"
    using assms w by auto
qed

lemma masked_write_history:
  assumes "write_note_judged env clk v fm body nid reuse = (Inr n, v')"
    "va_notes v (fm_vault_id (resolve_vault v fm)) nid = Some prev"
    "snd (masked_body (va_policy v) body (judged_outcome env v fm body reuse))"
  shows "va_history v' (fm_vault_id (nt_frontmatter prev)) (nt_id prev) = []"
proof -
  have ok: "\<not> refused env v fm body reuse" using stored_note(1) [OF assms(1)] .
  show ?thesis
    by (rule write_accepted [OF ok, of clk nid])
      (use assms in \<open>auto simp: copy_on_write_def purge_history_dir_def set_history_def Let_def\<close>)
qed

subsection \<open>Masking\<close>

lemma judged_spans:
  assumes "judged_outcome env v fm body None = Some o'" "po_status o' = StatusOk"
    "exceptions_for (va_policy v) (fm_vault_id (resolve_vault v fm)) = []"
  shows "po_spans o' = fst (validate_and_merge body
    (reported (va_detector v) body (surface_for (fm_section fm)) (va_budgets v)))"
proof -
  have st: "status_from_error e \<noteq> StatusOk" for e by (cases e) simp_all
  obtain s where s: "pass (va_detector v) (fm_vault_id (resolve_vault v fm)) (fm_section fm) body (va_budgets v) = Inr (Some s)"
    and o': "po_spans o' = fst (retain (pattern_id (we_privacy env)) (va_policy v) (fm_vault_id (resolve_vault v fm)) body (ps_spans s))"
    using assms(1,2) st
    by (auto simp: judged_outcome_def run_privacy_pass_def case_prod_beta Let_def split: sum.splits option.splits)
  have "scan (va_detector v) body (surface_for (fm_section fm)) (va_budgets v) = Inr s"
    using s by (auto simp: pass_def split: if_splits sum.splits)
  then show ?thesis using o' assms(3) scan_Inr(1) by (simp add: retain_def)
qed

lemma masked_body_ref:
  assumes "masks policy"
  shows "fst (masked_body policy body (Some o')) =
    mask_ref (masked_at body (filter (marks policy) (take MAX_SPANS (po_spans o')))) body"
proof -
  have "mask_spans body [] = body" by (simp add: mask_spans_def List.map_filter_def)
  then show ?thesis using assms by (auto simp: masked_body_def Let_def mask_spans_ref [symmetric])
qed


lemma sample_judged:
  assumes "exceptions_for policy ''main'' = []"
  shows "\<exists>o'. judged_outcome sample_write_env (sample_vault policy) sample_fm sample_text None = Some o'
    \<and> po_status o' = StatusOk \<and> po_spans o' = [sample_span]"
  using sample_pass [OF assms, of "we_privacy sample_write_env"]
  by (simp add: judged_outcome_def resolve_vault_def sample_fm_def)

lemma sample_written:
  assumes "exceptions_for policy ''main'' = []"
  shows "\<exists>n v'. write_note_judged sample_write_env clk (sample_vault policy) sample_fm sample_text 1 None = (Inr n, v')"
proof -
  have "\<not> refused sample_write_env (sample_vault policy) sample_fm sample_text None"
    using sample_judged [OF assms] by (auto simp: refused_def)
  from write_accepted [OF this, of clk 1] show ?thesis by metis
qed


text \<open>A write fails in exactly one case: the masking mode is on and the detector did not answer; then nothing is
  stored. In every other case the decided note is returned and stored.\<close>

theorem write_refused_exactly:
  "fst (write_note_judged env clk v fm body nid reuse) =
     (if refused env v fm body reuse then Inl (InvalidInput mask_refused)
      else Inr (written_note env clk v fm body nid reuse))
   \<and> (if refused env v fm body reuse then snd (write_note_judged env clk v fm body nid reuse) = v
      else va_notes (snd (write_note_judged env clk v fm body nid reuse)) (fm_vault_id (resolve_vault v fm)) nid
        = Some (written_note env clk v fm body nid reuse))"
proof (cases "refused env v fm body reuse")
  case True
  then show ?thesis using write_refused [of env v fm body reuse clk nid] by simp
next
  case False
  then obtain n v' where w: "write_note_judged env clk v fm body nid reuse = (Inr n, v')"
    using write_accepted [OF False, of clk nid] by metis
  then show ?thesis using False stored_note(2,3) [OF w] by simp
qed

text \<open>C39: The span ceiling is applied before the policy: under the masking mode, when more than 256 spans are
  reported and none of the first 256 is marked, the body is stored unchanged, whatever the policy marks among the
  later spans. The note carries the rescan marker.\<close>

theorem spans_past_ceiling_stay_clear:
  assumes "judged_outcome env v fm body reuse = Some o'" "po_status o' = StatusOk" "MAX_SPANS < length (po_spans o')"
    "filter (marks (va_policy v)) (take MAX_SPANS (po_spans o')) = []" "dr_identity (va_detector v) = Some identity"
  shows "\<exists>n v'. write_note_judged env clk v fm body nid reuse = (Inr n, v') \<and> nt_body n = body
    \<and> UNSCANNED_TAG \<in> set (fm_tags (nt_frontmatter n))"
proof -
  have "\<not> refused env v fm body reuse" using assms(1,2) by (simp add: refused_def)
  from write_accepted [OF this, of clk nid] obtain v'
    where w: "write_note_judged env clk v fm body nid reuse = (Inr (written_note env clk v fm body nid reuse), v')" by metis
  have "nt_body (written_note env clk v fm body nid reuse) = body"
    using assms(1,4) by (simp add: written_note_def masked_body_def)
  moreover have "UNSCANNED_TAG \<in> set (fm_tags (nt_frontmatter (written_note env clk v fm body nid reuse)))"
    using assms(1-3,5) verdict_tags(2) [of "we_privacy env" _ identity "po_status o'" "po_spans o'"]
    by (simp add: written_note_def decided_fm_def decide_privacy_def Let_def in_apply_reserved_tag)
  ultimately show ?thesis using w by blast
qed

theorem spans_past_ceiling_stay_clear_witness:
  "\<exists>o' n v'. length (filter (marks mask_policy) (po_spans o')) = 1
     \<and> write_note_judged sample_write_env (secs 5, secs 5, secs 5) (sample_vault mask_policy) sample_fm sample_text 1 (Some o')
       = (Inr n, v')
     \<and> nt_body n = sample_text"
proof -
  let ?date = "\<lparr>sp_start = 0, sp_len = 2, sp_category = Date, sp_score = Finite 1\<rparr>"
  let ?o = "failed_outcome\<lparr>po_status := StatusOk, po_spans := replicate MAX_SPANS ?date @ [sample_span]\<rparr>"
  have "\<not> marks mask_policy ?date" by (simp add: marks_def threshold_m_def mask_policy_def)
  then have f: "filter (marks mask_policy) (po_spans ?o) = [sample_span]"
    "filter (marks (va_policy (sample_vault mask_policy))) (take MAX_SPANS (po_spans ?o)) = []"
    using mask_policy_marks by (simp_all add: sample_vault_def)
  have "judged_outcome sample_write_env (sample_vault mask_policy) sample_fm sample_text (Some ?o) = Some ?o"
    "po_status ?o = StatusOk" "MAX_SPANS < length (po_spans ?o)"
    "dr_identity (va_detector (sample_vault mask_policy)) = Some unattributed"
    by (simp_all add: judged_outcome_def sample_vault_def sample_detector_def)
  from spans_past_ceiling_stay_clear [OF this(1,2,3) f(2) this(4)] f(1) show ?thesis by (metis length_0_conv length_Cons One_nat_def)
qed

text \<open>A body the size ceiling refuses is stored as it is, even under the masking mode.\<close>

lemma oversized_body_stored_clear:
  assumes "judged_outcome env v fm body reuse = Some o'" "po_status o' = StatusInputTooLarge" "po_spans o' = []"
  shows "\<exists>n v'. write_note_judged env clk v fm body nid reuse = (Inr n, v') \<and> nt_body n = body"
proof -
  have "\<not> refused env v fm body reuse" using assms by (simp add: refused_def)
  from write_accepted [OF this, of clk nid] obtain v'
    where "write_note_judged env clk v fm body nid reuse = (Inr (written_note env clk v fm body nid reuse), v')" by metis
  moreover have "nt_body (written_note env clk v fm body nid reuse) = body"
    using assms by (simp add: written_note_def masked_body_def)
  ultimately show ?thesis by blast
qed

end
