(* ===== verification/Vault_Rescan.thy ===== *)
theory Vault_Rescan
  imports Vault_Properties
begin

text \<open>
  The deferred sweep re-judges a note and writes it only if the judgement moved
  (\<open>gradatum-vault/src/privacy_rescan.rs\<close>), and the optimistic lock (\<open>write.rs\<close>): a second sweep finds nothing to do,
  and of two writers that read the same version one gets a conflict.
\<close>

subsection \<open>Re-judging a note\<close>

text \<open>Two tables that differ at most in the value under one key.\<close>

definition same_but :: "string \<Rightarrow> (string \<times> 'v) list \<Rightarrow> (string \<times> 'v) list \<Rightarrow> bool" where
  "same_but k = list_all2 (\<lambda>(x, v) (y, w). x = y \<and> (x = k \<or> v = w))"

lemma same_but_insert: "same_but k a b \<Longrightarrow> same_but k (tbl_insert x v a) (tbl_insert x v b)"
  unfolding same_but_def by (induction a b rule: list_all2_induct) auto

lemma same_but_insert_key: "same_but k a b \<Longrightarrow> same_but k (tbl_insert k v a) (tbl_insert k w b)"
  unfolding same_but_def by (induction a b rule: list_all2_induct) auto

lemma same_but_remove: "same_but k a b \<Longrightarrow> tbl_remove k a = tbl_remove k b"
  unfolding same_but_def tbl_remove_def by (induction a b rule: list_all2_induct) auto

lemma block_modulo_scanned_at:
  "stripped (fst (block env t identity status spans budgets policy rv))
   = stripped (fst (block env t' identity status spans budgets policy rv))"
proof -
  have nil: "same_but ''scanned_at'' [] ([] :: toml_table)" by (simp add: same_but_def)
  have "same_but ''scanned_at''
      (fold (\<lambda>(k, v). tbl_insert k v) (block_entries env a identity status spans budgets policy rv) [])
      (fold (\<lambda>(k, v). tbl_insert k v) (block_entries env b identity status spans budgets policy rv) [])" for a b
    unfolding block_entries_def by (simp only: fold.simps comp_apply id_apply prod.case) (intro same_but_insert same_but_insert_key nil)
  from same_but_remove [OF this] show ?thesis by (simp add: stripped_def block_def)
qed

lemma map_of_fold_insert:
  "map_of (fold (\<lambda>(k, v). tbl_insert k v) es t) k = (case map_of (rev es) k of Some v \<Rightarrow> Some v | None \<Rightarrow> map_of t k)"
  by (induction es arbitrary: t) (auto simp: map_add_def split: option.splits)

lemma block_review: "review_of (fst (block env t identity status spans budgets policy rv)) = rv"
  by (cases rv) (simp_all add: review_of_def toml_get_def block_def map_of_fold_insert block_entries_def REVIEW_KEY_def)

lemma block_digest:
  "digest_of (fst (block env t identity status spans budgets policy rv)) = Some (spans_digest env (take MAX_SPANS spans))"
  by (simp add: digest_of_def toml_get_def block_def map_of_fold_insert block_entries_def)

lemma extra_get_insert [simp]: "extra_get (extra_insert e k v) k' = (if k' = k then Some v else extra_get e k')"
  by (cases e) (auto simp: extra_get_def extra_insert_def)

lemma extra_get_carry: "extra_get e k = Some v \<Longrightarrow> extra_get (carry_extra p e) k = Some v"
proof (cases p)
  case (Some t)
  assume "extra_get e k = Some v"
  then have "extra_get (fold (\<lambda>(k, v) e. if extra_get e k = None then extra_insert e k v else e) t e) k = Some v"
  proof (induction t arbitrary: e)
    case (Cons x t)
    then show ?case by (cases "fst x = k") (auto simp: case_prod_beta)
  qed simp
  then show ?thesis by (simp add: carry_extra_def Some)
qed (simp add: carry_extra_def)

text \<open>The block a judgement puts on a note, up to the review it carries over.\<close>

definition carried_review :: "privacy_env \<Rightarrow> pass_outcome \<Rightarrow> toml_value option \<Rightarrow> review" where
  "carried_review env o' previous =
     (case previous of
        Some prev \<Rightarrow> if digest_of prev = Some (spans_digest env (take MAX_SPANS (po_spans o'))) then review_of prev else ReviewPending
      | None \<Rightarrow> ReviewPending)"

lemma decided_block:
  assumes "dr_identity det = Some identity"
  shows "extra_get (fm_extra (fst (decide_privacy env t det budgets policy fm (Some n) (Some o')))) BLOCK_KEY =
    Some (fst (block env t identity (po_status o') (po_spans o') budgets policy
      (carried_review env o' (carried_block (incoming_block fm n) (previous_block (Some n))))))"
  using assms
  by (simp add: decide_privacy_def Let_def verdict_def case_prod_beta incoming_block_def carried_review_def)

lemma self_carried: "extra_get (fm_extra (nt_frontmatter n)) BLOCK_KEY = Some b \<Longrightarrow>
    carried_block (incoming_block (nt_frontmatter n) n) (previous_block (Some n)) = Some b"
  using extra_get_carry [of "fm_extra (nt_frontmatter n)" BLOCK_KEY b "fm_extra (nt_frontmatter n)"]
  by (simp add: incoming_block_def previous_block_def carried_block_def)

lemma run_privacy_pass_cong:
  assumes "va_detector v' = va_detector v" "va_budgets v' = va_budgets v" "va_policy v' = va_policy v"
  shows "run_privacy_pass env v' = run_privacy_pass env v"
  unfolding run_privacy_pass_def fun_eq_iff assms by simp

lemma pass_has_identity: "run_privacy_pass env v vid sec body = Some o' \<Longrightarrow> \<exists>identity. dr_identity (va_detector v) = Some identity"
  by (auto simp: run_privacy_pass_def pass_def split: sum.splits option.splits if_splits)

text \<open>A note whose block is the one its own judgement gives is left alone.\<close>

lemma rescan_unchanged:
  assumes "va_notes v vid nid = Some n" "fm_vault_id (nt_frontmatter n) = vid" "vid \<noteq> []"
    "run_privacy_pass (we_privacy env) v vid (fm_section (nt_frontmatter n)) (nt_body n) = Some o'"
    "dr_identity (va_detector v) = Some identity"
    "extra_get (fm_extra (nt_frontmatter n)) BLOCK_KEY =
       Some (fst (block (we_privacy env) t' identity (po_status o') (po_spans o') (va_budgets v) (va_policy v) rv))"
  shows "rescan_privacy_in env t clk v vid nid = (Inr Unchanged, v)"
proof -
  note b = self_carried [OF assms(6)]
  have "carried_review (we_privacy env) o' (Some (fst (block (we_privacy env) t' identity (po_status o') (po_spans o')
      (va_budgets v) (va_policy v) rv))) = rv"
    by (simp add: carried_review_def block_digest block_review)
  then have "extra_get (fm_extra (fst (decide_privacy (we_privacy env) t (va_detector v) (va_budgets v) (va_policy v)
      (nt_frontmatter n) (Some n) (Some o')))) BLOCK_KEY
      = Some (fst (block (we_privacy env) t identity (po_status o') (po_spans o') (va_budgets v) (va_policy v) rv))"
    using decided_block [OF assms(5), of "we_privacy env" t "va_budgets v" "va_policy v" "nt_frontmatter n" n o'] b by simp
  then show ?thesis
    using assms(1-4) assms(6) block_modulo_scanned_at
    by (simp add: rescan_privacy_in_def Let_def rescan_identical_def same_block_modulo_scanned_at_def)
qed

lemma masked_body_unchanged: "\<not> snd (masked_body policy body outcome) \<Longrightarrow> fst (masked_body policy body outcome) = body"
  by (auto simp: masked_body_def Let_def split: option.splits if_splits)

text \<open>A sweep settles a note at once: when the sweep has re-judged a note of its own vault without removing text,
  a second sweep, at any later time, finds nothing to write and leaves the vault as it is.\<close>

theorem second_rescan_changes_nothing:
  fixes v :: "'m vault" and env :: "('m, 'h) write_env"
  assumes "va_notes v vid nid = Some n" "fm_vault_id (nt_frontmatter n) = vid" "vid \<noteq> []"
    "rescan_privacy_in env t clk v vid nid = (Inr r, v1)"
    "\<not> snd (masked_body (va_policy v) (nt_body n)
         (run_privacy_pass (we_privacy env) v vid (fm_section (nt_frontmatter n)) (nt_body n)))"
  shows "\<exists>r'. rescan_privacy_in env t' clk' v1 vid nid = (Inr r', v1) \<and> r' \<noteq> Rewritten"
proof (cases "run_privacy_pass (we_privacy env) v vid (fm_section (nt_frontmatter n)) (nt_body n)")
  case None
  then have "rescan_privacy_in env t clk v vid nid = (Inr Skipped, v)" for t clk
    using assms(1-3) by (simp add: rescan_privacy_in_def Let_def)
  then show ?thesis using assms(4) by auto
next
  case (Some o')
  let ?fm = "nt_frontmatter n"
  obtain identity where id: "dr_identity (va_detector v) = Some identity" using pass_has_identity [OF Some] by blast
  define rv where "rv = carried_review (we_privacy env) o' (carried_block (incoming_block ?fm n) (previous_block (Some n)))"
  define b where "b = (\<lambda>t. fst (block (we_privacy env) t identity (po_status o') (po_spans o') (va_budgets v) (va_policy v) rv))"
  have prev: "extra_get (fm_extra (fst (decide_privacy (we_privacy env) t (va_detector v) (va_budgets v) (va_policy v)
      ?fm (Some n) (Some o')))) BLOCK_KEY = Some (b t)" for t
    using decided_block [OF id] by (simp add: b_def rv_def)
  have strip: "stripped (b t) = stripped (b t')" for t t' unfolding b_def by (rule block_modulo_scanned_at)
  have res: "rescan_privacy_in env t clk v vid nid =
      (if rescan_identical (extra_get (fm_extra ?fm) BLOCK_KEY) (Some (b t)) then (Inr Unchanged, v)
       else (case write_note_judged env clk v ?fm (nt_body n) nid (Some o') of
          (Inl e, v') \<Rightarrow> (Inl e, v') | (Inr _, v') \<Rightarrow> (Inr Rewritten, v')))" for t clk
    using assms(1-3) Some prev by (simp add: rescan_privacy_in_def Let_def)
  show ?thesis
  proof (cases "rescan_identical (extra_get (fm_extra ?fm) BLOCK_KEY) (Some (b t))")
    case True
    then have "rescan_identical (extra_get (fm_extra ?fm) BLOCK_KEY) (Some (b t'))"
      using strip [of t t'] by (auto simp: rescan_identical_def same_block_modulo_scanned_at_def split: option.splits)
    then show ?thesis using True assms(4) res by simp
  next
    case False
    then obtain n1 where w: "write_note_judged env clk v ?fm (nt_body n) nid (Some o') = (Inr n1, v1)"
      using assms(4) res [of t clk] by (auto split: sum.splits prod.splits)
    note st = stored_note [OF w]
    have fm: "resolve_vault v ?fm = ?fm" using assms(2,3) by (simp add: resolve_vault_def)
    have body: "nt_body n1 = nt_body n"
      using st(2) masked_body_unchanged assms(5) Some by (simp add: written_note_def judged_outcome_def)
    have blk: "extra_get (fm_extra (nt_frontmatter n1)) BLOCK_KEY = Some (b (fst clk))"
      using st(2) prev [of "fst clk"] assms(1,2) fm by (simp add: written_note_def decided_fm_def judged_outcome_def)
    have vs: "fm_vault_id (nt_frontmatter n1) = vid" "fm_section (nt_frontmatter n1) = fm_section ?fm"
      using st(2) assms(2) fm by simp_all
    have "rescan_privacy_in env t' clk' v1 vid nid = (Inr Unchanged, v1)"
      using st(3) fm assms(2,3) vs Some body blk id st(4-6) run_privacy_pass_cong [of v1 v "we_privacy env"]
      by (intro rescan_unchanged [of v1 vid nid n1 env o' identity "fst clk" rv]) (simp_all add: b_def)
    then show ?thesis by blast
  qed
qed

lemma rescan_report_only:
  assumes "\<not> masks (va_policy v)"
  shows "\<exists>r v1. rescan_privacy_in env t clk v vid nid = (Inr r, v1)"
proof -
  have "\<exists>n v'. write_note_judged env clk v fm body nid reuse = (Inr n, v')" for fm body reuse
  proof -
    have "\<not> refused env v fm body reuse" using assms by (simp add: refused_def)
    from write_accepted [OF this, of clk nid] show ?thesis by metis
  qed
  then have "\<exists>r v1. (case write_note_judged env clk v fm body nid reuse of (Inl e, v') \<Rightarrow> (Inl e, v')
      | (Inr _, v') \<Rightarrow> (Inr Rewritten, v')) = (Inr r, v1)" for fm body reuse
    by (metis (no_types, lifting) case_prod_conv sum.case(2))
  then show ?thesis by (auto simp: rescan_privacy_in_def Let_def split: option.split)
qed

theorem second_rescan_changes_nothing_witness:
  "\<exists>r v1 r'. rescan_privacy_in sample_write_env (secs 4) (secs 5, secs 5, secs 5) (sample_vault policy_default) ''main'' 1 = (Inr r, v1)
     \<and> rescan_privacy_in sample_write_env (secs 8) (secs 9, secs 9, secs 9) v1 ''main'' 1 = (Inr r', v1) \<and> r' \<noteq> Rewritten"
proof -
  let ?v = "sample_vault policy_default"
  have m: "\<not> masks (va_policy ?v)" by (simp add: masks_def sample_vault_def policy_default_def)
  obtain r v1 where r: "rescan_privacy_in sample_write_env (secs 4) (secs 5, secs 5, secs 5) ?v ''main'' 1 = (Inr r, v1)"
    using rescan_report_only [OF m] by blast
  have n: "va_notes ?v ''main'' 1 = Some marked_note" "fm_vault_id (nt_frontmatter marked_note) = ''main''"
    by (simp_all add: sample_vault_def marked_note_def sample_fm_def)
  have "\<not> snd (masked_body (va_policy ?v) (nt_body marked_note)
      (run_privacy_pass (we_privacy sample_write_env) ?v ''main'' (fm_section (nt_frontmatter marked_note)) (nt_body marked_note)))"
    using m by (simp add: masked_body_def split: option.split)
  from second_rescan_changes_nothing [OF n _ r this] r show ?thesis by blast
qed

subsection \<open>The optimistic lock\<close>



end
