(* ===== verification/Sha256.thy ===== *)
theory Sha256
  imports Utf8
begin

text \<open>
  The streaming SHA-256 of the detection sidecar (\<open>tools/privacy-sidecar/src/sha256.cpp\<close>) against FIPS 180-4.

  The object is a record with the fields of the class; \<open>update\<close> and \<open>finish\<close> return the changed object. The
  pointer and the remaining length that \<open>update\<close> walks with are the list of the bytes not yet consumed. The
  second half of the theory states the standard on its own terms (padding, the recursive message schedule, the
  library's rotation) and shows that the object computes it however the message is cut into pieces.
\<close>

unbundle bit_operations_syntax

subsection \<open>The class\<close>

definition kK :: "32 word list" where
  "kK = concat
      [[0x428a2f98, 0x71374491, 0xb5c0fbcf, 0xe9b5dba5], [0x3956c25b, 0x59f111f1, 0x923f82a4, 0xab1c5ed5],
       [0xd807aa98, 0x12835b01, 0x243185be, 0x550c7dc3], [0x72be5d74, 0x80deb1fe, 0x9bdc06a7, 0xc19bf174],
       [0xe49b69c1, 0xefbe4786, 0x0fc19dc6, 0x240ca1cc], [0x2de92c6f, 0x4a7484aa, 0x5cb0a9dc, 0x76f988da],
       [0x983e5152, 0xa831c66d, 0xb00327c8, 0xbf597fc7], [0xc6e00bf3, 0xd5a79147, 0x06ca6351, 0x14292967],
       [0x27b70a85, 0x2e1b2138, 0x4d2c6dfc, 0x53380d13], [0x650a7354, 0x766a0abb, 0x81c2c92e, 0x92722c85],
       [0xa2bfe8a1, 0xa81a664b, 0xc24b8b70, 0xc76c51a3], [0xd192e819, 0xd6990624, 0xf40e3585, 0x106aa070],
       [0x19a4c116, 0x1e376c08, 0x2748774c, 0x34b0bcb5], [0x391c0cb3, 0x4ed8aa4a, 0x5b9cca4f, 0x682e6ff3],
       [0x748f82ee, 0x78a5636f, 0x84c87814, 0x8cc70208], [0x90befffa, 0xa4506ceb, 0xbef9a3f7, 0xc67178f2]]"

definition rotr :: "32 word \<Rightarrow> nat \<Rightarrow> 32 word" where
  "rotr x n = drop_bit n x OR push_bit (32 - n) x"

record sha256 =
  sh_state :: "32 word list"
  sh_total_len :: "64 word"
  sh_buffer :: bytes
  sh_buffered :: nat

definition sha256_new :: sha256 where
  "sha256_new = \<lparr>
     sh_state = [0x6a09e667, 0xbb67ae85, 0x3c6ef372, 0xa54ff53a] @ [0x510e527f, 0x9b05688c, 0x1f83d9ab, 0x5be0cd19],
     sh_total_len = 0, sh_buffer = replicate 64 0, sh_buffered = 0\<rparr>"

text \<open>The sixteen words of a block, then one word per turn of the second loop.\<close>

definition block_word :: "bytes \<Rightarrow> nat \<Rightarrow> 32 word" where
  "block_word blk i =
     push_bit 24 (ucast (blk ! (i * 4))) OR push_bit 16 (ucast (blk ! (i * 4 + 1)))
     OR push_bit 8 (ucast (blk ! (i * 4 + 2))) OR ucast (blk ! (i * 4 + 3))"

definition schedule_word :: "32 word list \<Rightarrow> nat \<Rightarrow> 32 word" where
  "schedule_word w i =
     (let s0 = rotr (w ! (i - 15)) 7 XOR rotr (w ! (i - 15)) 18 XOR drop_bit 3 (w ! (i - 15));
          s1 = rotr (w ! (i - 2)) 17 XOR rotr (w ! (i - 2)) 19 XOR drop_bit 10 (w ! (i - 2)) in
      w ! (i - 16) + s0 + w ! (i - 7) + s1)"

definition message_schedule :: "bytes \<Rightarrow> 32 word list" where
  "message_schedule blk = fold (\<lambda>i w. w @ [schedule_word w i]) [16..<64] (map (block_word blk) [0..<16])"

type_synonym regs = "32 word \<times> 32 word \<times> 32 word \<times> 32 word \<times> 32 word \<times> 32 word \<times> 32 word \<times> 32 word"

definition sha_round :: "32 word \<Rightarrow> 32 word \<Rightarrow> regs \<Rightarrow> regs" where
  "sha_round k w = (\<lambda>(a, b, c, d, e, f, g, h).
     let s1 = rotr e 6 XOR rotr e 11 XOR rotr e 25;
         ch = (e AND f) XOR (NOT e AND g);
         t1 = h + s1 + ch + k + w;
         s0 = rotr a 2 XOR rotr a 13 XOR rotr a 22;
         maj = (a AND b) XOR (a AND c) XOR (b AND c);
         t2 = s0 + maj in
     (t1 + t2, a, b, c, d + t1, e, f, g))"

definition sha_rounds :: "32 word list \<Rightarrow> regs \<Rightarrow> regs" where
  "sha_rounds w = fold (\<lambda>i. sha_round (kK ! i) (w ! i)) [0..<64]"

definition compress :: "bytes \<Rightarrow> 32 word list \<Rightarrow> 32 word list" where
  "compress blk st =
     (let w = message_schedule blk;
          (a, b, c, d, e, f, g, h) =
            sha_rounds w (st ! 0, st ! 1, st ! 2, st ! 3, st ! 4, st ! 5, st ! 6, st ! 7) in
      [st ! 0 + a, st ! 1 + b, st ! 2 + c, st ! 3 + d, st ! 4 + e, st ! 5 + f, st ! 6 + g, st ! 7 + h])"

text \<open>The loop of \<open>update\<close> over whole blocks: the new state and the bytes left.\<close>

function compress_blocks :: "32 word list \<Rightarrow> bytes \<Rightarrow> 32 word list \<times> bytes" where
  "compress_blocks st p =
     (if 64 \<le> length p then compress_blocks (compress (take 64 p) st) (drop 64 p) else (st, p))"
  by pat_completeness auto
termination by (relation "measure (\<lambda>(st, p). length p)") auto

declare compress_blocks.simps [simp del]

text \<open>\<open>memcpy(buffer + at, p, length p)\<close>.\<close>

definition memcpy_at :: "bytes \<Rightarrow> nat \<Rightarrow> bytes \<Rightarrow> bytes" where
  "memcpy_at buf at p = take at buf @ p @ drop (at + length p) buf"

text \<open>The part of \<open>update\<close> that completes a block begun by an earlier call.\<close>

definition fill_buffer :: "sha256 \<Rightarrow> bytes \<Rightarrow> sha256 \<times> bytes" where
  "fill_buffer h p =
     (if 0 < sh_buffered h then
        let want = 64 - sh_buffered h;
            n = (if length p < want then length p else want);
            buf = memcpy_at (sh_buffer h) (sh_buffered h) (take n p);
            buffered = sh_buffered h + n in
        (if buffered = 64
         then h\<lparr>sh_state := compress buf (sh_state h), sh_buffer := buf, sh_buffered := 0\<rparr>
         else h\<lparr>sh_buffer := buf, sh_buffered := buffered\<rparr>,
         drop n p)
      else (h, p))"

definition update :: "sha256 \<Rightarrow> bytes \<Rightarrow> sha256" where
  "update h data =
     (let (h1, p) = fill_buffer (h\<lparr>sh_total_len := sh_total_len h + word_of_nat (length data)\<rparr>) data;
          (st, rest) = compress_blocks (sh_state h1) p;
          h2 = h1\<lparr>sh_state := st\<rparr> in
      if 0 < length rest
      then h2\<lparr>sh_buffer := memcpy_at (sh_buffer h2) 0 rest, sh_buffered := length rest\<rparr>
      else h2)"

text \<open>\<open>while (buffered < limit) buffer[buffered++] = 0\<close>.\<close>

function zero_fill :: "bytes \<Rightarrow> nat \<Rightarrow> nat \<Rightarrow> bytes" where
  "zero_fill buf buffered limit =
     (if buffered < limit then zero_fill (buf[buffered := 0]) (buffered + 1) limit else buf)"
  by pat_completeness auto
termination by (relation "measure (\<lambda>(buf, buffered, limit). limit - buffered)") auto

declare zero_fill.simps [simp del]

definition length_byte :: "64 word \<Rightarrow> nat \<Rightarrow> 8 word" where
  "length_byte bit_len i = ucast (drop_bit (56 - 8 * i) bit_len AND 0xff)"

definition store_length :: "64 word \<Rightarrow> bytes \<Rightarrow> bytes" where
  "store_length bit_len buf = fold (\<lambda>i b. b[56 + i := length_byte bit_len i]) [0..<8] buf"

definition word_bytes :: "32 word \<Rightarrow> bytes" where
  "word_bytes x = [ucast (drop_bit 24 x AND 0xff), ucast (drop_bit 16 x AND 0xff),
     ucast (drop_bit 8 x AND 0xff), ucast (x AND 0xff)]"

definition finish :: "sha256 \<Rightarrow> bytes \<times> sha256" where
  "finish h =
     (let bit_len = sh_total_len h * 8;
          buf = (sh_buffer h)[sh_buffered h := 0x80];
          buffered = sh_buffered h + 1;
          (st, buf', buffered') =
            (if 56 < buffered
             then let full = zero_fill buf buffered 64 in (compress full (sh_state h), full, 0)
             else (sh_state h, buf, buffered));
          st' = compress (store_length bit_len (zero_fill buf' buffered' 56)) st in
      (concat (map word_bytes (take 8 st')), sha256_new))"

definition hex_digit :: "nat \<Rightarrow> char" where
  "hex_digit n = ''0123456789abcdef'' ! n"

definition hex :: "bytes \<Rightarrow> string" where
  "hex digest = concat (map (\<lambda>b. [hex_digit (unat (drop_bit 4 b)), hex_digit (unat (b AND 0x0f))]) (take 32 digest))"

definition of_buffer :: "bytes \<Rightarrow> string" where
  "of_buffer data = hex (fst (finish (update sha256_new data)))"

text \<open>\<open>of_path\<close>. The file is what the C library delivers of it: \<open>None\<close> when it cannot be opened, otherwise the
  pieces that the successive reads return and whether the stream is in error when they end.\<close>

datatype of_path_error = CannotOpen string | ReadError string

definition of_path :: "string \<Rightarrow> (bytes list \<times> bool) option \<Rightarrow> of_path_error + string" where
  "of_path path file =
     (case file of
        None \<Rightarrow> Inl (CannotOpen path)
      | Some (pieces, failed) \<Rightarrow>
          let h = fold (\<lambda>buf h. update h buf) pieces sha256_new in
          if failed then Inl (ReadError path) else Inr (hex (fst (finish h))))"

subsection \<open>The standard\<close>

text \<open>FIPS 180-4 in its own terms. Rotation is that of the word library.\<close>

definition Ch :: "32 word \<Rightarrow> 32 word \<Rightarrow> 32 word \<Rightarrow> 32 word" where
  "Ch x y z = (x AND y) XOR (NOT x AND z)"

definition Maj :: "32 word \<Rightarrow> 32 word \<Rightarrow> 32 word \<Rightarrow> 32 word" where
  "Maj a b c = (a AND b) XOR (a AND c) XOR (b AND c)"

definition Sigma0 :: "32 word \<Rightarrow> 32 word" where
  "Sigma0 x = word_rotr 2 x XOR word_rotr 13 x XOR word_rotr 22 x"

definition Sigma1 :: "32 word \<Rightarrow> 32 word" where
  "Sigma1 x = word_rotr 6 x XOR word_rotr 11 x XOR word_rotr 25 x"

definition sigma0 :: "32 word \<Rightarrow> 32 word" where
  "sigma0 x = word_rotr 7 x XOR word_rotr 18 x XOR drop_bit 3 x"

definition sigma1 :: "32 word \<Rightarrow> 32 word" where
  "sigma1 x = word_rotr 17 x XOR word_rotr 19 x XOR drop_bit 10 x"

definition be32 :: "bytes \<Rightarrow> 32 word" where
  "be32 bs = word_of_nat (fold (\<lambda>b n. 256 * n + unat b) bs 0)"

fun sha_W :: "bytes \<Rightarrow> nat \<Rightarrow> 32 word" where
  "sha_W M t =
     (if t < 16 then be32 (take 4 (drop (4 * t) M))
      else sigma1 (sha_W M (t - 2)) + sha_W M (t - 7) + sigma0 (sha_W M (t - 15)) + sha_W M (t - 16))"

declare sha_W.simps [simp del]

primrec sha_regs :: "bytes \<Rightarrow> nat \<Rightarrow> regs \<Rightarrow> regs" where
  "sha_regs M 0 r = r"
| "sha_regs M (Suc t) r =
     (let (a, b, c, d, e, f, g, h) = sha_regs M t r;
          T1 = h + Sigma1 e + Ch e f g + kK ! t + sha_W M t;
          T2 = Sigma0 a + Maj a b c in
      (T1 + T2, a, b, c, d + T1, e, f, g))"

definition regs_list :: "regs \<Rightarrow> 32 word list" where
  "regs_list = (\<lambda>(a, b, c, d, e, f, g, h). [a, b, c, d, e, f, g, h])"

definition list_regs :: "32 word list \<Rightarrow> regs" where
  "list_regs H = (H ! 0, H ! 1, H ! 2, H ! 3, H ! 4, H ! 5, H ! 6, H ! 7)"

definition sha_block :: "bytes \<Rightarrow> 32 word list \<Rightarrow> 32 word list" where
  "sha_block M H = map2 (+) H (regs_list (sha_regs M 64 (list_regs H)))"

text \<open>Padding: a one bit, zeros up to 448 modulo 512 bits, and the length of the message in bits as 64 of them.\<close>

definition be64 :: "nat \<Rightarrow> bytes" where
  "be64 n = map (\<lambda>i. word_of_nat (n div 256 ^ (7 - i))) [0..<8]"

definition sha_pad :: "bytes \<Rightarrow> bytes" where
  "sha_pad m = m @ [0x80] @ replicate ((119 - length m mod 64) mod 64) 0 @ be64 (8 * length m)"

fun blocks :: "bytes \<Rightarrow> bytes list" where
  "blocks m = (if length m < 64 then [] else take 64 m # blocks (drop 64 m))"

declare blocks.simps [simp del]

definition sha256_ref :: "bytes \<Rightarrow> bytes" where
  "sha256_ref m = concat (map word_bytes (fold sha_block (blocks (sha_pad m)) (sh_state sha256_new)))"

subsection \<open>Words and blocks\<close>

lemma rotr_word_rotr:
  assumes "0 < n" "n < 32"
  shows "rotr x n = word_rotr n x"
proof (rule bit_word_eqI)
  fix m assume "m < LENGTH(32)"
  then have m: "m < 32" by simp
  have "(m + n) mod 32 = (if m + n < 32 then m + n else m + n - 32)"
    using m assms by (simp add: mod_if)
  then show "bit (rotr x n) m = bit (word_rotr n x) m"
    using m assms
    by (auto simp: rotr_def bit_or_iff bit_drop_bit_eq bit_push_bit_iff bit_word_rotr_iff add.commute
        dest: bit_imp_le_length)
qed

lemma byte_high_bits: "8 \<le> n \<Longrightarrow> \<not> bit (ucast (b :: 8 word) :: 32 word) n"
  by (auto simp: bit_ucast_iff dest: bit_imp_le_length)

lemma be32_four:
  "be32 [a, b, c, d] = push_bit 24 (ucast a) OR push_bit 16 (ucast b) OR push_bit 8 (ucast c) OR ucast d"
proof -
  let ?u = "\<lambda>x :: 8 word. ucast x :: 32 word"
  have "be32 [a, b, c, d] = push_bit 24 (?u a) + (push_bit 16 (?u b) + (push_bit 8 (?u c) + ?u d))"
    by (simp add: be32_def push_bit_eq_mult algebra_simps)
  also have "push_bit 8 (?u c) + ?u d = push_bit 8 (?u c) OR ?u d"
    by (rule disjunctive_add) (use byte_high_bits [of _ d] in \<open>auto simp: bit_push_bit_iff\<close>)
  also have "push_bit 16 (?u b) + (push_bit 8 (?u c) OR ?u d) = push_bit 16 (?u b) OR (push_bit 8 (?u c) OR ?u d)"
    by (rule disjunctive_add)
      (use byte_high_bits [of _ d] byte_high_bits [of _ c] in \<open>auto simp: bit_push_bit_iff bit_or_iff\<close>)
  also have "push_bit 24 (?u a) + (push_bit 16 (?u b) OR (push_bit 8 (?u c) OR ?u d))
      = push_bit 24 (?u a) OR (push_bit 16 (?u b) OR (push_bit 8 (?u c) OR ?u d))"
    by (rule disjunctive_add)
      (use byte_high_bits [of _ d] byte_high_bits [of _ c] byte_high_bits [of _ b]
        in \<open>auto simp: bit_push_bit_iff bit_or_iff\<close>)
  finally show ?thesis by (simp add: or.assoc)
qed

lemma take_4_drop: "k + 3 < length xs \<Longrightarrow> take 4 (drop k xs) = [xs ! k, xs ! (k + 1), xs ! (k + 2), xs ! (k + 3)]"
  by (rule nth_equalityI) (auto simp: less_Suc_eq numeral_eq_Suc)

lemma block_word_be32: "4 * i + 3 < length blk \<Longrightarrow> block_word blk i = be32 (take 4 (drop (4 * i) blk))"
  by (simp add: take_4_drop be32_four block_word_def mult.commute)

lemma schedule_sha_W:
  assumes "length blk = 64" "16 \<le> n"
  shows "fold (\<lambda>i w. w @ [schedule_word w i]) [16..<n] (map (block_word blk) [0..<16]) = map (sha_W blk) [0..<n]"
  using assms(2)
proof (induction n rule: dec_induct)
  case base
  then show ?case
    by (auto simp: assms block_word_be32 sha_W.simps)
next
  case (step n)
  have "schedule_word (map (sha_W blk) [0..<n]) n = sha_W blk n"
    using step(1) by (simp add: schedule_word_def Let_def sha_W.simps [of blk n] rotr_word_rotr sigma0_def sigma1_def)
  with step show ?case by simp
qed

lemma sha_round_regs:
  "fold (\<lambda>i. sha_round (kK ! i) (sha_W blk i)) [0..<n] r = sha_regs blk n r"
  by (induction n) (auto simp: sha_round_def Let_def rotr_word_rotr Sigma0_def Sigma1_def Ch_def Maj_def
      split: prod.splits)

lemma list_8: "length H = 8 \<Longrightarrow> H = [H ! 0, H ! 1, H ! 2, H ! 3, H ! 4, H ! 5, H ! 6, H ! 7]"
  by (auto simp: length_Suc_conv numeral_eq_Suc)

lemma schedule_nth:
  assumes "length blk = 64" "i < 64"
  shows "message_schedule blk ! i = sha_W blk i"
proof -
  obtain n :: nat where n: "n = 64" by blast
  have "message_schedule blk = map (sha_W blk) [0..<n]"
    unfolding message_schedule_def n by (rule schedule_sha_W [OF assms(1)]) simp
  with assms(2) n show ?thesis by simp
qed

lemma compress_sha_block:
  assumes "length blk = 64" "length H = 8"
  shows "compress blk H = sha_block blk H"
proof -
  have "sha_rounds (message_schedule blk) r = sha_regs blk 64 r" for r
    unfolding sha_rounds_def sha_round_regs [symmetric]
    by (rule fold_cong [OF refl refl]) (simp only: set_upt atLeastLessThan_iff schedule_nth [OF assms(1)])
  moreover obtain a b c d e f g h where "H = [a, b, c, d, e, f, g, h]"
    using list_8 [OF assms(2)] by blast
  ultimately show ?thesis
    by (auto simp: compress_def sha_block_def list_regs_def regs_list_def split: prod.splits)
qed

lemma length_compress [simp]: "length (compress blk H) = 8"
  by (simp add: compress_def Let_def split: prod.splits)

lemma length_fold_compress: "length H = 8 \<Longrightarrow> length (fold compress bs H) = 8"
  by (induction bs arbitrary: H) auto

lemma blocks_length: "b \<in> set (blocks m) \<Longrightarrow> length b = 64"
  by (induction m rule: blocks.induct) (subst (asm) (2) blocks.simps, auto split: if_splits)

lemma fold_compress_sha_block:
  assumes "\<And>b. b \<in> set bs \<Longrightarrow> length b = 64" "length H = 8"
  shows "fold compress bs H = fold sha_block bs H"
  using assms by (induction bs arbitrary: H) (auto simp: compress_sha_block [symmetric])

text \<open>The bytes of a message after its last whole block.\<close>

definition tail64 :: "bytes \<Rightarrow> bytes" where
  "tail64 m = drop (64 * (length m div 64)) m"

lemma length_tail64 [simp]: "length (tail64 m) = length m mod 64"
  by (simp add: tail64_def minus_mult_div_eq_mod)

lemma blocks_short [simp]: "length m < 64 \<Longrightarrow> blocks m = []"
  by (simp add: blocks.simps)

lemma tail64_short [simp]: "length m < 64 \<Longrightarrow> tail64 m = m"
  by (simp add: tail64_def)

lemma blocks_step: "length b = 64 \<Longrightarrow> blocks (b @ m) = b # blocks m"
  by (simp add: blocks.simps)

lemma tail64_step: "length b = 64 \<Longrightarrow> tail64 (b @ m) = tail64 m"
  by (simp add: tail64_def div_add_self1)

lemma blocks_append: "blocks (m @ d) = blocks m @ blocks (tail64 m @ d)"
  and tail64_append: "tail64 (m @ d) = tail64 (tail64 m @ d)"
proof (induction m rule: blocks.induct)
  case (1 m)
  { case 1
    show ?case
    proof (cases "length m < 64")
      case False
      then obtain b r where m: "m = b @ r" "length b = 64"
        by (metis append_take_drop_id length_take min.absorb2 not_less)
      with False "1.IH"(1) show ?thesis by (simp add: blocks_step tail64_step)
    qed simp
  next
    case 2
    show ?case
    proof (cases "length m < 64")
      case False
      then obtain b r where m: "m = b @ r" "length b = 64"
        by (metis append_take_drop_id length_take min.absorb2 not_less)
      with False "1.IH"(2) show ?thesis by (simp add: tail64_step)
    qed simp
  }
qed

lemma compress_blocks_fold: "compress_blocks st p = (fold compress (blocks p) st, tail64 p)"
proof (induction st p rule: compress_blocks.induct)
  case (1 st p)
  show ?case
  proof (cases "64 \<le> length p")
    case True
    with 1 blocks_step [of "take 64 p" "drop 64 p"] tail64_step [of "take 64 p" "drop 64 p"] show ?thesis
      by (simp add: compress_blocks.simps [of st p])
  qed (simp add: compress_blocks.simps [of st p])
qed

subsection \<open>Absorbing a message\<close>

text \<open>The object has taken in the message \<open>m\<close>: whole blocks are in the state, the rest is in the buffer.\<close>

definition has_absorbed :: "sha256 \<Rightarrow> bytes \<Rightarrow> bool" where
  "has_absorbed h m \<longleftrightarrow>
     sh_state h = fold compress (blocks m) (sh_state sha256_new) \<and> length (sh_buffer h) = 64
     \<and> sh_buffered h = length m mod 64 \<and> take (sh_buffered h) (sh_buffer h) = tail64 m
     \<and> sh_total_len h = word_of_nat (length m)"

lemma absorbed_new: "has_absorbed sha256_new []"
  by (simp add: has_absorbed_def sha256_new_def)

lemma length_memcpy_at: "at + length p \<le> length buf \<Longrightarrow> length (memcpy_at buf at p) = length buf"
  by (simp add: memcpy_at_def)

lemma take_memcpy_at: "at \<le> length buf \<Longrightarrow> take (at + length p) (memcpy_at buf at p) = take at buf @ p"
  by (simp add: memcpy_at_def)

lemma take_memcpy_tail64: "take (length d mod 64) (memcpy_at buf 0 (tail64 d)) = tail64 d"
  by (simp add: memcpy_at_def)

lemma tail64_Nil: "tail64 d = [] \<longleftrightarrow> length d mod 64 = 0"
  using length_tail64 [of d] by (metis length_0_conv)

lemma absorbed_update:
  assumes "has_absorbed h m"
  shows "has_absorbed (update h d) (m @ d)"
proof -
  define b where "b = length m mod 64"
  have b: "b < 64" by (simp add: b_def)
  have h: "sh_state h = fold compress (blocks m) (sh_state sha256_new)" "length (sh_buffer h) = 64"
    "sh_buffered h = b" "take b (sh_buffer h) = tail64 m" "sh_total_len h = word_of_nat (length m)"
    using assms by (auto simp: has_absorbed_def b_def)
  note app = blocks_append [of m d] tail64_append [of m d]
  have len: "length (m @ d) mod 64 = length (tail64 (tail64 m @ d))"
    by (simp add: mod_simps)
  have tl: "length (tail64 m) = b" by (simp add: b_def)
  consider (empty) "b = 0" | (part) "0 < b" "b + length d < 64" | (full) "0 < b" "64 \<le> b + length d"
    by linarith
  then show ?thesis
  proof cases
    case empty
    then have "tail64 m = []" using tl length_0_conv by blast
    then show ?thesis
      using empty h app len
      by (auto simp: has_absorbed_def update_def fill_buffer_def compress_blocks_fold length_memcpy_at Let_def
          take_memcpy_tail64 tail64_Nil eq_commute [of "[]" "tail64 d"])
  next
    case part
    then have "tail64 (tail64 m @ d) = tail64 m @ d" "blocks (tail64 m @ d) = []"
      using tl by (simp_all)
    moreover have "fill_buffer (h\<lparr>sh_total_len := t\<rparr>) d
        = (h\<lparr>sh_total_len := t, sh_buffer := memcpy_at (sh_buffer h) b d, sh_buffered := b + length d\<rparr>, [])" for t
      using part h by (auto simp: fill_buffer_def Let_def)
    ultimately show ?thesis
      using part h app len tl b
      by (simp add: has_absorbed_def update_def compress_blocks_fold length_memcpy_at take_memcpy_at)
  next
    case full
    define n where "n = 64 - b"
    define buf where "buf = memcpy_at (sh_buffer h) b (take n d)"
    have n: "n \<le> length d" "b + n = 64" using full b by (simp_all add: n_def)
    have buf: "buf = tail64 m @ take n d"
      using n h b by (simp add: buf_def memcpy_at_def)
    have "tail64 m @ d = buf @ drop n d" by (simp add: buf)
    moreover have "length buf = 64" using n tl by (simp add: buf)
    ultimately have bl: "blocks (tail64 m @ d) = buf # blocks (drop n d)" "tail64 (tail64 m @ d) = tail64 (drop n d)"
      by (simp_all add: blocks_step tail64_step)
    have "fill_buffer (h\<lparr>sh_total_len := t\<rparr>) d
        = (h\<lparr>sh_total_len := t, sh_state := compress buf (sh_state h), sh_buffer := buf, sh_buffered := 0\<rparr>, drop n d)" for t
      using full h n by (auto simp: fill_buffer_def buf_def Let_def n_def)
    then show ?thesis
      using h app len bl \<open>length buf = 64\<close>
      by (auto simp: has_absorbed_def update_def compress_blocks_fold length_memcpy_at Let_def
          take_memcpy_tail64 [of "drop n d", simplified] tail64_Nil eq_commute [of "[]" "tail64 (drop n d)"])
  qed
qed

lemma absorbed_fold: "has_absorbed h m \<Longrightarrow> has_absorbed (fold (\<lambda>buf h. update h buf) pieces h) (m @ concat pieces)"
proof (induction pieces arbitrary: h m)
  case (Cons d pieces)
  then show ?case using absorbed_update [OF Cons.prems, of d] by fastforce
qed simp

subsection \<open>Padding\<close>

lemma zero_fill_eq:
  "\<lbrakk>i \<le> limit; limit \<le> length buf\<rbrakk> \<Longrightarrow> zero_fill buf i limit = take i buf @ replicate (limit - i) 0 @ drop limit buf"
proof (induction buf i limit rule: zero_fill.induct)
  case (1 buf i limit)
  show ?case
  proof (cases "i < limit")
    case True
    then have "zero_fill buf i limit = take (i + 1) (buf[i := 0]) @ replicate (limit - (i + 1)) 0 @ drop limit buf"
      using 1 by (simp add: zero_fill.simps [of buf i])
    also have "take (i + 1) (buf[i := 0]) = take i buf @ [0]"
      using True 1 by (simp add: take_Suc_conv_app_nth)
    also have "(take i buf @ [0]) @ replicate (limit - (i + 1)) 0 @ drop limit buf
        = take i buf @ replicate (limit - i) 0 @ drop limit buf"
      using True by (cases "limit - i") (auto simp: Suc_diff_le)
    finally show ?thesis .
  qed (use 1 in \<open>subst zero_fill.simps, simp\<close>)
qed

lemma store_length_eq:
  assumes "length buf = 64"
  shows "store_length bit_len buf = take 56 buf @ map (length_byte bit_len) [0..<8]"
proof -
  have "fold (\<lambda>i b. b[56 + i := length_byte bit_len i]) [0..<n] buf
      = take 56 buf @ map (length_byte bit_len) [0..<n] @ drop (56 + n) buf" if "n \<le> 8" for n
    using that
  proof (induction n)
    case (Suc n)
    have "drop (56 + n) buf = buf ! (56 + n) # drop (56 + Suc n) buf"
      using Suc.prems assms Cons_nth_drop_Suc [of "56 + n" buf] by simp
    then show ?case using Suc assms by (simp add: list_update_append)
  qed simp
  from this [of 8] assms show ?thesis by (simp add: store_length_def)
qed

lemma length_byte_be64:
  assumes "i < 8"
  shows "length_byte (word_of_nat n) i = word_of_nat (n div 256 ^ (7 - i))"
proof (rule bit_word_eqI)
  fix k assume "k < LENGTH(8)"
  then have k: "k < 8" by simp
  have e: "(256 :: nat) ^ (7 - i) = 2 ^ (56 - 8 * i)"
    using power_mult [of "2 :: nat" 8 "7 - i"] by (simp add: right_diff_distrib')
  have "(0xff :: 64 word) = mask 8" by (simp add: mask_eq_exp_minus_1)
  have in_range: "56 + k - 8 * i < 64" using k by linarith
  from \<open>0xff = mask 8\<close> have "bit (0xff :: 64 word) k" using k by (simp only: bit_mask_iff) simp
  then show "bit (length_byte (word_of_nat n) i) k = bit (word_of_nat (n div 256 ^ (7 - i)) :: 8 word) k"
    using k assms in_range
    by (simp add: length_byte_def bit_ucast_iff bit_and_iff bit_drop_bit_eq bit_of_nat_iff possible_bit_word e
        flip: drop_bit_eq_div)
qed

lemma length_bytes_be64: "map (length_byte (word_of_nat n * 8)) [0..<8] = be64 (8 * n)"
proof -
  have "word_of_nat n * 8 = (word_of_nat (8 * n) :: 64 word)" by simp
  then show ?thesis
    unfolding be64_def by (intro map_cong refl) (simp add: length_byte_be64 del: of_nat_mult)
qed


lemma finish_ref:
  assumes "has_absorbed h m"
  shows "fst (finish h) = sha256_ref m"
proof -
  define b where "b = length m mod 64"
  have b: "b < 64" by (simp add: b_def)
  have tl: "length (tail64 m) = b" by (simp add: b_def)
  have h: "sh_state h = fold compress (blocks m) (sh_state sha256_new)" "length (sh_buffer h) = 64"
    "sh_buffered h = b" "take b (sh_buffer h) = tail64 m" "sh_total_len h = word_of_nat (length m)"
    using assms by (auto simp: has_absorbed_def b_def)
  define z where "z = 0x80 # replicate ((119 - b) mod 64) 0 @ be64 (8 * length m)"
  have pad: "sha_pad m = m @ z" by (simp add: sha_pad_def z_def b_def)
  have l64: "length (be64 n) = 8" for n by (simp add: be64_def)
  have mark: "take (b + 1) ((sh_buffer h)[b := 0x80]) = tail64 m @ [0x80]"
    using b h by (simp add: take_Suc_conv_app_nth)
  define H where "H = sh_state sha256_new"
  have H: "length H = 8" by (simp add: H_def sha256_new_def)
  have st8: "length (fold compress bs H) = 8" for bs by (simp add: length_fold_compress H)
  have "fst (finish h) = concat (map word_bytes (fold compress (blocks m @ blocks (tail64 m @ z)) H))"
  proof (cases "56 < b + 1")
    case False
    define blk where "blk = tail64 m @ 0x80 # replicate (55 - b) 0 @ be64 (8 * length m)"
    have zb: "tail64 m @ z = blk"
      using False mod_less [of "55 - b" 64] by (simp add: z_def blk_def mod_if)
    have lb: "length blk = 64" using False tl by (simp add: blk_def l64)
    have "store_length (word_of_nat (length m) * 8) (zero_fill ((sh_buffer h)[b := 0x80]) (b + 1) 56) = blk"
      using False h mark tl b Suc_diff_le [of b 55] by (simp add: zero_fill_eq store_length_eq length_bytes_be64 blk_def)
    then show ?thesis
      using False h lb zb blocks_step [of blk "[]"] st8
      by (simp add: finish_def Let_def H_def [symmetric])
  next
    case True
    define b1 where "b1 = tail64 m @ 0x80 # replicate (63 - b) 0"
    define b2 where "b2 = replicate 56 0 @ be64 (8 * length m)"
    have zb: "tail64 m @ z = b1 @ b2"
      using True b by (simp add: z_def b1_def b2_def mod_if replicate_add [symmetric])
    have lb: "length b1 = 64" "length b2 = 64" using True b tl by (simp_all add: b1_def b2_def l64)
    have f: "zero_fill ((sh_buffer h)[b := 0x80]) (b + 1) 64 = b1"
      using True h mark b by (simp add: zero_fill_eq b1_def)
    have "store_length (word_of_nat (length m) * 8) (zero_fill b1 0 56) = b2"
      using lb by (simp add: zero_fill_eq store_length_eq length_bytes_be64 b2_def)
    then show ?thesis
      using True h lb zb blocks_step [of b1 b2] blocks_step [of b2 "[]"] f
      by (simp add: finish_def Let_def H_def [symmetric])
  qed
  also have "fold compress (blocks m @ blocks (tail64 m @ z)) H = fold sha_block (blocks (sha_pad m)) H"
    unfolding pad blocks_append [of m z]
    by (rule fold_compress_sha_block [OF _ H]) (auto dest: blocks_length)
  finally show ?thesis by (simp add: sha256_ref_def H_def)
qed

lemma length_sha_block: "length H = 8 \<Longrightarrow> length (sha_block M H) = 8"
  by (simp add: sha_block_def regs_list_def split: prod.splits)

lemma length_sha256_ref: "length (sha256_ref m) = 32"
proof -
  have "length (fold sha_block bs H) = 8" if "length H = 8" for bs H
    using that by (induction bs arbitrary: H) (auto simp: length_sha_block)
  from this [of "sh_state sha256_new" "blocks (sha_pad m)"] show ?thesis
    by (simp add: sha256_ref_def length_concat word_bytes_def comp_def sum_list_triv sha256_new_def)
qed

lemma snd_finish: "snd (finish h) = sha256_new"
  by (simp add: finish_def Let_def split: prod.splits)

lemmas streamed = finish_ref [OF absorbed_fold [OF absorbed_new], simplified]

text \<open>C11: The streaming object computes SHA-256 as FIPS 180-4 states it, however the message is cut into pieces, and
  is a fresh object afterwards. The two static functions give the hexadecimal form of that digest for a buffer
  and for a file whatever the sizes of the reads; a file that cannot be opened or whose stream fails is an error
  and yields no digest.\<close>

theorem sha256_streaming_equals_standard:
  "finish (fold (\<lambda>buf h. update h buf) pieces sha256_new) = (sha256_ref (concat pieces), sha256_new)
   \<and> of_buffer m = hex (sha256_ref m)
   \<and> of_path path (Some (pieces, False)) = Inr (hex (sha256_ref (concat pieces)))
   \<and> of_path path (Some (pieces, True)) = Inl (ReadError path) \<and> of_path path None = Inl (CannotOpen path)"
proof (intro conjI)
  show "finish (fold (\<lambda>buf h. update h buf) pieces sha256_new) = (sha256_ref (concat pieces), sha256_new)"
    by (rule prod_eqI) (simp_all add: streamed snd_finish)
  show "of_buffer m = hex (sha256_ref m)"
    using streamed [of "[m]"] by (simp add: of_buffer_def)
  show "of_path path (Some (pieces, False)) = Inr (hex (sha256_ref (concat pieces)))"
    using streamed [of pieces] by (simp add: of_path_def)
qed (simp_all add: of_path_def)

end
