(* ===== verification/Sidecar_Start.thy ===== *)
theory Sidecar_Start
  imports Sha256 "HOL-Library.Char_ord"
begin

text \<open>
  Start-up of the detection sidecar (\<open>tools/privacy-sidecar/src/main.cpp\<close>): the command line, the digests of the
  running image and of the weights, the pins of the operator, and what is handed to the server.

  The process environment is a record of functions: what reading a file delivers, what the model loader says, and
  whether the server loop ends cleanly. Reading the labels of a model file and loading it are the upstream engine.
  Integers of the options keep their width; \<open>threads\<close> is a C++ \<open>int\<close> filled from an unsigned 32-bit value.
\<close>

definition kDefaultMaxInputBytes :: "32 word" where
  "kDefaultMaxInputBytes = 262144"

definition kDefaultThreads :: int where
  "kDefaultThreads = 4"

definition kExitOk :: int where "kExitOk = 0"

definition kExitUsage :: int where "kExitUsage = 2"

definition kExitDigest :: int where "kExitDigest = 3"

definition kExitLoad :: int where "kExitLoad = 4"

definition kExitSocket :: int where "kExitSocket = 5"

record options =
  op_socket_path :: string
  op_model_path :: string
  op_device :: string
  op_expect_binary_sha256 :: string
  op_expect_model_sha256 :: string
  op_threads :: int
  op_max_input_bytes :: "32 word"
  op_selfcheck :: bool

definition options_default :: options where
  "options_default = \<lparr>op_socket_path = [], op_model_path = [], op_device = ''cpu'', op_expect_binary_sha256 = [],
     op_expect_model_sha256 = [], op_threads = kDefaultThreads, op_max_input_bytes = kDefaultMaxInputBytes,
     op_selfcheck = False\<rparr>"

text \<open>The loop of \<open>parse_u32\<close> with its 64-bit accumulator.\<close>

fun parse_u32_loop :: "64 word \<Rightarrow> string \<Rightarrow> 64 word option" where
  "parse_u32_loop v [] = Some v"
| "parse_u32_loop v (c # cs) =
     (if c < CHR ''0'' \<or> c > CHR ''9'' then None
      else let v' = v * 10 + word_of_nat (of_char c - of_char (CHR ''0'')) in
           if 0xffffffff < v' then None else parse_u32_loop v' cs)"

definition parse_u32 :: "string \<Rightarrow> 32 word option" where
  "parse_u32 str = (if str = [] then None else map_option ucast (parse_u32_loop 0 str))"

definition is_lower_hex_64 :: "string \<Rightarrow> bool" where
  "is_lower_hex_64 str \<longleftrightarrow>
     length str = 64 \<and> (\<forall>c\<in>set str. (CHR ''0'' \<le> c \<and> c \<le> CHR ''9'') \<or> (CHR ''a'' \<le> c \<and> c \<le> CHR ''f''))"

definition lowercase_hex :: "string \<Rightarrow> string" where
  "lowercase_hex str =
     map (\<lambda>c. if CHR ''A'' \<le> c \<and> c \<le> CHR ''F''
              then char_of (of_char c - of_char (CHR ''A'') + of_char (CHR ''a'') :: nat) else c) str"

datatype parsed_args = Parsed options | BadUsage | HelpShown

text \<open>\<open>parse_args\<close> walks the arguments; an option that takes a value consumes the next one.\<close>

fun parse_args_loop :: "string list \<Rightarrow> options \<Rightarrow> parsed_args" where
  "parse_args_loop [] opt =
     (if op_model_path opt = [] then BadUsage
      else if \<not> op_selfcheck opt \<and> op_socket_path opt = [] then BadUsage
      else Parsed opt)"
| "parse_args_loop (arg # rest) opt =
     (if arg = ''--help'' \<or> arg = ''-h'' then HelpShown
      else if arg = ''--selfcheck'' then parse_args_loop rest (opt\<lparr>op_selfcheck := True\<rparr>)
      else case rest of
        [] \<Rightarrow> BadUsage
      | v # rest' \<Rightarrow>
          if arg = ''--socket'' then parse_args_loop rest' (opt\<lparr>op_socket_path := v\<rparr>)
          else if arg = ''--model'' then parse_args_loop rest' (opt\<lparr>op_model_path := v\<rparr>)
          else if arg = ''--device'' then parse_args_loop rest' (opt\<lparr>op_device := v\<rparr>)
          else if arg = ''--expect-binary-sha256'' then parse_args_loop rest' (opt\<lparr>op_expect_binary_sha256 := v\<rparr>)
          else if arg = ''--expect-model-sha256'' then parse_args_loop rest' (opt\<lparr>op_expect_model_sha256 := v\<rparr>)
          else if arg = ''--threads'' then
            (case parse_u32 v of
               None \<Rightarrow> BadUsage
             | Some parsed \<Rightarrow>
                 if parsed = 0 then BadUsage else parse_args_loop rest' (opt\<lparr>op_threads := sint parsed\<rparr>))
          else if arg = ''--max-input-bytes'' then
            (case parse_u32 v of
               None \<Rightarrow> BadUsage | Some parsed \<Rightarrow> parse_args_loop rest' (opt\<lparr>op_max_input_bytes := parsed\<rparr>))
          else BadUsage)"

definition parse_args :: "string list \<Rightarrow> parsed_args" where
  "parse_args argv = parse_args_loop argv options_default"

record server_config =
  sv_socket_path :: string
  sv_binary_sha256 :: string
  sv_model_sha256 :: string
  sv_labels_v :: string
  sv_max_input_bytes :: "32 word"
  sv_threads :: int

record process_env =
  pe_self_exe :: "(bytes list \<times> bool) option"
  pe_file :: "string \<Rightarrow> (bytes list \<times> bool) option"
  pe_labels :: "string \<Rightarrow> string list option"
  pe_load :: "string \<Rightarrow> string \<Rightarrow> int \<Rightarrow> bool"
  pe_serve :: "server_config \<Rightarrow> bool"

definition kSelfExePath :: string where
  "kSelfExePath = ''/proc/self/exe''"

definition pin_holds :: "string \<Rightarrow> string \<Rightarrow> bool" where
  "pin_holds pin sha \<longleftrightarrow>
     pin = [] \<or> (let want = lowercase_hex pin in is_lower_hex_64 want \<and> want = sha)"

text \<open>\<open>collect_digests\<close>: \<open>None\<close> is the refusal.\<close>

definition collect_digests :: "process_env \<Rightarrow> options \<Rightarrow> (string \<times> string) option" where
  "collect_digests env opt =
     (case of_path kSelfExePath (pe_self_exe env) of
        Inl _ \<Rightarrow> None
      | Inr binary_sha \<Rightarrow>
          (case of_path (op_model_path opt) (pe_file env (op_model_path opt)) of
             Inl _ \<Rightarrow> None
           | Inr model_sha \<Rightarrow>
               if \<not> pin_holds (op_expect_binary_sha256 opt) binary_sha then None
               else if \<not> pin_holds (op_expect_model_sha256 opt) model_sha then None
               else Some (binary_sha, model_sha)))"

definition read_model_labels :: "process_env \<Rightarrow> string \<Rightarrow> string list option" where
  "read_model_labels env path =
     (case pe_labels env path of None \<Rightarrow> None | Some labels \<Rightarrow> if labels = [] then None else Some labels)"

fun join_labels :: "string list \<Rightarrow> string" where
  "join_labels [] = []"
| "join_labels [l] = l"
| "join_labels (l # ls) = l @ CHR 0x0A # join_labels ls"

definition labels_digest :: "string list \<Rightarrow> string" where
  "labels_digest labels = ''sha256:'' @ of_buffer (map of_char (join_labels labels))"

text \<open>\<open>main\<close>: the exit code, and the configuration handed to \<open>serve\<close> when it comes to that.\<close>

definition sidecar_main :: "process_env \<Rightarrow> string list \<Rightarrow> int \<times> server_config option" where
  "sidecar_main env argv =
     (case parse_args argv of
        HelpShown \<Rightarrow> (kExitOk, None)
      | BadUsage \<Rightarrow> (kExitUsage, None)
      | Parsed opt \<Rightarrow>
          (case collect_digests env opt of
             None \<Rightarrow> (kExitDigest, None)
           | Some (binary_sha, model_sha) \<Rightarrow>
               (case read_model_labels env (op_model_path opt) of
                  None \<Rightarrow> (kExitDigest, None)
                | Some labels \<Rightarrow>
                    if op_selfcheck opt then (kExitOk, None)
                    else if \<not> pe_load env (op_model_path opt) (op_device opt) (op_threads opt) then (kExitLoad, None)
                    else
                      (let cfg = \<lparr>sv_socket_path = op_socket_path opt, sv_binary_sha256 = binary_sha,
                                  sv_model_sha256 = model_sha, sv_labels_v = labels_digest labels,
                                  sv_max_input_bytes = op_max_input_bytes opt, sv_threads = op_threads opt\<rparr> in
                       (if pe_serve env cfg then kExitOk else kExitSocket, Some cfg)))))"

subsection \<open>Numbers of the command line\<close>

text \<open>The value of a decimal numeral, on the natural numbers.\<close>

definition decimal :: "string \<Rightarrow> nat" where
  "decimal str = fold (\<lambda>c n. 10 * n + (of_char c - 48)) str 0"

definition all_digits :: "string \<Rightarrow> bool" where
  "all_digits str \<longleftrightarrow> (\<forall>c\<in>set str. CHR ''0'' \<le> c \<and> c \<le> CHR ''9'')"

lemma digit_bounds: "CHR ''0'' \<le> c \<Longrightarrow> c \<le> CHR ''9'' \<Longrightarrow> of_char c - 48 < (10 :: nat)"
  by (simp add: less_eq_char_def)

lemma decimal_fold_ge: "(n :: nat) \<le> fold (\<lambda>c n. 10 * n + (of_char c - 48)) str n"
proof (induction str arbitrary: n)
  case (Cons c cs)
  have "n \<le> 10 * n + (of_char c - 48)" by simp
  also have "\<dots> \<le> fold (\<lambda>c n. 10 * n + (of_char c - 48)) cs (10 * n + (of_char c - 48))" by (rule Cons.IH)
  finally show ?case by simp
qed simp

text \<open>The accumulator cannot wrap: it is compared after every digit, and ten times a 32-bit value plus a digit
  still fits in 64 bits.\<close>

lemma parse_u32_loop_spec:
  "unat v \<le> 0xffffffff \<Longrightarrow>
   parse_u32_loop v str =
     (let n = fold (\<lambda>c n. 10 * n + (of_char c - 48)) str (unat v) in
      if all_digits str \<and> n \<le> 0xffffffff then Some (word_of_nat n) else None)"
proof (induction str arbitrary: v)
  case (Cons c cs)
  show ?case
  proof (cases "c < CHR ''0'' \<or> c > CHR ''9''")
    case True
    then show ?thesis by (auto simp: all_digits_def Let_def)
  next
    case False
    then have dig: "CHR ''0'' \<le> c" "c \<le> CHR ''9''" by auto
    define v' where "v' = v * 10 + word_of_nat (of_char c - of_char (CHR ''0''))"
    have "unat v * 10 + (of_char c - 48) < 2 ^ 64"
      using Cons.prems digit_bounds [OF dig] by simp
    then have v': "unat v' = 10 * unat v + (of_char c - 48)"
      unfolding v'_def by (simp add: unat_word_ariths unat_of_nat mult.commute)
    have step: "parse_u32_loop v (c # cs) = (if 0xffffffff < v' then None else parse_u32_loop v' cs)"
      using False by (simp add: v'_def Let_def)
    have cmp: "0xffffffff < v' \<longleftrightarrow> 0xffffffff < unat v'" by (simp add: word_less_nat_alt)
    show ?thesis
    proof (cases "0xffffffff < unat v'")
      case True
      then show ?thesis
        using step cmp v' decimal_fold_ge [of "unat v'" cs] by (auto simp: Let_def)
    next
      case False
      then show ?thesis
        using step cmp v' Cons.IH [of v'] dig by (auto simp: Let_def all_digits_def)
    qed
  qed
qed (simp add: all_digits_def)

lemma parse_u32_exact:
  "parse_u32 str = (if str \<noteq> [] \<and> all_digits str \<and> decimal str < 2 ^ 32 then Some (word_of_nat (decimal str)) else None)"
proof -
  have "(ucast (word_of_nat n :: 64 word) :: 32 word) = word_of_nat n" for n
    by (rule bit_word_eqI) (simp add: bit_ucast_iff bit_of_nat_iff possible_bit_word)
  then show ?thesis
    using parse_u32_loop_spec [of 0 str] by (auto simp: parse_u32_def decimal_def Let_def)
qed

subsection \<open>The pins\<close>

lemma collect_digests_Some:
  assumes "collect_digests env opt = Some (binary_sha, model_sha)"
  obtains exe weights where
    "pe_self_exe env = Some (exe, False)" "pe_file env (op_model_path opt) = Some (weights, False)"
    "binary_sha = hex (sha256_ref (concat exe))" "model_sha = hex (sha256_ref (concat weights))"
    "pin_holds (op_expect_binary_sha256 opt) binary_sha" "pin_holds (op_expect_model_sha256 opt) model_sha"
  using assms that
  by (auto simp: collect_digests_def of_path_def streamed split: sum.splits option.splits prod.splits if_splits)


definition sample_process :: process_env where
  "sample_process = \<lparr>pe_self_exe = Some ([], False), pe_file = (\<lambda>_. Some ([], False)), pe_labels = (\<lambda>_. Some [''EMAIL'']),
     pe_load = (\<lambda>_ _ _. True), pe_serve = (\<lambda>_. True)\<rparr>"


text \<open>A thread count above \<open>2^31\<close> passes the test for a positive number and becomes negative.\<close>

lemma thread_count_wraps:
  "parse_args [''--model'', ''m'', ''--selfcheck'', ''--threads'', ''4294967295''] =
     Parsed (options_default\<lparr>op_model_path := ''m'', op_selfcheck := True, op_threads := -1\<rparr>)"
proof -
  have "parse_u32 ''4294967295'' = Some (- 1)"
    by (simp add: parse_u32_exact all_digits_def decimal_def less_eq_char_def)
  then show ?thesis by (simp add: parse_args_def options_default_def)
qed

end
