(* ===== verification/Sidecar_Frame.thy ===== *)
theory Sidecar_Frame
  imports Utf8
begin

text \<open>
  The wire between the detector client and the sidecar: one length-prefixed message per frame, written and read by
  \<open>tools/privacy-sidecar/src/protocol.cpp\<close> on one side and by the framing functions of
  \<open>gradatum-privacy/src/sidecar.rs\<close> on the other.

  A socket is seen through the system calls on it. What \<open>read\<close> returns is a script of events: a chunk of bytes,
  of which a call takes at most what it asks for, an error, or, where the script ends or a chunk is empty, the end
  of the stream. What \<open>write\<close> accepts is a script as well; past its end every byte is accepted. The Rust side reads
  the clock before each call: \<open>os_clock n\<close> is its \<open>n\<close>-th reading and \<open>os_arm n\<close> says whether arming the socket
  timeout at that reading succeeds.
\<close>

unbundle bit_operations_syntax

datatype io_kind = WouldBlock | TimedOut | Interrupted | OtherIo

datatype read_event = Chunk bytes | ReadFailed io_kind

datatype write_event = Accept nat | WriteFailed io_kind

fun sys_read :: "nat \<Rightarrow> read_event list \<Rightarrow> (io_kind, bytes) result \<times> read_event list" where
  "sys_read n [] = (Inr [], [])"
| "sys_read n (ReadFailed k # evs) = (Inl k, evs)"
| "sys_read n (Chunk bs # evs) = (Inr (take n bs), if length bs \<le> n then evs else Chunk (drop n bs) # evs)"

fun sys_write :: "nat \<Rightarrow> write_event list \<Rightarrow> (io_kind, nat) result \<times> write_event list" where
  "sys_write n [] = (Inr n, [])"
| "sys_write n (WriteFailed k # evs) = (Inl k, evs)"
| "sys_write n (Accept m # evs) = (Inr (min n m), evs)"

text \<open>The bytes a reader can obtain from a script, in order.\<close>

fun readable :: "read_event list \<Rightarrow> bytes" where
  "readable [] = []"
| "readable (ReadFailed k # evs) = []"
| "readable (Chunk bs # evs) = (if bs = [] then [] else bs @ readable evs)"

definition to_be_bytes :: "32 word \<Rightarrow> bytes" where
  "to_be_bytes len = [ucast (drop_bit 24 len AND 0xff), ucast (drop_bit 16 len AND 0xff),
     ucast (drop_bit 8 len AND 0xff), ucast (len AND 0xff)]"

definition from_be_bytes :: "bytes \<Rightarrow> 32 word" where
  "from_be_bytes head =
     push_bit 24 (ucast (head ! 0)) OR push_bit 16 (ucast (head ! 1)) OR push_bit 8 (ucast (head ! 2))
     OR ucast (head ! 3)"

subsection \<open>The sidecar's side\<close>

definition kMaxFrameBytes :: nat where
  "kMaxFrameBytes = 16 * 1024 * 1024"

definition kMaxResponseBytes :: nat where
  "kMaxResponseBytes = 64 * 1024"

datatype full_read = FullOk bytes | FullEof | FullFailed

function read_full :: "nat \<Rightarrow> bytes \<Rightarrow> read_event list \<Rightarrow> full_read \<times> read_event list" where
  "read_full len dst evs =
     (if length dst < len then
        (case sys_read (len - length dst) evs of
           (Inl k, evs') \<Rightarrow> (FullFailed, evs')
         | (Inr got, evs') \<Rightarrow>
             if got = [] then (if dst = [] then FullEof else FullFailed, evs')
             else read_full len (dst @ got) evs')
      else (FullOk dst, evs))"
  by pat_completeness auto
termination
  by (relation "measure (\<lambda>(len, dst, evs). len - length dst)")
    (auto simp: neq_Nil_conv)

declare read_full.simps [simp del]

text \<open>\<open>write_full\<close> returns whether everything was written, and the bytes that were.\<close>

function write_full :: "bytes \<Rightarrow> bytes \<Rightarrow> write_event list \<Rightarrow> bool \<times> bytes \<times> write_event list" where
  "write_full out src evs =
     (if src \<noteq> [] then
        (case sys_write (length src) evs of
           (Inl k, evs') \<Rightarrow> if k = Interrupted then write_full out src evs' else (False, out, evs')
         | (Inr n, evs') \<Rightarrow> write_full (out @ take n src) (drop n src) evs')
      else (True, out, evs))"
  by pat_completeness auto
termination
proof (relation "measure (\<lambda>(out, src, evs). length src + length evs)", goal_cases)
  case (2 out src evs x evs' k)
  then show ?case by (cases "(length src, evs)" rule: sys_write.cases) auto
next
  case (3 out src evs x evs' n)
  then show ?case by (cases "(length src, evs)" rule: sys_write.cases) auto
qed simp

declare write_full.simps [simp del]

datatype frame_status = FrameOk bytes | FrameEof | FrameTooLarge "32 word" | FrameInvalid string

definition read_frame :: "read_event list \<Rightarrow> frame_status \<times> read_event list" where
  "read_frame evs =
     (case read_full 4 [] evs of
        (FullEof, evs1) \<Rightarrow> (FrameEof, evs1)
      | (FullFailed, evs1) \<Rightarrow> (FrameInvalid ''header_read_failed'', evs1)
      | (FullOk head, evs1) \<Rightarrow>
          (let len = from_be_bytes head in
           if kMaxFrameBytes < unat len then (FrameTooLarge len, evs1)
           else if len = 0 then (FrameInvalid ''zero_length_frame'', evs1)
           else
             (case read_full (unat len) [] evs1 of
                (FullOk out, evs2) \<Rightarrow> (FrameOk out, evs2)
              | (_, evs2) \<Rightarrow> (FrameInvalid ''truncated_body'', evs2))))"

datatype write_error = ResponseTooLarge | WriteFailedHeader | WriteFailedBody

text \<open>\<open>write_frame\<close>: the error if any, the bytes put on the socket, and the rest of the script.\<close>

definition write_frame :: "bytes \<Rightarrow> write_event list \<Rightarrow> write_error option \<times> bytes \<times> write_event list" where
  "write_frame payload evs =
     (if kMaxResponseBytes < length payload then (Some ResponseTooLarge, [], evs)
      else
        (case write_full [] (to_be_bytes (word_of_nat (length payload))) evs of
           (False, out, evs1) \<Rightarrow> (Some WriteFailedHeader, out, evs1)
         | (True, out, evs1) \<Rightarrow>
             (case write_full out payload evs1 of
                (False, out', evs2) \<Rightarrow> (Some WriteFailedBody, out', evs2)
              | (True, out', evs2) \<Rightarrow> (None, out', evs2))))"

subsection \<open>The client's side\<close>

record os =
  os_clock :: "nat \<Rightarrow> time"
  os_arm :: "nat \<Rightarrow> bool"

datatype exchange_error = ExUnavailable string | HandshakeRejected string | ExTimeout | ExProtocol string | Broken

definition MAX_RESPONSE_FRAME_BYTES :: nat where
  "MAX_RESPONSE_FRAME_BYTES = 65536"

definition RESPONSE_FRAME_TOO_LARGE :: string where
  "RESPONSE_FRAME_TOO_LARGE = ''the answer frame exceeds the accepted size''"

definition REQUEST_TOO_LONG :: string where
  "REQUEST_TOO_LONG = ''the request does not fit a frame''"

text \<open>\<open>arm\<close> at the clock reading \<open>tick\<close>.\<close>

definition arm :: "os \<Rightarrow> nat \<Rightarrow> time \<Rightarrow> exchange_error option" where
  "arm os tick deadline =
     (if deadline \<le> os_clock os tick then Some ExTimeout
      else if os_arm os tick then None else Some Broken)"

fun classify_io :: "io_kind \<Rightarrow> exchange_error" where
  "classify_io WouldBlock = ExTimeout"
| "classify_io TimedOut = ExTimeout"
| "classify_io Interrupted = Broken"
| "classify_io OtherIo = Broken"

function read_exact ::
  "os \<Rightarrow> time \<Rightarrow> nat \<Rightarrow> bytes \<Rightarrow> nat \<Rightarrow> read_event list
   \<Rightarrow> (exchange_error, bytes) result \<times> nat \<times> read_event list" where
  "read_exact os deadline len buf tick evs =
     (if length buf < len then
        (case arm os tick deadline of
           Some e \<Rightarrow> (Inl e, tick + 1, evs)
         | None \<Rightarrow>
             (case sys_read (len - length buf) evs of
                (Inl k, evs') \<Rightarrow> (Inl (classify_io k), tick + 1, evs')
              | (Inr got, evs') \<Rightarrow>
                  if got = [] then (Inl Broken, tick + 1, evs')
                  else read_exact os deadline len (buf @ got) (tick + 1) evs'))
      else (Inr buf, tick, evs))"
  by pat_completeness auto
termination
  by (relation "measure (\<lambda>(os, deadline, len, buf, tick, evs). len - length buf)")
    (auto simp: neq_Nil_conv)

declare read_exact.simps [simp del]

text \<open>\<open>write_all\<close>, with the bytes put on the socket. A call that accepts nothing breaks the stream.\<close>

function write_all ::
  "os \<Rightarrow> time \<Rightarrow> bytes \<Rightarrow> bytes \<Rightarrow> nat \<Rightarrow> write_event list
   \<Rightarrow> exchange_error option \<times> bytes \<times> nat \<times> write_event list" where
  "write_all os deadline out src tick evs =
     (if src \<noteq> [] then
        (case arm os tick deadline of
           Some e \<Rightarrow> (Some e, out, tick + 1, evs)
         | None \<Rightarrow>
             (case sys_write (length src) evs of
                (Inl k, evs') \<Rightarrow> (Some (classify_io k), out, tick + 1, evs')
              | (Inr n, evs') \<Rightarrow>
                  if n = 0 then (Some Broken, out, tick + 1, evs')
                  else write_all os deadline (out @ take n src) (drop n src) (tick + 1) evs'))
      else (None, out, tick, evs))"
  by pat_completeness auto
termination
  by (relation "measure (\<lambda>(os, deadline, out, src, tick, evs). length src)") auto

declare write_all.simps [simp del]

definition client_read_frame ::
  "os \<Rightarrow> time \<Rightarrow> nat \<Rightarrow> read_event list \<Rightarrow> (exchange_error, bytes) result \<times> nat \<times> read_event list" where
  "client_read_frame os deadline tick evs =
     (case read_exact os deadline 4 [] tick evs of
        (Inl e, tick1, evs1) \<Rightarrow> (Inl e, tick1, evs1)
      | (Inr prefix, tick1, evs1) \<Rightarrow>
          (let len = unat (from_be_bytes prefix) in
           if MAX_RESPONSE_FRAME_BYTES < len then (Inl (ExProtocol RESPONSE_FRAME_TOO_LARGE), tick1, evs1)
           else read_exact os deadline len [] tick1 evs1))"

text \<open>The two writes of a request in \<open>exchange_inner\<close>.\<close>

definition client_write_frame ::
  "os \<Rightarrow> time \<Rightarrow> bytes \<Rightarrow> nat \<Rightarrow> write_event list
   \<Rightarrow> exchange_error option \<times> bytes \<times> nat \<times> write_event list" where
  "client_write_frame os deadline payload tick evs =
     (if 2 ^ 32 \<le> length payload then (Some (ExProtocol REQUEST_TOO_LONG), [], tick, evs)
      else
        (case write_all os deadline [] (to_be_bytes (word_of_nat (length payload))) tick evs of
           (Some e, out, tick1, evs1) \<Rightarrow> (Some e, out, tick1, evs1)
         | (None, out, tick1, evs1) \<Rightarrow> write_all os deadline out payload tick1 evs1))"

subsection \<open>The length prefix\<close>

lemma bit_255: "bit (255 :: int) n \<longleftrightarrow> n < 8"
proof -
  have "(255 :: int) = mask 8" by (simp add: mask_eq_exp_minus_1)
  then show ?thesis by (simp only: bit_mask_iff) simp
qed

lemma from_to_be_bytes: "from_be_bytes (to_be_bytes x) = x"
proof (rule bit_word_eqI)
  fix n assume "n < LENGTH(32)"
  then have "n < 32" by simp
  then consider "n < 8" | "8 \<le> n" "n < 16" | "16 \<le> n" "n < 24" | "24 \<le> n" "n < 32" by linarith
  then show "bit (from_be_bytes (to_be_bytes x)) n = bit x n"
    by cases (auto simp: from_be_bytes_def to_be_bytes_def bit_or_iff bit_push_bit_iff bit_ucast_iff bit_and_iff
        bit_drop_bit_eq bit_255)
qed

lemma length_to_be_bytes [simp]: "length (to_be_bytes x) = 4"
  by (simp add: to_be_bytes_def)

subsection \<open>Reading\<close>

lemma sys_read_cases:
  assumes "sys_read n evs = (r, evs')" "0 < n"
  obtains (failed) k where "r = Inl k" "readable evs = []"
    | (eof) "r = Inr []" "readable evs = []"
    | (got) bs where "r = Inr bs" "bs \<noteq> []" "length bs \<le> n" "readable evs = bs @ readable evs'"
proof (cases "(n, evs)" rule: sys_read.cases)
  case (3 n' bs rest)
  show thesis
  proof (cases "bs = []")
    case True
    with 3 assms eof show ?thesis by auto
  next
    case False
    with 3 assms have "r = Inr (take n bs)" "take n bs \<noteq> []" "readable evs = take n bs @ readable evs'"
      by (auto split: if_splits)
    with got show ?thesis by simp
  qed
qed (use assms that in auto)

lemma read_full_enough:
  "\<lbrakk>length dst \<le> len; len \<le> length dst + length (readable evs)\<rbrakk> \<Longrightarrow>
   \<exists>evs'. read_full len dst evs = (FullOk (dst @ take (len - length dst) (readable evs)), evs')
     \<and> readable evs' = drop (len - length dst) (readable evs)"
proof (induction len dst evs rule: read_full.induct)
  case (1 len dst evs)
  show ?case
  proof (cases "length dst < len")
    case False
    with 1(2) show ?thesis by (simp add: read_full.simps [of len dst evs])
  next
    case True
    obtain r evs1 where r: "sys_read (len - length dst) evs = (r, evs1)" by fastforce
    from True have "0 < len - length dst" by simp
    from r this show ?thesis
    proof (cases rule: sys_read_cases)
      case (got bs)
      have "\<exists>evs'. read_full len (dst @ bs) evs1
            = (FullOk ((dst @ bs) @ take (len - length (dst @ bs)) (readable evs1)), evs')
          \<and> readable evs' = drop (len - length (dst @ bs)) (readable evs1)"
        using got True 1(3) r by (intro 1(1) [OF True r [symmetric]]) auto
      then show ?thesis
        using got True r by (subst read_full.simps) (simp add: diff_diff_left)
    qed (use 1(3) True in auto)
  qed
qed

lemma read_full_FullOk:
  "read_full len dst evs = (FullOk out, evs') \<Longrightarrow> length dst \<le> len \<Longrightarrow>
   \<exists>got. out = dst @ got \<and> length out = len \<and> readable evs = got @ readable evs'"
proof (induction len dst evs rule: read_full.induct)
  case (1 len dst evs)
  show ?case
  proof (cases "length dst < len")
    case False
    with 1 show ?thesis by (simp add: read_full.simps [of len dst evs])
  next
    case True
    obtain r evs1 where r: "sys_read (len - length dst) evs = (r, evs1)" by fastforce
    from True have "0 < len - length dst" by simp
    from r this show ?thesis
    proof (cases rule: sys_read_cases)
      case (got bs)
      with True r 1(2) have "read_full len (dst @ bs) evs1 = (FullOk out, evs')"
        by (simp add: read_full.simps [of len dst evs])
      moreover have "length (dst @ bs) \<le> len" using got True by simp
      ultimately show ?thesis
        using 1(1) [OF True r [symmetric] got(1)] got by fastforce
    qed (use 1(2) True r in \<open>auto simp: read_full.simps [of len dst evs] split: if_splits\<close>)
  qed
qed

text \<open>The clock stays before the deadline and arming the timeout works, at every reading.\<close>

definition in_time :: "os \<Rightarrow> time \<Rightarrow> bool" where
  "in_time os deadline \<longleftrightarrow> (\<forall>t. os_clock os t < deadline \<and> os_arm os t)"

lemma arm_in_time: "in_time os deadline \<Longrightarrow> arm os tick deadline = None"
  by (simp add: in_time_def arm_def not_le)

lemma read_exact_enough:
  "\<lbrakk>in_time os deadline; length buf \<le> len; len \<le> length buf + length (readable evs)\<rbrakk> \<Longrightarrow>
   \<exists>tick' evs'. read_exact os deadline len buf tick evs
       = (Inr (buf @ take (len - length buf) (readable evs)), tick', evs')
     \<and> readable evs' = drop (len - length buf) (readable evs)"
proof (induction os deadline len buf tick evs rule: read_exact.induct)
  case (1 os deadline len buf tick evs)
  note arm = arm_in_time [OF 1(2), of tick]
  show ?case
  proof (cases "length buf < len")
    case False
    with 1(3) show ?thesis by (simp add: read_exact.simps [of os deadline len buf])
  next
    case True
    obtain r evs1 where r: "sys_read (len - length buf) evs = (r, evs1)" by fastforce
    from True have "0 < len - length buf" by simp
    from r this show ?thesis
    proof (cases rule: sys_read_cases)
      case (got bs)
      have "\<exists>tick' evs'. read_exact os deadline len (buf @ bs) (tick + 1) evs1
            = (Inr ((buf @ bs) @ take (len - length (buf @ bs)) (readable evs1)), tick', evs')
          \<and> readable evs' = drop (len - length (buf @ bs)) (readable evs1)"
        using got True 1(4) r arm by (intro 1(1) [OF True arm r [symmetric] _ _ 1(2)]) auto
      then show ?thesis
        using got True r arm by (subst read_exact.simps) (simp add: diff_diff_left)
    qed (use 1(4) True in auto)
  qed
qed

lemma read_exact_Inr:
  "read_exact os deadline len buf tick evs = (Inr out, tick', evs') \<Longrightarrow> length buf \<le> len \<Longrightarrow>
   \<exists>got. out = buf @ got \<and> length out = len \<and> readable evs = got @ readable evs'"
proof (induction os deadline len buf tick evs rule: read_exact.induct)
  case (1 os deadline len buf tick evs)
  show ?case
  proof (cases "length buf < len")
    case False
    with 1 show ?thesis by (simp add: read_exact.simps [of os deadline len buf])
  next
    case True
    obtain r evs1 where r: "sys_read (len - length buf) evs = (r, evs1)" by fastforce
    have arm: "arm os tick deadline = None"
      using 1(2) True by (auto simp: read_exact.simps [of os deadline len buf] split: option.splits)
    from True have "0 < len - length buf" by simp
    from r this show ?thesis
    proof (cases rule: sys_read_cases)
      case (got bs)
      with True r 1(2) arm have "read_exact os deadline len (buf @ bs) (tick + 1) evs1 = (Inr out, tick', evs')"
        by (simp add: read_exact.simps [of os deadline len buf])
      moreover have "length (buf @ bs) \<le> len" using got True by simp
      ultimately show ?thesis
        using 1(1) [OF True arm r [symmetric] got(1)] got by fastforce
    qed (use 1(2) True r arm in \<open>auto simp: read_exact.simps [of os deadline len buf] split: if_splits\<close>)
  qed
qed

subsection \<open>Writing\<close>

lemma write_full_out:
  "write_full out src evs = (ok, out', evs') \<Longrightarrow> \<exists>n. out' = out @ take n src \<and> (ok \<longrightarrow> out' = out @ src)"
proof (induction out src evs rule: write_full.induct)
  case (1 out src evs)
  show ?case
  proof (cases "src = []")
    case False
    obtain r evs1 where r: "sys_write (length src) evs = (r, evs1)" by fastforce
    show ?thesis
    proof (cases r)
      case (Inl k)
      show ?thesis
      proof (cases "k = Interrupted")
        case True
        with 1(1) [OF False r [symmetric] Inl] 1(3) False r Inl show ?thesis
          by (simp add: write_full.simps [of out src evs])
      next
        case f: False
        with 1(3) False r Inl have "out' = out @ take 0 src" "\<not> ok" by (auto simp: write_full.simps [of out src evs])
        then show ?thesis by blast
      qed
    next
      case (Inr n)
      from 1(3) False r Inr have "write_full (out @ take n src) (drop n src) evs1 = (ok, out', evs')"
        by (simp add: write_full.simps [of out src evs])
      from 1(2) [OF False r [symmetric] Inr this] obtain k where
        "out' = (out @ take n src) @ take k (drop n src)" "ok \<longrightarrow> out' = (out @ take n src) @ drop n src" by blast
      moreover have "take n src @ take k (drop n src) = take (n + k) src" by (simp add: take_add)
      ultimately show ?thesis by (intro exI [of _ "n + k"]) simp
    qed
  qed (use 1(3) in \<open>auto simp: write_full.simps [of _ "[]"]\<close>)
qed

lemma write_all_out:
  "write_all os deadline out src tick evs = (e, out', tick', evs') \<Longrightarrow>
   \<exists>n. out' = out @ take n src \<and> (e = None \<longrightarrow> out' = out @ src)"
proof (induction os deadline out src tick evs rule: write_all.induct)
  case (1 os deadline out src tick evs)
  show ?case
  proof (cases "src = []")
    case False
    show ?thesis
    proof (cases "arm os tick deadline")
      case (Some err)
      have "e = Some err" "out' = out @ take 0 src"
        using 1(2) False Some by (simp_all add: write_all.simps [of os deadline out src])
      then show ?thesis by blast
    next
      case None
      obtain r evs1 where r: "sys_write (length src) evs = (r, evs1)" by fastforce
      show ?thesis
      proof (cases "\<exists>n. r = Inr n \<and> n \<noteq> 0")
        case True
        then obtain n where n: "r = Inr n" "n \<noteq> 0" by blast
        from 1(2) False r n None
        have "write_all os deadline (out @ take n src) (drop n src) (tick + 1) evs1 = (e, out', tick', evs')"
          by (simp add: write_all.simps [of os deadline out src])
        from 1(1) [OF False None r [symmetric] n this] obtain k where
          "out' = (out @ take n src) @ take k (drop n src)" "e = None \<longrightarrow> out' = (out @ take n src) @ drop n src"
          by blast
        moreover have "take n src @ take k (drop n src) = take (n + k) src" by (simp add: take_add)
        ultimately show ?thesis by (intro exI [of _ "n + k"]) simp
      next
        case f: False
        with 1(2) False r None have "out' = out @ take 0 src" "e \<noteq> None"
          by (auto simp: write_all.simps [of os deadline out src] split: sum.splits if_splits)
        then show ?thesis by blast
      qed
    qed
  qed (use 1(2) in \<open>auto simp: write_all.simps [of _ _ _ "[]"]\<close>)
qed

subsection \<open>Frames\<close>

definition frame :: "bytes \<Rightarrow> bytes" where
  "frame payload = to_be_bytes (word_of_nat (length payload)) @ payload"

lemma unat_frame_length: "length payload < 2 ^ 32 \<Longrightarrow> unat (word_of_nat (length payload) :: 32 word) = length payload"
  by (simp add: unat_of_nat)

lemma write_frame_bytes:
  "write_frame payload evs = (None, out, evs') \<Longrightarrow> out = frame payload \<and> length payload \<le> kMaxResponseBytes"
  unfolding write_frame_def frame_def
  by (auto split: if_splits prod.splits bool.splits dest!: write_full_out)

lemma client_write_frame_bytes:
  assumes "client_write_frame os deadline payload tick evs = (e, out, tick', evs')"
  shows "(e = None \<longrightarrow> out = frame payload \<and> length payload < 2 ^ 32) \<and> (\<exists>n. out = take n (frame payload))"
proof (cases "2 ^ 32 \<le> length payload")
  case True
  then show ?thesis using assms by (auto simp: client_write_frame_def)
next
  case False
  let ?head = "to_be_bytes (word_of_nat (length payload))"
  obtain e1 out1 t1 evs1 where w: "write_all os deadline [] ?head tick evs = (e1, out1, t1, evs1)"
    by (metis prod_cases4)
  from write_all_out [OF w] obtain n where o1: "out1 = take n ?head" "e1 = None \<longrightarrow> out1 = ?head"
    unfolding append_Nil by blast
  show ?thesis
  proof (cases e1)
    case (Some err)
    with assms False w have "e = Some err" "out = out1" by (simp_all add: client_write_frame_def)
    moreover have "out1 = take (min n 4) (frame payload)" using o1 by (simp add: frame_def min_def)
    ultimately show ?thesis by blast
  next
    case None
    with assms False w have "write_all os deadline out1 payload t1 evs1 = (e, out, tick', evs')"
      by (simp add: client_write_frame_def)
    from write_all_out [OF this] obtain k where "out = out1 @ take k payload" "e = None \<longrightarrow> out = out1 @ payload" by blast
    with o1 None have "out = take (4 + k) (frame payload)" "e = None \<longrightarrow> out = frame payload"
      by (simp_all add: frame_def)
    with False show ?thesis by force
  qed
qed

lemma client_read_frame_of_frame:
  assumes "in_time os deadline" "readable evs = frame payload @ rest" "length payload \<le> MAX_RESPONSE_FRAME_BYTES"
  shows "\<exists>tick' evs'. client_read_frame os deadline tick evs = (Inr payload, tick', evs') \<and> readable evs' = rest"
proof -
  let ?head = "to_be_bytes (word_of_nat (length payload))"
  have lp: "length payload < 2 ^ 32" using assms(3) by (simp add: MAX_RESPONSE_FRAME_BYTES_def)
  obtain t1 evs1 where h: "read_exact os deadline 4 [] tick evs = (Inr ?head, t1, evs1)" "readable evs1 = payload @ rest"
    using read_exact_enough [OF assms(1), of "[]" 4 evs tick] assms(2) by (auto simp: frame_def)
  obtain t2 evs2 where "read_exact os deadline (length payload) [] t1 evs1 = (Inr payload, t2, evs2)" "readable evs2 = rest"
    using read_exact_enough [OF assms(1), of "[]" "length payload" evs1 t1] h(2) by auto
  with h assms(3) show ?thesis
    by (simp add: client_read_frame_def from_to_be_bytes unat_frame_length [OF lp])
qed

lemma read_frame_of_frame:
  assumes "readable evs = frame payload @ rest" "payload \<noteq> []" "length payload \<le> kMaxFrameBytes"
  shows "\<exists>evs'. read_frame evs = (FrameOk payload, evs') \<and> readable evs' = rest"
proof -
  let ?head = "to_be_bytes (word_of_nat (length payload))"
  have lp: "length payload < 2 ^ 32" using assms(3) by (simp add: kMaxFrameBytes_def)
  obtain evs1 where h: "read_full 4 [] evs = (FullOk ?head, evs1)" "readable evs1 = payload @ rest"
    using read_full_enough [of "[]" 4 evs] assms(1) by (auto simp: frame_def)
  obtain evs2 where "read_full (length payload) [] evs1 = (FullOk payload, evs2)" "readable evs2 = rest"
    using read_full_enough [of "[]" "length payload" evs1] h(2) by auto
  moreover have "(word_of_nat (length payload) :: 32 word) \<noteq> 0"
    using unat_frame_length [OF lp] assms(2) by (metis length_0_conv unat_0)
  ultimately show ?thesis
    using h assms(3) by (simp add: read_frame_def Let_def from_to_be_bytes unat_frame_length [OF lp])
qed

lemma read_frame_oversized:
  assumes "readable evs = frame payload @ rest" "kMaxFrameBytes < length payload" "length payload < 2 ^ 32"
  shows "fst (read_frame evs) = FrameTooLarge (word_of_nat (length payload))"
proof -
  obtain evs1 where "read_full 4 [] evs = (FullOk (to_be_bytes (word_of_nat (length payload))), evs1)"
    using read_full_enough [of "[]" 4 evs] assms(1) by (auto simp: frame_def)
  with assms show ?thesis
    by (simp add: read_frame_def Let_def from_to_be_bytes unat_frame_length)
qed

text \<open>C26: A message crosses the socket unchanged in both directions, however the kernel cuts it up. Whatever the
  sidecar succeeds in writing, the client reads back as the same message before its deadline, because the two sides
  agree on the largest answer; whatever the client succeeds in writing, the sidecar reads back as the same message up
  to its own ceiling of 16 MiB and reports as too large beyond it; and the bytes that follow stay in the stream.\<close>

theorem frames_round_trip:
  assumes "write_frame answer wevs = (None, w, wevs')" "readable evs = w @ rest" "in_time os deadline"
    and "client_write_frame os d request t rwevs = (None, w2, t', rwevs')" "readable evs2 = w2 @ rest2" "request \<noteq> []"
  shows "(\<exists>tick' evs'. client_read_frame os deadline tick evs = (Inr answer, tick', evs') \<and> readable evs' = rest)
    \<and> (if length request \<le> kMaxFrameBytes
       then \<exists>evs'. read_frame evs2 = (FrameOk request, evs') \<and> readable evs' = rest2
       else fst (read_frame evs2) = FrameTooLarge (word_of_nat (length request)))"
proof
  have "w = frame answer" "length answer \<le> MAX_RESPONSE_FRAME_BYTES"
    using write_frame_bytes [OF assms(1)] by (auto simp: kMaxResponseBytes_def MAX_RESPONSE_FRAME_BYTES_def)
  with assms(2,3) show "\<exists>tick' evs'. client_read_frame os deadline tick evs = (Inr answer, tick', evs') \<and> readable evs' = rest"
    by (intro client_read_frame_of_frame) auto
  have "w2 = frame request" "length request < 2 ^ 32" using client_write_frame_bytes [OF assms(4)] by auto
  with assms(5,6) show "if length request \<le> kMaxFrameBytes
       then \<exists>evs'. read_frame evs2 = (FrameOk request, evs') \<and> readable evs' = rest2
       else fst (read_frame evs2) = FrameTooLarge (word_of_nat (length request))"
    by (auto intro!: read_frame_of_frame read_frame_oversized)
qed

theorem frames_round_trip_witness:
  "\<exists>tick' evs'. client_read_frame \<lparr>os_clock = (\<lambda>_. 0), os_arm = (\<lambda>_. True)\<rparr> 1 0
       [Chunk [0, 0], Chunk [0, 2, 65], Chunk [66, 9]] = (Inr [65, 66], tick', evs') \<and> readable evs' = [9]"
proof -
  let ?os = "\<lparr>os_clock = (\<lambda>_. 0), os_arm = (\<lambda>_. True)\<rparr>"
  have a: "write_frame [65, 66] [] = (None, [0, 0, 0, 2, 65, 66], [])"
    by (simp add: write_frame_def kMaxResponseBytes_def write_full.simps to_be_bytes_def)
  have b: "client_write_frame ?os 1 [65, 66] 0 [] = (None, [0, 0, 0, 2, 65, 66], 2, [])"
    by (simp add: client_write_frame_def write_all.simps to_be_bytes_def arm_def)
  show ?thesis
    using frames_round_trip [OF a, of "[Chunk [0, 0], Chunk [0, 2, 65], Chunk [66, 9]]" "[9]" ?os 1, OF _ _ b,
        of "[Chunk [0, 0, 0, 2, 65, 66]]" "[]" 0]
    by (simp add: in_time_def)
qed

end
