(* ===== verification/Sidecar_Server.thy ===== *)
theory Sidecar_Server
  imports Sidecar_Start Sidecar_Frame Pii
begin

text \<open>
  The serving half of the detection sidecar (\<open>tools/privacy-sidecar/src/server.cpp\<close>, \<open>protocol.cpp\<close> and
  \<open>pf_engine.cpp\<close>): one connection from its handshake to its end, and the accept loop around it.

  The JSON library and the classification engine are parameters: \<open>jl_parse\<close> and \<open>jl_dump\<close>, and the function from a
  body to the entities found in it (\<open>None\<close> where the engine fails). A connection is a pair of scripts for the
  system calls on it; its outcome is the log it produced and the bytes it put on the socket. The monotonic clock is
  a function of the number of readings, in milliseconds since the start.
\<close>

definition kMaxResponseSpans :: nat where
  "kMaxResponseSpans = 256"

definition kMaxIdBytes :: nat where
  "kMaxIdBytes = 64"

definition kMaxJsonDepth :: nat where
  "kMaxJsonDepth = 32"

definition kMappingV :: int where
  "kMappingV = 0"

definition kScoreMode :: string where
  "kScoreMode = ''mean_token_prob''"

definition between :: "char \<Rightarrow> 8 word \<Rightarrow> char \<Rightarrow> bool" where
  "between a c b \<longleftrightarrow> of_char a \<le> c \<and> c \<le> of_char b"

definition safe_id_byte :: "8 word \<Rightarrow> bool" where
  "safe_id_byte c \<longleftrightarrow> between (CHR ''a'') c (CHR ''z'') \<or> between (CHR ''A'') c (CHR ''Z'')
     \<or> between (CHR ''0'') c (CHR ''9'') \<or> c = of_char (CHR ''.'') \<or> c = of_char (CHR ''_'')
     \<or> c = of_char (CHR '':'') \<or> c = of_char (CHR ''-'')"

definition is_valid_id :: "bytes \<Rightarrow> bool" where
  "is_valid_id ident \<longleftrightarrow> ident \<noteq> [] \<and> length ident \<le> kMaxIdBytes \<and> list_all safe_id_byte ident"

text \<open>The scan of \<open>json_depth_within\<close>: nesting depth, inside a string, after a backslash.\<close>

fun depth_scan :: "nat \<Rightarrow> nat \<Rightarrow> bool \<Rightarrow> bool \<Rightarrow> bytes \<Rightarrow> bool" where
  "depth_scan max_depth depth in_string escaped [] = True"
| "depth_scan max_depth depth in_string escaped (c # cs) =
     (if in_string then
        (if escaped then depth_scan max_depth depth True False cs
         else if c = of_char (CHR 0x5C) then depth_scan max_depth depth True True cs
         else if c = of_char (CHR 0x22) then depth_scan max_depth depth False False cs
         else depth_scan max_depth depth True False cs)
      else if c = of_char (CHR 0x22) then depth_scan max_depth depth True escaped cs
      else if c = of_char (CHR ''{'') \<or> c = of_char (CHR ''['') then
        (if max_depth < depth + 1 then False else depth_scan max_depth (depth + 1) False escaped cs)
      else if (c = of_char (CHR ''}'') \<or> c = of_char (CHR '']'')) \<and> 0 < depth then
        depth_scan max_depth (depth - 1) False escaped cs
      else depth_scan max_depth depth False escaped cs)"

definition json_depth_within :: "bytes \<Rightarrow> nat \<Rightarrow> bool" where
  "json_depth_within payload max_depth = depth_scan max_depth 0 False False payload"

subsection \<open>The engine\<close>

record pf_entity =
  en_label :: "string option"
  en_start :: int
  en_end :: int
  en_score :: f32
  en_text :: bytes

record engine_span =
  es_label :: string
  es_start :: int
  es_end :: int
  es_score :: f32

type_synonym pf_engine = "bytes \<Rightarrow> pf_entity list option"

text \<open>\<open>PfEngine::classify\<close> on a loaded engine: the geometry of the entities, never their text.\<close>

definition engine_classify :: "pf_engine \<Rightarrow> bytes \<Rightarrow> engine_span list option" where
  "engine_classify pf body =
     map_option (map (\<lambda>e. \<lparr>es_label = (case en_label e of None \<Rightarrow> [] | Some l \<Rightarrow> l), es_start = en_start e,
       es_end = en_end e, es_score = en_score e\<rparr>)) (pf body)"

subsection \<open>Messages and log lines\<close>

datatype jvalue = JBool bool | JInt int | JFloat f32 | JStr bytes | JArr "jvalue list" | JObj "(string \<times> jvalue) list" | JNull

record json_lib =
  jl_parse :: "bytes \<Rightarrow> jvalue option"
  jl_dump :: "jvalue \<Rightarrow> bytes"

definition handshake_json :: "server_config \<Rightarrow> jvalue" where
  "handshake_json cfg = JObj [(''binary_sha256'', JStr (str_bytes (sv_binary_sha256 cfg))),
     (''model_sha256'', JStr (str_bytes (sv_model_sha256 cfg))), (''mapping_v'', JInt kMappingV),
     (''labels_v'', JStr (str_bytes (sv_labels_v cfg))), (''score_mode'', JStr (str_bytes kScoreMode)),
     (''ready'', JBool True)]"

definition spans_to_json :: "engine_span list \<Rightarrow> nat \<Rightarrow> jvalue" where
  "spans_to_json spans n = JArr (map (\<lambda>s. JObj [(''label'', JStr (str_bytes (es_label s))),
     (''start'', JInt (es_start s)), (''end'', JInt (es_end s)), (''score'', JFloat (es_score s))])
     (take n spans))"

definition response_json :: "bytes \<Rightarrow> jvalue \<Rightarrow> string \<Rightarrow> jvalue" where
  "response_json ident spans status =
     JObj [(''id'', JStr ident), (''spans'', spans), (''status'', JStr (str_bytes status))]"

definition log_event :: "nat \<Rightarrow> string \<times> string \<Rightarrow> string" where
  "log_event ms ev = (case ev of (event, flds) \<Rightarrow>
     ''sidecar t_ms='' @ show_nat ms @ '' ev='' @ event @ (if flds = [] then [] else '' '' @ flds))"

text \<open>One line per event, each with its own reading of the clock.\<close>

fun stamp :: "(nat \<Rightarrow> nat) \<Rightarrow> nat \<Rightarrow> (string \<times> string) list \<Rightarrow> string list" where
  "stamp clk tick [] = []"
| "stamp clk tick (e # es) = log_event (clk tick) e # stamp clk (tick + 1) es"

definition id_text :: "bytes \<Rightarrow> string" where
  "id_text ident = map char_of (map unat ident)"

fun write_error_text :: "write_error \<Rightarrow> string" where
  "write_error_text ResponseTooLarge = ''response_too_large''"
| "write_error_text WriteFailedHeader = ''write_failed_header''"
| "write_error_text WriteFailedBody = ''write_failed_body''"

subsection \<open>One request\<close>

text \<open>What the body of the request loop does with a complete frame: close the connection after some log events, or
  log and reply; the last component of a reply names the identifier to log should the write fail.\<close>

datatype action = Close "(string \<times> string) list" | Reply "(string \<times> string) list" bytes "bytes option"

definition handle_body ::
  "server_config \<Rightarrow> json_lib \<Rightarrow> pf_engine \<Rightarrow> (nat \<Rightarrow> nat) \<Rightarrow> nat \<Rightarrow> bytes \<Rightarrow> bytes \<Rightarrow> nat \<times> action" where
  "handle_body cfg lib pf clk tick ident body =
     (if unat (sv_max_input_bytes cfg) < length body then
        (tick, Reply [(''reject id='' @ id_text ident @ '' status=input_too_large in_bytes='' @ show_nat (length body)
                       @ '' max_bytes='' @ show_nat (unat (sv_max_input_bytes cfg)), [])]
                 (jl_dump lib (response_json ident (JArr []) ''input_too_large'')) None)
      else
        (let ms = clk (tick + 1) - clk tick in
         case engine_classify pf body of
           None \<Rightarrow>
             (tick + 2, Close [(''classify_failed id='' @ id_text ident @ '' in_bytes='' @ show_nat (length body)
                                @ '' ms='' @ show_nat ms, [])])
         | Some spans \<Rightarrow>
             (let total = length spans;
                  n = (if kMaxResponseSpans < total then kMaxResponseSpans else total) in
              (tick + 2,
               Reply ((if n < total
                       then [(''spans_dropped id='' @ id_text ident @ '' spans_total='' @ show_nat total
                              @ '' spans_kept='' @ show_nat n, [])] else [])
                      @ [(''classify id='' @ id_text ident @ '' in_bytes='' @ show_nat (length body)
                          @ '' spans='' @ show_nat n @ '' ms='' @ show_nat ms, [])])
                 (jl_dump lib (response_json ident (spans_to_json spans n) ''ok'')) (Some ident)))))"

definition handle_payload ::
  "server_config \<Rightarrow> json_lib \<Rightarrow> pf_engine \<Rightarrow> (nat \<Rightarrow> nat) \<Rightarrow> nat \<Rightarrow> bytes \<Rightarrow> nat \<times> action" where
  "handle_payload cfg lib pf clk tick payload =
     (if \<not> json_depth_within payload kMaxJsonDepth then
        (tick, Close [(''reject id=- reason=json_too_deep bytes='' @ show_nat (length payload), [])])
      else
        (case jl_parse lib payload of
           Some (JObj req) \<Rightarrow>
             (case (map_of req ''id'', map_of req ''body'') of
                (Some (JStr ident), Some (JStr body)) \<Rightarrow>
                  if \<not> is_valid_id ident
                  then (tick, Close [(''reject id=- reason=bad_id id_bytes='' @ show_nat (length ident), [])])
                  else handle_body cfg lib pf clk tick ident body
              | _ \<Rightarrow> (tick, Close [(''reject id=- reason=bad_request bytes='' @ show_nat (length payload), [])]))
         | _ \<Rightarrow> (tick, Close [(''reject id=- reason=bad_json bytes='' @ show_nat (length payload), [])])))"

subsection \<open>One connection\<close>

fun event_size :: "read_event list \<Rightarrow> nat" where
  "event_size [] = 0"
| "event_size (ReadFailed k # evs) = 1 + event_size evs"
| "event_size (Chunk bs # evs) = 1 + length bs + event_size evs"

lemma sys_read_size: "sys_read n evs = (Inr bs, evs') \<Longrightarrow> bs \<noteq> [] \<Longrightarrow> event_size evs' < event_size evs"
  by (cases "(n, evs)" rule: sys_read.cases) (auto split: if_splits)

lemma read_full_size: "read_full len dst evs = (FullOk out, evs') \<Longrightarrow> length dst \<le> len \<Longrightarrow>
   event_size evs' \<le> event_size evs \<and> (length dst < len \<longrightarrow> event_size evs' < event_size evs)"
proof (induction len dst evs rule: read_full.induct)
  case (1 len dst evs)
  show ?case
  proof (cases "length dst < len")
    case True
    obtain r evs1 where r: "sys_read (len - length dst) evs = (r, evs1)" by fastforce
    from 1(2) True r obtain got where g: "r = Inr got" "got \<noteq> []" "read_full len (dst @ got) evs1 = (FullOk out, evs')"
      by (auto simp: read_full.simps [of len dst evs] split: sum.splits if_splits)
    have "event_size evs1 < event_size evs" using sys_read_size r g by blast
    moreover have "length (dst @ got) \<le> len"
      using r g(1) True by (cases "(len - length dst, evs)" rule: sys_read.cases) auto
    ultimately show ?thesis using 1(1) [OF True r [symmetric] g(1) g(2) g(3)] by linarith
  qed (use 1(2) in \<open>simp add: read_full.simps [of len dst evs]\<close>)
qed

lemma read_frame_size: "read_frame evs = (FrameOk payload, evs') \<Longrightarrow> event_size evs' < event_size evs"
  by (auto simp: read_frame_def Let_def split: prod.splits full_read.splits if_splits dest!: read_full_size)

function serve_requests ::
  "server_config \<Rightarrow> json_lib \<Rightarrow> pf_engine \<Rightarrow> (nat \<Rightarrow> nat) \<Rightarrow> nat \<Rightarrow> read_event list \<Rightarrow> write_event list
   \<Rightarrow> string list \<times> bytes" where
  "serve_requests cfg lib pf clk tick evs wevs =
     (case read_frame evs of
        (FrameEof, _) \<Rightarrow> (stamp clk tick [(''peer_closed'', [])], [])
      | (FrameTooLarge len, _) \<Rightarrow>
          (stamp clk tick [(''reject id=- reason=frame_too_large bytes='' @ show_nat (unat len)
                            @ '' cap='' @ show_nat kMaxFrameBytes, [])], [])
      | (FrameInvalid detail, _) \<Rightarrow> (stamp clk tick [(''reject id=- reason='' @ detail, [])], [])
      | (FrameOk payload, evs') \<Rightarrow>
          (case handle_payload cfg lib pf clk tick payload of
             (tick1, Close events) \<Rightarrow> (stamp clk tick1 events, [])
           | (tick1, Reply events resp named) \<Rightarrow>
               (case write_frame resp wevs of
                  (Some err, out, wevs') \<Rightarrow>
                    (stamp clk tick1
                       (events @ (case named of
                                    None \<Rightarrow> []
                                  | Some ident \<Rightarrow> [(''write_failed id='' @ id_text ident @ '' reason=''
                                                  @ write_error_text err, [])])), out)
                | (None, out, wevs') \<Rightarrow>
                    (let (lines, out') = serve_requests cfg lib pf clk (tick1 + length events) evs' wevs' in
                     (stamp clk tick1 events @ lines, out @ out')))))"
  by pat_completeness auto
termination
  by (relation "measure (\<lambda>(cfg, lib, pf, clk, tick, evs, wevs). event_size evs)")
    (auto dest!: sym [of _ "read_frame _"] read_frame_size)

declare serve_requests.simps [simp del]

definition handle_connection ::
  "server_config \<Rightarrow> json_lib \<Rightarrow> pf_engine \<Rightarrow> (nat \<Rightarrow> nat) \<Rightarrow> nat \<Rightarrow> read_event list \<Rightarrow> write_event list
   \<Rightarrow> string list \<times> bytes" where
  "handle_connection cfg lib pf clk tick evs wevs =
     (case write_frame (jl_dump lib (handshake_json cfg)) wevs of
        (Some _, out, _) \<Rightarrow> (stamp clk tick [(''handshake_failed'', ''reason=write_error'')], out)
      | (None, out, wevs') \<Rightarrow>
          (let (lines, out') = serve_requests cfg lib pf clk (tick + 1) evs wevs' in
           (stamp clk tick [(''handshake'', ''ready=true labels_v='' @ sv_labels_v cfg)] @ lines, out @ out')))"

subsection \<open>The accept loop\<close>

text \<open>Admission by the credentials of the peer; \<open>None\<close> where the kernel does not give them.\<close>

definition peer_admitted :: "nat \<Rightarrow> nat \<Rightarrow> (nat \<times> nat) option \<Rightarrow> (string, unit) result" where
  "peer_admitted uid gid cred =
     (case cred of
        None \<Rightarrow> Inl ''so_peercred_unavailable''
      | Some (u, g) \<Rightarrow>
          if u \<noteq> uid \<and> g \<noteq> gid then Inl (''uid='' @ show_nat u @ '',gid='' @ show_nat g) else Inr ())"

text \<open>What one turn of the loop meets; the list of turns ends when the stop signal arrives.\<close>

datatype accept_turn =
    PollInterrupted
  | PollFailed
  | PollTimeout
  | AcceptInterrupted
  | AcceptFailed string
  | Accepted "(nat \<times> nat) option" "read_event list" "write_event list"

record process_ids =
  pi_uid :: nat
  pi_gid :: nat

fun accept_loop ::
  "server_config \<Rightarrow> json_lib \<Rightarrow> pf_engine \<Rightarrow> process_ids \<Rightarrow> (nat \<Rightarrow> nat \<Rightarrow> nat) \<Rightarrow> nat \<Rightarrow> accept_turn list
   \<Rightarrow> bool \<times> string list \<times> bytes list" where
  "accept_loop cfg lib pf ids clk turn [] = (True, [], [])"
| "accept_loop cfg lib pf ids clk turn (t # ts) =
     (let continue = (\<lambda>lines sent. case accept_loop cfg lib pf ids clk (turn + 1) ts of
                        (clean, lines', sent') \<Rightarrow> (clean, lines @ lines', sent @ sent')) in
      case t of
        PollInterrupted \<Rightarrow> continue [] []
      | PollFailed \<Rightarrow> (False, [], [])
      | PollTimeout \<Rightarrow> continue [] []
      | AcceptInterrupted \<Rightarrow> continue [] []
      | AcceptFailed reason \<Rightarrow> continue (stamp (clk turn) 0 [(''accept_failed'', ''reason='' @ reason)]) []
      | Accepted cred evs wevs \<Rightarrow>
          (case peer_admitted (pi_uid ids) (pi_gid ids) cred of
             Inl detail \<Rightarrow>
               continue (stamp (clk turn) 0 [(''reject id=- reason=peer_not_admitted detail='' @ detail, [])]) []
           | Inr _ \<Rightarrow> (case handle_connection cfg lib pf (clk turn) 0 evs wevs of (lines, out) \<Rightarrow> continue lines [out])))"

text \<open>The steps that create the socket node, each with whether the system call succeeds.\<close>

record bind_env =
  be_exists :: bool
  be_socket :: bool
  be_bind :: bool
  be_chmod :: bool
  be_listen :: bool

text \<open>\<open>serve\<close>: whether it returns true, whether the socket node exists afterwards, and the connections served.\<close>

definition serve ::
  "server_config \<Rightarrow> json_lib \<Rightarrow> pf_engine \<Rightarrow> process_ids \<Rightarrow> bind_env \<Rightarrow> (nat \<Rightarrow> nat \<Rightarrow> nat) \<Rightarrow> accept_turn list
   \<Rightarrow> bool \<times> bool \<times> bytes list" where
  "serve cfg lib pf ids be clk turns =
     (if 108 < length (sv_socket_path cfg) + 1 then (False, be_exists be, [])
      else if be_exists be then (False, True, [])
      else if \<not> be_socket be then (False, False, [])
      else if \<not> be_bind be then (False, False, [])
      else if \<not> be_chmod be then (False, False, [])
      else if \<not> be_listen be then (False, False, [])
      else (case accept_loop cfg lib pf ids clk 0 turns of (clean, lines, sent) \<Rightarrow> (clean, False, sent)))"

subsection \<open>Log lines\<close>

definition printable :: "string \<Rightarrow> bool" where
  "printable s \<longleftrightarrow> (\<forall>c\<in>set s. 32 \<le> (of_char c :: nat) \<and> (of_char c :: nat) < 127)"

lemma printable_append [simp]: "printable (a @ b) \<longleftrightarrow> printable a \<and> printable b"
  by (auto simp: printable_def)

lemma printable_Nil [simp]: "printable []"
  by (simp add: printable_def)

lemma printable_Cons [simp]:
  "printable (c # s) \<longleftrightarrow> 32 \<le> (of_char c :: nat) \<and> (of_char c :: nat) < 127 \<and> printable s"
  by (auto simp: printable_def)

lemma printable_show_nat [simp]: "printable (show_nat n)"
  using show_nat_digits by (fastforce simp: printable_def)

lemma safe_id_byte_range: "safe_id_byte c \<Longrightarrow> 45 \<le> unat c \<and> unat c \<le> 122"
  by (auto simp: safe_id_byte_def between_def word_le_nat_alt)

lemma printable_id_text: "is_valid_id ident \<Longrightarrow> printable (id_text ident)"
  using safe_id_byte_range
  by (fastforce simp: is_valid_id_def list_all_iff printable_def id_text_def of_char_of)

lemma printable_write_error [simp]: "printable (write_error_text e)"
  by (cases e) simp_all

definition printable_events :: "(string \<times> string) list \<Rightarrow> bool" where
  "printable_events es \<longleftrightarrow> (\<forall>(a, b)\<in>set es. printable a \<and> printable b)"

lemma stamp_printable: "printable_events es \<Longrightarrow> l \<in> set (stamp clk tick es) \<Longrightarrow> printable l"
  by (induction clk tick es rule: stamp.induct) (auto simp: printable_events_def log_event_def)

definition action_ok :: "action \<Rightarrow> bool" where
  "action_ok act = (case act of
     Close es \<Rightarrow> printable_events es
   | Reply es resp named \<Rightarrow> printable_events es \<and> (case named of None \<Rightarrow> True | Some ident \<Rightarrow> is_valid_id ident))"

lemma handle_body_ok: "is_valid_id ident \<Longrightarrow> action_ok (snd (handle_body cfg lib pf clk tick ident body))"
  by (simp add: handle_body_def Let_def action_ok_def printable_events_def printable_id_text split: option.splits)

lemma handle_payload_ok: "action_ok (snd (handle_payload cfg lib pf clk tick payload))"
  by (simp add: handle_payload_def handle_body_ok split: option.splits jvalue.splits)
    (simp add: action_ok_def printable_events_def)

lemma read_frame_detail: "read_frame evs = (FrameInvalid detail, evs') \<Longrightarrow> printable detail"
  by (auto simp: read_frame_def Let_def split: prod.splits full_read.splits if_splits)

lemma serve_requests_printable: "l \<in> set (fst (serve_requests cfg lib pf clk tick evs wevs)) \<Longrightarrow> printable l"
proof (induction cfg lib pf clk tick evs wevs rule: serve_requests.induct)
  case (1 cfg lib pf clk tick evs wevs)
  note unfold = serve_requests.simps [of cfg lib pf clk tick evs wevs]
  obtain st evs' where f: "read_frame evs = (st, evs')" by fastforce
  show ?case
  proof (cases st)
    case (FrameOk payload)
    obtain tick1 act where h: "handle_payload cfg lib pf clk tick payload = (tick1, act)" by fastforce
    have ok: "action_ok act" using handle_payload_ok [of cfg lib pf clk tick payload] h by simp
    show ?thesis
    proof (cases act)
      case (Close es)
      with 1(2) f FrameOk h ok show ?thesis
        by (auto simp: unfold action_ok_def intro: stamp_printable)
    next
      case (Reply es resp named)
      obtain err out wevs' where w: "write_frame resp wevs = (err, out, wevs')" by (metis prod_cases3)
      have es: "printable_events es" "\<And>ident. named = Some ident \<Longrightarrow> printable (id_text ident)"
        using ok Reply printable_id_text by (auto simp: action_ok_def)
      show ?thesis
      proof (cases err)
        case None
        with 1(2) f FrameOk h Reply w have
          "l \<in> set (stamp clk tick1 es) \<or> l \<in> set (fst (serve_requests cfg lib pf clk (tick1 + length es) evs' wevs'))"
          by (auto simp: unfold split: prod.splits)
        then show ?thesis
          using stamp_printable [OF es(1)] 1(1) [OF f [symmetric] FrameOk h [symmetric] Reply w [symmetric] None refl] by blast
      next
        case (Some e)
        have "printable_events (es @ (case named of None \<Rightarrow> [] | Some ident \<Rightarrow>
            [(''write_failed id='' @ id_text ident @ '' reason='' @ write_error_text e, [])]))"
          using es by (auto simp: printable_events_def split: option.splits)
        from stamp_printable [OF this, of l clk tick1] 1(2) f FrameOk h Reply w Some show ?thesis
          by (auto simp: unfold)
      qed
    qed
  next
    case FrameEof
    with 1(2) f show ?thesis by (simp add: unfold log_event_def)
  next
    case (FrameTooLarge len)
    with 1(2) f show ?thesis by (simp add: unfold log_event_def)
  next
    case (FrameInvalid detail)
    with 1(2) f read_frame_detail show ?thesis by (auto simp: unfold log_event_def)
  qed
qed

lemma handle_connection_printable:
  "printable (sv_labels_v cfg) \<Longrightarrow> l \<in> set (fst (handle_connection cfg lib pf clk tick evs wevs)) \<Longrightarrow> printable l"
proof -
  assume lab: "printable (sv_labels_v cfg)" and l: "l \<in> set (fst (handle_connection cfg lib pf clk tick evs wevs))"
  obtain err out wevs' where w: "write_frame (jl_dump lib (handshake_json cfg)) wevs = (err, out, wevs')"
    by (metis prod_cases3)
  show ?thesis
  proof (cases err)
    case None
    with l w have "l = log_event (clk tick) (''handshake'', ''ready=true labels_v='' @ sv_labels_v cfg)
        \<or> l \<in> set (fst (serve_requests cfg lib pf clk (tick + 1) evs wevs'))"
      by (auto simp: handle_connection_def split: prod.splits)
    with lab serve_requests_printable show ?thesis by (auto simp: log_event_def)
  qed (use l w in \<open>simp add: handle_connection_def log_event_def\<close>)
qed

subsection \<open>Sessions\<close>

text \<open>A connection whose peer sends the frames of \<open>payloads\<close> and then closes, in any fragmentation.\<close>

definition delivers :: "read_event list \<Rightarrow> bytes list \<Rightarrow> bool" where
  "delivers evs payloads \<longleftrightarrow>
     readable evs = concat (map frame payloads) \<and> (\<forall>k. ReadFailed k \<notin> set evs)
     \<and> (\<forall>p\<in>set payloads. p \<noteq> [] \<and> length p \<le> kMaxFrameBytes)"

lemma sys_read_quiet: "sys_read n evs = (r, evs') \<Longrightarrow> \<forall>k. ReadFailed k \<notin> set evs \<Longrightarrow> \<forall>k. ReadFailed k \<notin> set evs'"
  by (cases "(n, evs)" rule: sys_read.cases) (auto split: if_splits)

lemma read_full_quiet: "\<forall>k. ReadFailed k \<notin> set evs \<Longrightarrow> \<forall>k. ReadFailed k \<notin> set (snd (read_full len dst evs))"
proof (induction len dst evs rule: read_full.induct)
  case (1 len dst evs)
  obtain r evs1 where r: "sys_read (len - length dst) evs = (r, evs1)" by fastforce
  show ?case
  proof (cases "length dst < len \<and> (\<exists>got. r = Inr got \<and> got \<noteq> [])")
    case True
    then obtain got where g: "length dst < len" "r = Inr got" "got \<noteq> []" by blast
    with 1(1) [OF g(1) r [symmetric] g(2,3) sys_read_quiet [OF r 1(2)]] r show ?thesis
      by (simp add: read_full.simps [of len dst evs])
  next
    case False
    with r sys_read_quiet [OF r 1(2)] 1(2) show ?thesis
      by (auto simp: read_full.simps [of len dst evs] split: sum.splits)
  qed
qed

lemma read_frame_quiet: "\<forall>k. ReadFailed k \<notin> set evs \<Longrightarrow> \<forall>k. ReadFailed k \<notin> set (snd (read_frame evs))"
proof -
  assume "\<forall>k. ReadFailed k \<notin> set evs"
  note q = read_full_quiet [OF this, of 4 "[]"]
  obtain st evs1 where r: "read_full 4 [] evs = (st, evs1)" by fastforce
  with q have q1: "\<forall>k. ReadFailed k \<notin> set evs1" by simp
  obtain st2 evs2 where r2: "read_full (unat (from_be_bytes (case st of FullOk head \<Rightarrow> head | _ \<Rightarrow> []))) [] evs1 = (st2, evs2)"
    by fastforce
  with read_full_quiet [OF q1] have "\<forall>k. ReadFailed k \<notin> set evs2" by (metis snd_conv)
  with r r2 q1 show ?thesis
    by (cases st; cases st2) (auto simp: read_frame_def Let_def)
qed

lemma read_frame_end:
  assumes "\<forall>k. ReadFailed k \<notin> set evs" "readable evs = []"
  shows "fst (read_frame evs) = FrameEof"
proof -
  obtain evs' where "sys_read 4 evs = (Inr [], evs')"
    using assms by (cases "(4 :: nat, evs)" rule: sys_read.cases) (auto split: if_splits)
  then show ?thesis by (simp add: read_frame_def read_full.simps [of 4 "[]" evs])
qed

lemma delivers_Cons:
  assumes "delivers evs (p # ps)"
  obtains evs' where "read_frame evs = (FrameOk p, evs')" "delivers evs' ps"
proof -
  obtain evs' where e: "read_frame evs = (FrameOk p, evs')" "readable evs' = concat (map frame ps)"
    using read_frame_of_frame [of evs p "concat (map frame ps)"] assms by (auto simp: delivers_def)
  moreover have "\<forall>k. ReadFailed k \<notin> set evs'"
    using read_frame_quiet [of evs] assms e by (simp add: delivers_def)
  ultimately show thesis using that assms by (simp add: delivers_def)
qed

text \<open>The log and the answers of such a session, over the messages rather than the system calls.\<close>

fun session ::
  "server_config \<Rightarrow> json_lib \<Rightarrow> pf_engine \<Rightarrow> (nat \<Rightarrow> nat) \<Rightarrow> nat \<Rightarrow> bytes list \<Rightarrow> string list \<times> bytes list" where
  "session cfg lib pf clk tick [] = (stamp clk tick [(''peer_closed'', [])], [])"
| "session cfg lib pf clk tick (p # ps) =
     (case handle_payload cfg lib pf clk tick p of
        (tick1, Close events) \<Rightarrow> (stamp clk tick1 events, [])
      | (tick1, Reply events resp named) \<Rightarrow>
          if kMaxResponseBytes < length resp
          then (stamp clk tick1
                  (events @ (case named of
                               None \<Rightarrow> []
                             | Some ident \<Rightarrow> [(''write_failed id='' @ id_text ident @ '' reason=response_too_large'', [])])),
                [])
          else (let (lines, answers) = session cfg lib pf clk (tick1 + length events) ps in
                (stamp clk tick1 events @ lines, resp # answers)))"

lemma write_full_all: "write_full out src [] = (True, out @ src, [])"
  by (cases "src = []") (simp_all add: write_full.simps [of out src] write_full.simps [of _ "[]"])

lemma write_frame_all:
  "write_frame payload [] =
     (if kMaxResponseBytes < length payload then (Some ResponseTooLarge, [], []) else (None, frame payload, []))"
  by (simp add: write_frame_def write_full_all frame_def)

lemma serve_requests_session:
  "delivers evs ps \<Longrightarrow>
   serve_requests cfg lib pf clk tick evs [] =
     (case session cfg lib pf clk tick ps of (lines, answers) \<Rightarrow> (lines, concat (map frame answers)))"
proof (induction ps arbitrary: evs tick)
  case Nil
  then obtain evs' where "read_frame evs = (FrameEof, evs')"
    using read_frame_end [of evs] by (cases "read_frame evs") (simp add: delivers_def)
  then show ?case by (simp add: serve_requests.simps [of cfg lib pf clk tick evs])
next
  case (Cons p ps)
  from Cons.prems obtain evs' where e: "read_frame evs = (FrameOk p, evs')" "delivers evs' ps"
    by (rule delivers_Cons)
  show ?case
    using e(1) Cons.IH [OF e(2)]
    by (auto simp: serve_requests.simps [of cfg lib pf clk tick evs] write_frame_all split: prod.splits action.splits option.splits)
qed

subsection \<open>What a log can reveal\<close>

text \<open>Everything about a request that may reach the log: which test it failed and at what size, or its identifier,
  the length of its body and the number of entities found.\<close>

datatype shape =
    TooDeep nat
  | BadJson nat
  | BadRequest nat
  | BadId nat
  | Oversized bytes nat bool
  | EngineFailed bytes nat
  | Classified bytes nat nat bool

definition body_shape :: "server_config \<Rightarrow> json_lib \<Rightarrow> pf_engine \<Rightarrow> bytes \<Rightarrow> bytes \<Rightarrow> shape" where
  "body_shape cfg lib pf ident body =
     (if unat (sv_max_input_bytes cfg) < length body
      then Oversized ident (length body)
             (length (jl_dump lib (response_json ident (JArr []) ''input_too_large'')) \<le> kMaxResponseBytes)
      else case pf body of
             None \<Rightarrow> EngineFailed ident (length body)
           | Some ents \<Rightarrow>
               Classified ident (length body) (length ents)
                 (length (jl_dump lib (response_json ident
                    (spans_to_json (the (engine_classify pf body)) (min (length ents) kMaxResponseSpans)) ''ok''))
                  \<le> kMaxResponseBytes))"

definition shape_of :: "server_config \<Rightarrow> json_lib \<Rightarrow> pf_engine \<Rightarrow> bytes \<Rightarrow> shape" where
  "shape_of cfg lib pf payload =
     (if \<not> json_depth_within payload kMaxJsonDepth then TooDeep (length payload)
      else (case jl_parse lib payload of
              Some (JObj req) \<Rightarrow>
                (case (map_of req ''id'', map_of req ''body'') of
                   (Some (JStr ident), Some (JStr body)) \<Rightarrow>
                     if is_valid_id ident then body_shape cfg lib pf ident body else BadId (length ident)
                 | _ \<Rightarrow> BadRequest (length payload))
            | _ \<Rightarrow> BadJson (length payload)))"

text \<open>The events of a request, its clock readings, and whether the session goes on, from its shape alone.\<close>

definition shape_events :: "server_config \<Rightarrow> (nat \<Rightarrow> nat) \<Rightarrow> nat \<Rightarrow> shape \<Rightarrow> nat \<times> (string \<times> string) list \<times> bool" where
  "shape_events cfg clk tick sh =
     (let ms = show_nat (clk (tick + 1) - clk tick);
          too_large = (\<lambda>ident. [(''write_failed id='' @ id_text ident @ '' reason=response_too_large'', [])]) in
      case sh of
        TooDeep n \<Rightarrow> (tick, [(''reject id=- reason=json_too_deep bytes='' @ show_nat n, [])], False)
      | BadJson n \<Rightarrow> (tick, [(''reject id=- reason=bad_json bytes='' @ show_nat n, [])], False)
      | BadRequest n \<Rightarrow> (tick, [(''reject id=- reason=bad_request bytes='' @ show_nat n, [])], False)
      | BadId n \<Rightarrow> (tick, [(''reject id=- reason=bad_id id_bytes='' @ show_nat n, [])], False)
      | Oversized ident n fits \<Rightarrow>
          (tick, [(''reject id='' @ id_text ident @ '' status=input_too_large in_bytes='' @ show_nat n
                   @ '' max_bytes='' @ show_nat (unat (sv_max_input_bytes cfg)), [])], fits)
      | EngineFailed ident n \<Rightarrow>
          (tick + 2, [(''classify_failed id='' @ id_text ident @ '' in_bytes='' @ show_nat n @ '' ms='' @ ms, [])], False)
      | Classified ident n k fits \<Rightarrow>
          (tick + 2,
           (if kMaxResponseSpans < k
            then [(''spans_dropped id='' @ id_text ident @ '' spans_total='' @ show_nat k
                   @ '' spans_kept='' @ show_nat kMaxResponseSpans, [])] else [])
           @ [(''classify id='' @ id_text ident @ '' in_bytes='' @ show_nat n
               @ '' spans='' @ show_nat (min k kMaxResponseSpans) @ '' ms='' @ ms, [])]
           @ (if fits then [] else too_large ident), fits))"

fun shape_log :: "server_config \<Rightarrow> (nat \<Rightarrow> nat) \<Rightarrow> nat \<Rightarrow> shape list \<Rightarrow> string list" where
  "shape_log cfg clk tick [] = stamp clk tick [(''peer_closed'', [])]"
| "shape_log cfg clk tick (sh # shs) =
     (case shape_events cfg clk tick sh of
        (tick1, events, go_on) \<Rightarrow>
          stamp clk tick1 events @ (if go_on then shape_log cfg clk (tick1 + length events) shs else []))"

definition logged_as :: "nat \<times> action \<Rightarrow> nat \<times> (string \<times> string) list \<times> bool \<Rightarrow> bool" where
  "logged_as step seen = (case step of
     (tick1, Close es) \<Rightarrow> seen = (tick1, es, False)
   | (tick1, Reply es resp named) \<Rightarrow>
       seen = (if kMaxResponseBytes < length resp
               then (tick1, es @ (case named of
                                    None \<Rightarrow> []
                                  | Some ident \<Rightarrow> [(''write_failed id='' @ id_text ident @ '' reason=response_too_large'', [])]), False)
               else (tick1, es, True)))"

lemma handle_body_shape:
  "logged_as (handle_body cfg lib pf clk tick ident body) (shape_events cfg clk tick (body_shape cfg lib pf ident body))"
proof (cases "unat (sv_max_input_bytes cfg) < length body")
  case True
  then show ?thesis
    by (auto simp: handle_body_def body_shape_def shape_events_def Let_def logged_as_def)
next
  case False
  then show ?thesis
    by (cases "pf body")
      (auto simp: handle_body_def body_shape_def shape_events_def Let_def logged_as_def engine_classify_def min_def)
qed

lemma handle_payload_shape:
  "logged_as (handle_payload cfg lib pf clk tick p) (shape_events cfg clk tick (shape_of cfg lib pf p))"
  by (simp add: handle_payload_def shape_of_def handle_body_shape split: option.splits jvalue.splits)
    (simp add: logged_as_def shape_events_def Let_def)

lemma session_log: "fst (session cfg lib pf clk tick ps) = shape_log cfg clk tick (map (shape_of cfg lib pf) ps)"
proof (induction ps arbitrary: tick)
  case (Cons p ps)
  obtain tick1 act where h: "handle_payload cfg lib pf clk tick p = (tick1, act)" by fastforce
  show ?case
    using handle_payload_shape [of cfg lib pf clk tick p]
    by (cases act) (auto simp: h logged_as_def Cons.IH [symmetric] split: prod.splits if_splits)
qed simp

lemma handle_connection_log:
  assumes "delivers evs ps"
  shows "fst (handle_connection cfg lib pf clk tick evs []) =
    (if kMaxResponseBytes < length (jl_dump lib (handshake_json cfg))
     then stamp clk tick [(''handshake_failed'', ''reason=write_error'')]
     else stamp clk tick [(''handshake'', ''ready=true labels_v='' @ sv_labels_v cfg)]
          @ shape_log cfg clk (tick + 1) (map (shape_of cfg lib pf) ps))"
  using session_log [of cfg lib pf clk "tick + 1" ps]
  by (auto simp: handle_connection_def write_frame_all serve_requests_session [OF assms] split: prod.splits)

text \<open>C19: The log of the sidecar reveals no content. Two connections whose requests agree, one by one, in their
  identifiers, in the lengths of their bodies and in the number of entities found leave the same log, line for line,
  whatever the bodies, the entities and the fragmentation of the stream are. And no input whatsoever, malformed
  frames, hostile identifiers and broken sockets included, puts anything but printable characters in a log line, so a
  peer cannot forge a line.\<close>

theorem sidecar_log_reveals_no_content:
  assumes "delivers evs1 ps1" "delivers evs2 ps2" "map (shape_of cfg lib pf) ps1 = map (shape_of cfg lib pf) ps2"
    "printable (sv_labels_v cfg)"
  shows "fst (handle_connection cfg lib pf clk tick evs1 []) = fst (handle_connection cfg lib pf clk tick evs2 [])
    \<and> (\<forall>line \<in> set (fst (handle_connection cfg lib pf clk' tick' evs wevs)). printable line)"
  using handle_connection_printable [OF assms(4)]
  by (simp add: handle_connection_log [OF assms(1)] handle_connection_log [OF assms(2)] assms(3))

text \<open>A library that reads the first byte of a message as the identifier and the rest as the body.\<close>

definition sample_json :: json_lib where
  "sample_json = \<lparr>jl_parse = (\<lambda>p. Some (JObj [(''id'', JStr (take 1 p)), (''body'', JStr (drop 1 p))])),
     jl_dump = (\<lambda>_. [123, 125])\<rparr>"

definition sample_server :: server_config where
  "sample_server = \<lparr>sv_socket_path = ''s'', sv_binary_sha256 = [], sv_model_sha256 = [], sv_labels_v = ''sha256:0'',
     sv_max_input_bytes = 4, sv_threads = 4\<rparr>"

lemma delivers_one: "p \<noteq> [] \<Longrightarrow> length p \<le> kMaxFrameBytes \<Longrightarrow> delivers [Chunk (frame p)] [p]"
  by (simp add: delivers_def frame_def to_be_bytes_def)

theorem sidecar_log_reveals_no_content_witness:
  "fst (handle_connection sample_server sample_json (\<lambda>_. Some []) id 0 [Chunk (frame [97, 65, 66])] [])
     = fst (handle_connection sample_server sample_json (\<lambda>_. Some []) id 0 [Chunk (frame [97, 67, 68])] [])
   \<and> shape_of sample_server sample_json (\<lambda>_. Some []) [97, 65, 66] = Classified [97] 2 0 True"
proof
  let ?pf = "\<lambda>_ :: bytes. Some ([] :: pf_entity list)"
  have sh: "shape_of sample_server sample_json ?pf [97, a, b] = Classified [97] 2 0 True" if "a \<in> {65, 67}" "b \<in> {66, 68}" for a b
    using that by (auto simp: shape_of_def json_depth_within_def sample_json_def is_valid_id_def kMaxIdBytes_def
        safe_id_byte_def between_def body_shape_def sample_server_def kMaxResponseBytes_def)
  have lab: "printable (sv_labels_v sample_server)" by (simp add: sample_server_def)
  show "shape_of sample_server sample_json ?pf [97, 65, 66] = Classified [97] 2 0 True" by (simp add: sh)
  show "fst (handle_connection sample_server sample_json ?pf id 0 [Chunk (frame [97, 65, 66])] [])
      = fst (handle_connection sample_server sample_json ?pf id 0 [Chunk (frame [97, 67, 68])] [])"
    using sidecar_log_reveals_no_content [OF delivers_one delivers_one _ lab,
        of "[97, 65, 66]" "[97, 67, 68]" sample_json ?pf id 0 id 0 "[]" "[]"]
    by (simp add: sh kMaxFrameBytes_def)
qed

subsection \<open>What the engine sees and what leaves it\<close>

definition same_geometry :: "pf_entity list option \<Rightarrow> pf_entity list option \<Rightarrow> bool" where
  "same_geometry a b \<longleftrightarrow>
     map_option (map (\<lambda>e. e\<lparr>en_text := []\<rparr>)) a = map_option (map (\<lambda>e. e\<lparr>en_text := []\<rparr>)) b"

lemma same_geometry_classify:
  assumes "same_geometry (pf body) (pf' body)"
  shows "engine_classify pf body = engine_classify pf' body"
proof -
  let ?sp = "\<lambda>e. \<lparr>es_label = (case en_label e of None \<Rightarrow> [] | Some l \<Rightarrow> l), es_start = en_start e,
       es_end = en_end e, es_score = en_score e\<rparr>"
  let ?strip = "map_option (map (\<lambda>e. e\<lparr>en_text := []\<rparr>))"
  have eq: "map_option (map ?sp) (?strip x) = map_option (map ?sp) x" for x
    by (simp add: option.map_comp comp_def)
  have "map_option (map ?sp) (?strip (pf body)) = map_option (map ?sp) (?strip (pf' body))"
    using assms by (simp only: same_geometry_def)
  then show ?thesis by (simp only: eq engine_classify_def)
qed

lemma handle_payload_engine:
  assumes "\<And>b. length b \<le> unat (sv_max_input_bytes cfg) \<Longrightarrow> engine_classify pf b = engine_classify pf' b"
  shows "handle_payload cfg lib pf clk tick p = handle_payload cfg lib pf' clk tick p"
  using assms by (auto simp: handle_payload_def handle_body_def Let_def split: option.splits jvalue.splits)

lemma serve_requests_engine:
  assumes "\<And>b. length b \<le> unat (sv_max_input_bytes cfg) \<Longrightarrow> engine_classify pf b = engine_classify pf' b"
  shows "serve_requests cfg lib pf clk tick evs wevs = serve_requests cfg lib pf' clk tick evs wevs"
  using assms
proof (induction cfg lib pf clk tick evs wevs rule: serve_requests.induct)
  case (1 cfg lib pf clk tick evs wevs)
  note unfold = serve_requests.simps [of cfg lib pf clk tick evs wevs] serve_requests.simps [of cfg lib pf' clk tick evs wevs]
  note same = handle_payload_engine [of cfg pf pf' lib clk tick, OF 1(2)]
  obtain st evs' where f: "read_frame evs = (st, evs')" by fastforce
  show ?case
  proof (cases st)
    case (FrameOk payload)
    obtain tick1 act where h: "handle_payload cfg lib pf clk tick payload = (tick1, act)" by fastforce
    show ?thesis
    proof (cases act)
      case (Reply es resp named)
      obtain err out wevs' where w: "write_frame resp wevs = (err, out, wevs')" by (metis prod_cases3)
      show ?thesis
      proof (cases err)
        case None
        have "serve_requests cfg lib pf clk (tick1 + length es) evs' wevs' = serve_requests cfg lib pf' clk (tick1 + length es) evs' wevs'"
          by (rule 1(1) [OF f [symmetric] FrameOk h [symmetric] Reply w [symmetric] None refl 1(2)])
        then show ?thesis using f FrameOk h Reply w None by (simp add: unfold same [symmetric])
      qed (use f FrameOk h Reply w in \<open>simp add: unfold same [symmetric]\<close>)
    qed (use f FrameOk h in \<open>simp add: unfold same [symmetric]\<close>)
  qed (use f in \<open>simp_all add: unfold\<close>)
qed

text \<open>C27: The engine sees only bodies within the configured limit, and the text it matched never leaves it: replacing
  the matched text of every entity by anything, and the behaviour on longer bodies by anything, changes neither the
  log nor a single byte on the socket.\<close>

theorem matched_text_never_leaves:
  assumes "\<And>body. length body \<le> unat (sv_max_input_bytes cfg) \<Longrightarrow> same_geometry (pf body) (pf' body)"
  shows "handle_connection cfg lib pf clk tick evs wevs = handle_connection cfg lib pf' clk tick evs wevs"
  using serve_requests_engine [OF same_geometry_classify [OF assms]]
  by (simp add: handle_connection_def split: prod.splits option.splits)

definition sample_entity :: pf_entity where
  "sample_entity = \<lparr>en_label = Some ''EMAIL'', en_start = 0, en_end = 2, en_score = Finite 1, en_text = [65, 66]\<rparr>"

theorem matched_text_never_leaves_witness:
  "handle_connection sample_server sample_json (\<lambda>_. Some [sample_entity]) id 0 [Chunk (frame [97, 65, 66])] []
     = handle_connection sample_server sample_json
         (\<lambda>b. if length b \<le> 4 then Some [sample_entity\<lparr>en_text := []\<rparr>] else None) id 0 [Chunk (frame [97, 65, 66])] []"
  by (rule matched_text_never_leaves) (simp add: same_geometry_def sample_server_def)

subsection \<open>The socket node and its peers\<close>

lemma serve_restores_node: "fst (snd (serve cfg lib pf ids be clk turns)) = be_exists be"
  by (simp add: serve_def split: prod.splits)

text \<open>Only peers of the same user or the same group are spoken to.\<close>

fun admitted_turn :: "process_ids \<Rightarrow> accept_turn \<Rightarrow> bool" where
  "admitted_turn ids (Accepted cred evs wevs) =
     (case cred of None \<Rightarrow> False | Some (u, g) \<Rightarrow> u = pi_uid ids \<or> g = pi_gid ids)"
| "admitted_turn ids _ = False"

lemma strangers_get_nothing:
  "list_all (\<lambda>t. \<not> admitted_turn ids t) turns \<Longrightarrow> snd (snd (accept_loop cfg lib pf ids clk turn turns)) = []"
  by (induction cfg lib pf ids clk turn turns rule: accept_loop.induct)
    (auto simp: peer_admitted_def split: accept_turn.splits prod.splits option.splits)

end
