(* ===== verification/Regex_Detector.thy ===== *)
theory Regex_Detector
  imports Pii
begin

text \<open>
  The deterministic floor of the personal-data detection (\<open>gradatum-privacy/src/regex_detector.rs\<close>): nine patterns,
  a context predicate for each, and the pruning of overlapping matches.

  The regular-expression engine is a parameter: for a pattern and a text it gives the start and end of the
  successive matches. The subtraction \<open>start - 2\<close> wraps around as it does in a release build.
\<close>

datatype regex_name =
  EMAIL_RE | IBAN_RE | PHONE_FR_RE | NIR_RE | IPV4_CIDR_RE | IPV4_PORT_RE | IPV4_RE | IPV6_RE | MOUNT_PATH_RE

type_synonym find_iter = "regex_name \<Rightarrow> bytes \<Rightarrow> (nat \<times> nat) list"

definition byte_at :: "bytes \<Rightarrow> nat \<Rightarrow> 8 word option" where
  "byte_at body i = (if i < length body then Some (body ! i) else None)"

definition byte_satisfies :: "bytes \<Rightarrow> nat \<Rightarrow> (8 word \<Rightarrow> bool) \<Rightarrow> bool" where
  "byte_satisfies body i P = (case byte_at body i of None \<Rightarrow> False | Some b \<Rightarrow> P b)"

definition ascii_range :: "nat \<Rightarrow> nat \<Rightarrow> 8 word \<Rightarrow> bool" where
  "ascii_range lo hi b \<longleftrightarrow> lo \<le> unat b \<and> unat b \<le> hi"

definition byte_is_digit :: "8 word \<Rightarrow> bool" where
  "byte_is_digit = ascii_range 48 57"

definition byte_is_hexdigit :: "8 word \<Rightarrow> bool" where
  "byte_is_hexdigit b \<longleftrightarrow> byte_is_digit b \<or> ascii_range 65 70 b \<or> ascii_range 97 102 b"

definition byte_is_alnum :: "8 word \<Rightarrow> bool" where
  "byte_is_alnum b \<longleftrightarrow> byte_is_digit b \<or> ascii_range 65 90 b \<or> ascii_range 97 122 b"

definition byte_in :: "string \<Rightarrow> 8 word \<Rightarrow> bool" where
  "byte_in cs b \<longleftrightarrow> b \<in> set (str_bytes cs)"

definition wrapping_sub_usize :: "nat \<Rightarrow> nat \<Rightarrow> nat" where
  "wrapping_sub_usize a b = (if b \<le> a then a - b else a + 2 ^ 64 - b)"

definition bounded_by_number :: "bytes \<Rightarrow> nat \<Rightarrow> nat \<Rightarrow> bool" where
  "bounded_by_number body start e =
     (if 0 < start \<and> byte_satisfies body (start - 1) byte_is_digit then False
      else if 0 < start \<and> byte_satisfies body (start - 1) (byte_in ''.'')
              \<and> byte_satisfies body (wrapping_sub_usize start 2) byte_is_digit then False
      else if byte_satisfies body e byte_is_digit then False
      else if byte_satisfies body e (byte_in ''.'') \<and> byte_satisfies body (e + 1) byte_is_digit then False
      else True)"

definition phone_context :: "bytes \<Rightarrow> nat \<Rightarrow> nat \<Rightarrow> bool" where
  "phone_context body start e =
     (if \<not> bounded_by_number body start e then False
      else if 0 < start \<and> byte_satisfies body (start - 1) (byte_in '':T'') then False
      else \<not> byte_satisfies body e (byte_in '':T''))"

definition is_unreportable_ipv4 :: "bytes \<Rightarrow> bool" where
  "is_unreportable_ipv4 matched =
     (let address = takeWhile (\<lambda>b. \<not> byte_in ''/:'' b) matched in
      take 4 address = str_bytes ''127.'' \<or> address = str_bytes ''0.0.0.0'')"

definition ipv4_context :: "bytes \<Rightarrow> nat \<Rightarrow> nat \<Rightarrow> bool" where
  "ipv4_context body start e \<longleftrightarrow> bounded_by_number body start e \<and> \<not> is_unreportable_ipv4 (slice body start e)"

definition ipv6_context :: "bytes \<Rightarrow> nat \<Rightarrow> nat \<Rightarrow> bool" where
  "ipv6_context body start e =
     (let continues = (\<lambda>b. byte_is_hexdigit b \<or> byte_in '':'' b) in
      if 0 < start \<and> byte_satisfies body (start - 1) continues then False
      else \<not> byte_satisfies body e continues)"

definition mount_path_context :: "bytes \<Rightarrow> nat \<Rightarrow> bool" where
  "mount_path_context body start =
     (if start = 0 then True
      else let previous = body ! (start - 1) in \<not> (byte_is_alnum previous \<or> byte_in ''_-./~'' previous))"

record regex_pattern =
  rp_re :: regex_name
  rp_category :: pii_category
  rp_accept :: "bytes \<Rightarrow> nat \<Rightarrow> nat \<Rightarrow> bool"

definition accept_any :: "bytes \<Rightarrow> nat \<Rightarrow> nat \<Rightarrow> bool" where
  "accept_any body start e = True"

definition regex_patterns :: "regex_pattern list" where
  "regex_patterns =
     [\<lparr>rp_re = EMAIL_RE, rp_category = Email, rp_accept = accept_any\<rparr>,
      \<lparr>rp_re = IBAN_RE, rp_category = AccountNumber, rp_accept = accept_any\<rparr>,
      \<lparr>rp_re = PHONE_FR_RE, rp_category = Phone, rp_accept = phone_context\<rparr>,
      \<lparr>rp_re = NIR_RE, rp_category = AccountNumber, rp_accept = accept_any\<rparr>,
      \<lparr>rp_re = IPV4_CIDR_RE, rp_category = Address, rp_accept = ipv4_context\<rparr>,
      \<lparr>rp_re = IPV4_PORT_RE, rp_category = Address, rp_accept = ipv4_context\<rparr>,
      \<lparr>rp_re = IPV4_RE, rp_category = Address, rp_accept = ipv4_context\<rparr>,
      \<lparr>rp_re = IPV6_RE, rp_category = Address, rp_accept = ipv6_context\<rparr>,
      \<lparr>rp_re = MOUNT_PATH_RE, rp_category = Address, rp_accept = (\<lambda>body start e. mount_path_context body start)\<rparr>]"

definition MAX_SCORE :: f32 where
  "MAX_SCORE = Finite 1"

text \<open>The accepted matches of one pattern, then of all of them in order.\<close>

definition pattern_spans :: "find_iter \<Rightarrow> bytes \<Rightarrow> regex_pattern \<Rightarrow> pii_span list" where
  "pattern_spans rx body p =
     map (\<lambda>(s, e). \<lparr>sp_start = s, sp_len = e - s, sp_category = rp_category p, sp_score = MAX_SCORE\<rparr>)
       (filter (\<lambda>(s, e). rp_accept p body s e) (rx (rp_re p) body))"

definition candidate_spans :: "find_iter \<Rightarrow> bytes \<Rightarrow> pii_span list" where
  "candidate_spans rx body = concat (map (pattern_spans rx body) regex_patterns)"

text \<open>The pruning loop, with the spans kept so far and the end of the last one.\<close>

fun prune :: "pii_span list \<Rightarrow> nat \<Rightarrow> pii_span list \<Rightarrow> pii_span list" where
  "prune kept last_end [] = kept"
| "prune kept last_end (s # ss) =
     (if kept = [] \<or> last_end \<le> sp_start s then prune (kept @ [s]) (sp_start s + sp_len s) ss
      else prune kept last_end ss)"

definition regex_detect :: "find_iter \<Rightarrow> bytes \<Rightarrow> pii_span list" where
  "regex_detect rx body =
     prune [] 0 (sort_key (\<lambda>s. (sp_start s, - int (sp_len s))) (candidate_spans rx body))"

subsection \<open>What is kept\<close>

definition span_end :: "pii_span \<Rightarrow> nat" where
  "span_end s = sp_start s + sp_len s"

text \<open>Kept spans follow one another; each dropped span begins inside a kept one that starts no later.\<close>

definition chained :: "pii_span list \<Rightarrow> bool" where
  "chained ss \<longleftrightarrow> sorted_wrt (\<lambda>a b. span_end a \<le> sp_start b) ss"

lemma chained_snoc:
  "chained kept \<Longrightarrow> (\<And>k. k \<in> set kept \<Longrightarrow> span_end k \<le> sp_start s) \<Longrightarrow> chained (kept @ [s])"
  by (simp add: chained_def sorted_wrt_append)

lemma prune_props:
  assumes "chained kept" "kept \<noteq> [] \<Longrightarrow> last_end = span_end (last kept)"
    "\<And>k. k \<in> set kept \<Longrightarrow> span_end k \<le> last_end" "sorted (map sp_start ss)"
    "\<And>k s. k \<in> set kept \<Longrightarrow> s \<in> set ss \<Longrightarrow> sp_start k \<le> sp_start s"
  shows "chained (prune kept last_end ss) \<and> set (prune kept last_end ss) \<subseteq> set kept \<union> set ss
    \<and> set kept \<subseteq> set (prune kept last_end ss)
    \<and> (\<forall>s\<in>set ss. s \<in> set (prune kept last_end ss)
        \<or> (\<exists>k\<in>set (prune kept last_end ss). sp_start k \<le> sp_start s \<and> sp_start s < span_end k))"
  using assms
proof (induction kept last_end ss rule: prune.induct)
  case (2 kept last_end s ss)
  show ?case
  proof (cases "kept = [] \<or> last_end \<le> sp_start s")
    case True
    then have b: "\<And>k. k \<in> set kept \<Longrightarrow> span_end k \<le> sp_start s" using 2(5) by fastforce
    have c: "span_end k \<le> sp_start s + sp_len s" if "k \<in> set kept" for k
      using b [OF that] by simp
    have "chained (prune (kept @ [s]) (sp_start s + sp_len s) ss)
      \<and> set (prune (kept @ [s]) (sp_start s + sp_len s) ss) \<subseteq> set (kept @ [s]) \<union> set ss
      \<and> set (kept @ [s]) \<subseteq> set (prune (kept @ [s]) (sp_start s + sp_len s) ss)
      \<and> (\<forall>t\<in>set ss. t \<in> set (prune (kept @ [s]) (sp_start s + sp_len s) ss)
        \<or> (\<exists>k\<in>set (prune (kept @ [s]) (sp_start s + sp_len s) ss). sp_start k \<le> sp_start t \<and> sp_start t < span_end k))"
      using 2(6,7) c by (intro 2(1) [OF True] chained_snoc [OF 2(3) b]) (auto simp: span_end_def)
    with True show ?thesis by auto
  next
    case False
    let ?r = "prune kept last_end ss"
    have l: "last kept \<in> set kept" "sp_start s < span_end (last kept)" using False 2(4) by auto
    have "sp_start (last kept) \<le> sp_start s" using 2(7) l(1) by simp
    moreover have ih: "chained ?r" "set ?r \<subseteq> set kept \<union> set ss" "set kept \<subseteq> set ?r"
      "\<forall>t\<in>set ss. t \<in> set ?r \<or> (\<exists>k\<in>set ?r. sp_start k \<le> sp_start t \<and> sp_start t < span_end k)"
      using 2(2) [OF False 2(3,4,5)] 2(6,7) by auto
    ultimately have "\<exists>k\<in>set ?r. sp_start k \<le> sp_start s \<and> sp_start s < span_end k" using l by blast
    with ih False show ?thesis by auto
  qed
qed simp

lemma regex_detect_props:
  "chained (regex_detect rx body) \<and> set (regex_detect rx body) \<subseteq> set (candidate_spans rx body)
   \<and> (\<forall>s\<in>set (candidate_spans rx body). s \<in> set (regex_detect rx body)
       \<or> (\<exists>k\<in>set (regex_detect rx body). sp_start k \<le> sp_start s \<and> sp_start s < span_end k))"
proof -
  let ?key = "\<lambda>s. (sp_start s, - int (sp_len s))"
  let ?ss = "sort_key ?key (candidate_spans rx body)"
  have "sorted (map (fst \<circ> ?key) ?ss)"
    using sorted_sort_key [of ?key "candidate_spans rx body"]
    by (auto simp: sorted_map less_eq_prod_def elim!: sorted_wrt_mono_rel [rotated])
  then have "sorted (map sp_start ?ss)" by (simp add: comp_def)
  then show ?thesis
    using prune_props [of "[]" 0 ?ss] by (auto simp: regex_detect_def chained_def)
qed

text \<open>The pruning keeps the earlier of two matches that overlap only in part, so the end of the later one is lost: in
  the path \<open>/mnt/data/jo@x.fr\<close> the mount path ends before the at sign, the address starts inside it, and the domain of
  the address is in no span.\<close>

definition mount_mail :: bytes where
  "mount_mail = str_bytes ''/mnt/data/jo@x.fr''"

definition mount_mail_rx :: find_iter where
  "mount_mail_rx re body = (if body = mount_mail then (case re of EMAIL_RE \<Rightarrow> [(10, 17)] | MOUNT_PATH_RE \<Rightarrow> [(0, 12)] | _ \<Rightarrow> []) else [])"

lemma overlapping_match_lost:
  "regex_detect mount_mail_rx mount_mail = [\<lparr>sp_start = 0, sp_len = 12, sp_category = Address, sp_score = MAX_SCORE\<rparr>]
   \<and> \<lparr>sp_start = 10, sp_len = 7, sp_category = Email, sp_score = MAX_SCORE\<rparr> \<in> set (candidate_spans mount_mail_rx mount_mail)"
  by (simp add: regex_detect_def candidate_spans_def pattern_spans_def regex_patterns_def mount_mail_rx_def
      accept_any_def mount_path_context_def)

end
