(* ===== verification/Sidecar_Client.thy ===== *)
theory Sidecar_Client
  imports Sidecar_Server Regex_Detector Privacy_Pass
begin

text \<open>
  The client of the detection sidecar (\<open>gradatum-privacy/src/sidecar.rs\<close>): its configuration, its breaker, the
  exchange of one request, and the windowed scan that is the detector's answer.

  The state is the \<open>Inner\<close> behind the mutex together with what the process environment keeps for it: the number of
  clock readings so far, the outcomes of the connection attempts still to come, and the connections already dropped.
  A connection remembers the script it was opened with and the bytes written to it, which is what the properties
  speak about. Serialisation is a parameter. A panic poisons the mutex, which every later lock tolerates by dropping
  the stream.
\<close>

subsection \<open>Configuration\<close>

record sidecar_config =
  sc_socket_path :: string
  sc_binary_digest :: string
  sc_model_digest :: string
  sc_score_mode :: string
  sc_timeout_ms_sync_per_kib :: "64 word"
  sc_max_input_bytes :: nat
  sc_window_overlap_bytes :: nat
  sc_breaker_n :: "32 word"
  sc_cooldown_s :: "64 word"

definition DEFAULT_SCORE_MODE :: string where "DEFAULT_SCORE_MODE = ''mean_token_prob''"

definition DEFAULT_MAX_INPUT_BYTES :: nat where "DEFAULT_MAX_INPUT_BYTES = 262144"

definition DEFAULT_TIMEOUT_MS_SYNC_PER_KIB :: "64 word" where "DEFAULT_TIMEOUT_MS_SYNC_PER_KIB = 800"

definition DEFAULT_WINDOW_OVERLAP_BYTES :: nat where "DEFAULT_WINDOW_OVERLAP_BYTES = 512"

definition DEFAULT_BREAKER_N :: "32 word" where "DEFAULT_BREAKER_N = 3"

definition DEFAULT_COOLDOWN_S :: "64 word" where "DEFAULT_COOLDOWN_S = 30"

definition sidecar_config_new :: "string \<Rightarrow> string \<Rightarrow> string \<Rightarrow> sidecar_config" where
  "sidecar_config_new socket_path binary_digest model_digest =
     \<lparr>sc_socket_path = socket_path, sc_binary_digest = binary_digest, sc_model_digest = model_digest,
      sc_score_mode = DEFAULT_SCORE_MODE, sc_timeout_ms_sync_per_kib = DEFAULT_TIMEOUT_MS_SYNC_PER_KIB,
      sc_max_input_bytes = DEFAULT_MAX_INPUT_BYTES, sc_window_overlap_bytes = DEFAULT_WINDOW_OVERLAP_BYTES,
      sc_breaker_n = DEFAULT_BREAKER_N, sc_cooldown_s = DEFAULT_COOLDOWN_S\<rparr>"

definition with_score_mode :: "string \<Rightarrow> sidecar_config \<Rightarrow> sidecar_config" where
  "with_score_mode m cfg = cfg\<lparr>sc_score_mode := m\<rparr>"

definition with_timeout_ms_sync_per_kib :: "64 word \<Rightarrow> sidecar_config \<Rightarrow> sidecar_config" where
  "with_timeout_ms_sync_per_kib ms cfg = cfg\<lparr>sc_timeout_ms_sync_per_kib := ms\<rparr>"

definition with_max_input_bytes :: "nat \<Rightarrow> sidecar_config \<Rightarrow> sidecar_config" where
  "with_max_input_bytes n cfg = cfg\<lparr>sc_max_input_bytes := n\<rparr>"

definition with_window_overlap_bytes :: "nat \<Rightarrow> sidecar_config \<Rightarrow> sidecar_config" where
  "with_window_overlap_bytes n cfg = cfg\<lparr>sc_window_overlap_bytes := n\<rparr>"

definition with_breaker :: "32 word \<Rightarrow> 64 word \<Rightarrow> sidecar_config \<Rightarrow> sidecar_config" where
  "with_breaker n cooldown cfg = cfg\<lparr>sc_breaker_n := n, sc_cooldown_s := cooldown\<rparr>"

definition validate_config :: "sidecar_config \<Rightarrow> (pii_detect_error, unit) result" where
  "validate_config cfg =
     (let missing =
        (if sc_socket_path cfg = [] then Some ''socket path''
         else if sc_binary_digest cfg = [] then Some ''binary digest''
         else if sc_model_digest cfg = [] then Some ''model digest''
         else if sc_score_mode cfg = [] then Some ''score mode''
         else if sc_max_input_bytes cfg = 0 then Some ''per-call ceiling''
         else if sc_breaker_n cfg = 0 then Some ''breaker threshold''
         else None) in
      case missing of
        Some field \<Rightarrow> Inl (Unavailable (''sidecar configuration is missing its '' @ field))
      | None \<Rightarrow> Inr ())"

subsection \<open>The breaker\<close>

text \<open>An instant is a number of nanoseconds; the sum with a duration is representable below \<open>2^63\<close> seconds.\<close>

definition instant_add :: "time \<Rightarrow> nat \<Rightarrow> time option" where
  "instant_add t d = (if t + int d < 2 ^ 63 * 1000000000 then Some (t + int d) else None)"

record sidecar_breaker =
  sb_consecutive_failures :: "32 word"
  sb_open_until :: "time option"
  sb_openings :: "64 word"

definition sb_default :: sidecar_breaker where
  "sb_default = \<lparr>sb_consecutive_failures = 0, sb_open_until = None, sb_openings = 0\<rparr>"

definition sb_is_open :: "time \<Rightarrow> sidecar_breaker \<Rightarrow> bool" where
  "sb_is_open now b = (case sb_open_until b of None \<Rightarrow> False | Some until \<Rightarrow> now < until)"

definition sb_record_round_trip :: "sidecar_breaker \<Rightarrow> sidecar_breaker" where
  "sb_record_round_trip b = b\<lparr>sb_consecutive_failures := 0\<rparr>"

definition sb_record_success :: "sidecar_breaker \<Rightarrow> sidecar_breaker" where
  "sb_record_success b = (sb_record_round_trip b)\<lparr>sb_open_until := None\<rparr>"

text \<open>\<open>record_failure\<close>; the flag says that adding the cool-down to the clock panicked.\<close>

definition sb_record_failure :: "time \<Rightarrow> 32 word \<Rightarrow> nat \<Rightarrow> sidecar_breaker \<Rightarrow> bool \<times> sidecar_breaker" where
  "sb_record_failure now threshold cooldown b =
     (if sb_open_until b \<noteq> None then
        (case instant_add now cooldown of
           None \<Rightarrow> (True, b) | Some until \<Rightarrow> (False, b\<lparr>sb_open_until := Some until\<rparr>))
      else
        (let b1 = b\<lparr>sb_consecutive_failures := saturating_add (sb_consecutive_failures b) 1\<rparr> in
         if threshold \<le> sb_consecutive_failures b1 then
           (let b2 = b1\<lparr>sb_consecutive_failures := 0\<rparr> in
            case instant_add now cooldown of
              None \<Rightarrow> (True, b2)
            | Some until \<Rightarrow> (False, b2\<lparr>sb_open_until := Some until, sb_openings := saturating_add (sb_openings b2) 1\<rparr>))
         else (False, b1)))"

subsection \<open>State\<close>

record conn =
  cn_in :: "read_event list"
  cn_wr :: "write_event list"
  cn_sent :: bytes
  cn_script :: "read_event list"

datatype connect_outcome = ConnectRefused | ConnectAccepted "read_event list" "write_event list"

record sidecar_state =
  ss_stream :: "conn option"
  ss_breaker :: sidecar_breaker
  ss_latched :: "string option"
  ss_window_edge_spans :: "64 word"
  ss_announced :: "(string \<times> int) option"
  ss_last_request_id :: "64 word"
  ss_poisoned :: bool
  ss_tick :: nat
  ss_connects :: "connect_outcome list"
  ss_dropped :: "conn list"

definition sidecar_connect :: "sidecar_config \<Rightarrow> connect_outcome list \<Rightarrow> (pii_detect_error, sidecar_state) result" where
  "sidecar_connect cfg connects =
     (case validate_config cfg of
        Inl e \<Rightarrow> Inl e
      | Inr _ \<Rightarrow> Inr \<lparr>ss_stream = None, ss_breaker = sb_default, ss_latched = None, ss_window_edge_spans = 0,
          ss_announced = None, ss_last_request_id = 0, ss_poisoned = False, ss_tick = 0, ss_connects = connects,
          ss_dropped = []\<rparr>)"

record sidecar_diagnostics =
  sd_available :: bool
  sd_breaker_open :: bool
  sd_breaker_openings :: "64 word"
  sd_window_edge_spans :: "64 word"
  sd_labels_v :: "string option"
  sd_mapping_v :: "int option"

definition diagnostics :: "time \<Rightarrow> sidecar_state \<Rightarrow> sidecar_diagnostics" where
  "diagnostics now st =
     \<lparr>sd_available = (ss_latched st = None), sd_breaker_open = sb_is_open now (ss_breaker st),
      sd_breaker_openings = sb_openings (ss_breaker st), sd_window_edge_spans = ss_window_edge_spans st,
      sd_labels_v = map_option fst (ss_announced st), sd_mapping_v = map_option snd (ss_announced st)\<rparr>"

definition drop_stream :: "sidecar_state \<Rightarrow> sidecar_state" where
  "drop_stream st =
     (case ss_stream st of
        None \<Rightarrow> st | Some c \<Rightarrow> st\<lparr>ss_stream := None, ss_dropped := ss_dropped st @ [c]\<rparr>)"

definition sidecar_lock :: "sidecar_state \<Rightarrow> sidecar_state" where
  "sidecar_lock st = (if ss_poisoned st then drop_stream st else st)"

definition next_request_id :: "sidecar_state \<Rightarrow> bytes \<times> sidecar_state" where
  "next_request_id st =
     (let n = saturating_add (ss_last_request_id st) 1 in
      (str_bytes (''c-'' @ show_nat (unat n)), st\<lparr>ss_last_request_id := n\<rparr>))"

subsection \<open>Allowances\<close>

definition MIN_CALL_TIMEOUT_MS :: "64 word" where
  "MIN_CALL_TIMEOUT_MS = 2000"

definition MAX_CALL_TIMEOUT_MS :: "64 word" where
  "MAX_CALL_TIMEOUT_MS = 86400000"

definition size_derived_ms :: "sidecar_config \<Rightarrow> nat \<Rightarrow> 64 word" where
  "size_derived_ms cfg n =
     saturating_add (saturating_mul (sc_timeout_ms_sync_per_kib cfg) (word_of_nat ((n + 1023) div 1024))) MIN_CALL_TIMEOUT_MS"

definition call_allowance_ms :: "sidecar_config \<Rightarrow> nat \<Rightarrow> 64 word \<Rightarrow> 64 word" where
  "call_allowance_ms cfg input_bytes budget_ms =
     (let size_derived = size_derived_ms cfg input_bytes;
          allowance = (if budget_ms = 0 then size_derived else min size_derived budget_ms) in
      min allowance MAX_CALL_TIMEOUT_MS)"

definition window_allowance_ms :: "sidecar_config \<Rightarrow> nat \<Rightarrow> nat \<Rightarrow> 64 word" where
  "window_allowance_ms cfg window_bytes remaining =
     (let ms = remaining div 1000000;
          left = (if ms < 2 ^ 64 then word_of_nat ms else - 1) in
      min (size_derived_ms cfg window_bytes) left)"

definition effective_ceiling :: "sidecar_config \<Rightarrow> nat \<Rightarrow> nat" where
  "effective_ceiling cfg caller_ceiling =
     (if caller_ceiling = 0 then sc_max_input_bytes cfg else min (sc_max_input_bytes cfg) caller_ceiling)"

definition deadline_after :: "time \<Rightarrow> 64 word \<Rightarrow> time" where
  "deadline_after now allowance_ms =
     (case instant_add now (unat allowance_ms * 1000000) of None \<Rightarrow> now | Some t \<Rightarrow> t)"

subsection \<open>The wire\<close>

record wire_span =
  ws_label :: string
  ws_start :: nat
  ws_end :: nat
  ws_score :: f32

datatype wire_status = WireOk | WireInputTooLarge

record classify_response =
  cr_id :: bytes
  cr_spans :: "wire_span list option"
  cr_status :: wire_status

record handshake =
  hs_binary_sha256 :: string
  hs_model_sha256 :: string
  hs_mapping_v :: int
  hs_labels_v :: string
  hs_score_mode :: string
  hs_ready :: bool

record wire_codec =
  wc_request :: "bytes \<Rightarrow> bytes \<Rightarrow> bytes option"
  wc_response :: "bytes \<Rightarrow> classify_response option"
  wc_handshake :: "bytes \<Rightarrow> handshake option"

definition SIDECAR_UNREACHABLE :: string where
  "SIDECAR_UNREACHABLE = ''the sidecar socket could not be reached''"

definition HANDSHAKE_UNREADABLE :: string where
  "HANDSHAKE_UNREADABLE = ''the sidecar handshake is not readable''"

definition HANDSHAKE_NOT_READY :: string where
  "HANDSHAKE_NOT_READY = ''the sidecar declares itself not ready''"

definition HANDSHAKE_BINARY_DIVERGED :: string where
  "HANDSHAKE_BINARY_DIVERGED = ''the sidecar build is not the pinned one''"

definition HANDSHAKE_MODEL_DIVERGED :: string where
  "HANDSHAKE_MODEL_DIVERGED = ''the sidecar model is not the pinned one''"

definition HANDSHAKE_MAPPING_UNREADABLE :: string where
  "HANDSHAKE_MAPPING_UNREADABLE = ''the sidecar label mapping revision is below the one this client can read''"

definition HANDSHAKE_SCORE_MODE_DIVERGED :: string where
  "HANDSHAKE_SCORE_MODE_DIVERGED = ''the sidecar score mode is not the pinned one''"

definition BREAKER_OPEN :: string where
  "BREAKER_OPEN = ''the detector circuit breaker is open''"

definition RESPONSE_NOT_READABLE :: string where
  "RESPONSE_NOT_READABLE = ''the answer is not a readable frame''"

definition RESPONSE_ID_MISMATCH :: string where
  "RESPONSE_ID_MISMATCH = ''the answer carries another request's identifier''"

definition RESPONSE_WITHOUT_SPANS :: string where
  "RESPONSE_WITHOUT_SPANS = ''the answer reports a scan without a span list''"

definition SPAN_OFFSETS_REVERSED :: string where
  "SPAN_OFFSETS_REVERSED = ''a span ends before it starts''"

definition REQUEST_NOT_ENCODABLE :: string where
  "REQUEST_NOT_ENCODABLE = ''the request could not be encoded''"

definition STREAM_FAILED :: string where
  "STREAM_FAILED = ''the sidecar stream failed''"

definition SUPPORTED_MAPPING_V_MIN :: int where
  "SUPPORTED_MAPPING_V_MIN = 0"

definition check_handshake :: "sidecar_config \<Rightarrow> handshake \<Rightarrow> (string, unit) result" where
  "check_handshake cfg hs =
     (if \<not> hs_ready hs then Inl HANDSHAKE_NOT_READY
      else if hs_binary_sha256 hs \<noteq> sc_binary_digest cfg then Inl HANDSHAKE_BINARY_DIVERGED
      else if hs_model_sha256 hs \<noteq> sc_model_digest cfg then Inl HANDSHAKE_MODEL_DIVERGED
      else if hs_mapping_v hs < SUPPORTED_MAPPING_V_MIN then Inl HANDSHAKE_MAPPING_UNREADABLE
      else if hs_score_mode hs \<noteq> sc_score_mode cfg then Inl HANDSHAKE_SCORE_MODE_DIVERGED
      else Inr ())"

fun into_pii :: "64 word \<Rightarrow> exchange_error \<Rightarrow> pii_detect_error" where
  "into_pii ms (ExUnavailable reason) = Unavailable reason"
| "into_pii ms (HandshakeRejected reason) = Unavailable reason"
| "into_pii ms ExTimeout = Timeout ms"
| "into_pii ms (ExProtocol detail) = Protocol detail"
| "into_pii ms Broken = Unavailable STREAM_FAILED"

definition read_handshake ::
  "os \<Rightarrow> wire_codec \<Rightarrow> time \<Rightarrow> nat \<Rightarrow> read_event list \<Rightarrow> (exchange_error, handshake) result \<times> nat \<times> read_event list" where
  "read_handshake os codec deadline tick evs =
     (case client_read_frame os deadline tick evs of
        (Inl e, tick', evs') \<Rightarrow> (Inl e, tick', evs')
      | (Inr body, tick', evs') \<Rightarrow>
          ((case wc_handshake codec body of
              None \<Rightarrow> Inl (HandshakeRejected HANDSHAKE_UNREADABLE) | Some hs \<Rightarrow> Inr hs), tick', evs'))"

text \<open>The first half of \<open>exchange_inner\<close>: the stream to use, opened and checked if there was none.\<close>

definition open_stream ::
  "os \<Rightarrow> sidecar_config \<Rightarrow> wire_codec \<Rightarrow> time \<Rightarrow> sidecar_state \<Rightarrow> exchange_error option \<times> sidecar_state" where
  "open_stream os cfg codec deadline st =
     (if ss_stream st \<noteq> None then (None, st)
      else
        (case ss_connects st of
           [] \<Rightarrow> (Some (ExUnavailable SIDECAR_UNREACHABLE), st)
         | ConnectRefused # rest \<Rightarrow> (Some (ExUnavailable SIDECAR_UNREACHABLE), st\<lparr>ss_connects := rest\<rparr>)
         | ConnectAccepted evs wevs # rest \<Rightarrow>
             (case read_handshake os codec deadline (ss_tick st) evs of
                (r, tick', evs') \<Rightarrow>
                  let c = \<lparr>cn_in = evs', cn_wr = wevs, cn_sent = [], cn_script = evs\<rparr>;
                      st1 = st\<lparr>ss_connects := rest, ss_tick := tick'\<rparr>;
                      gone = st1\<lparr>ss_dropped := ss_dropped st1 @ [c]\<rparr> in
                  (case r of
                     Inl (HandshakeRejected reason) \<Rightarrow>
                       (Some (HandshakeRejected reason), gone\<lparr>ss_latched := Some HANDSHAKE_UNREADABLE\<rparr>)
                   | Inl e \<Rightarrow> (Some e, gone)
                   | Inr hs \<Rightarrow>
                       (case check_handshake cfg hs of
                          Inl reason \<Rightarrow> (Some (HandshakeRejected reason), gone\<lparr>ss_latched := Some reason\<rparr>)
                        | Inr _ \<Rightarrow>
                            (None, st1\<lparr>ss_announced := Some (hs_labels_v hs, hs_mapping_v hs), ss_stream := Some c\<rparr>))))))"

definition exchange_inner ::
  "os \<Rightarrow> sidecar_config \<Rightarrow> wire_codec \<Rightarrow> bytes \<Rightarrow> bytes \<Rightarrow> time \<Rightarrow> sidecar_state
   \<Rightarrow> (exchange_error, classify_response) result \<times> sidecar_state" where
  "exchange_inner os cfg codec ident payload deadline st =
     (case open_stream os cfg codec deadline st of
        (Some e, st1) \<Rightarrow> (Inl e, st1)
      | (None, st1) \<Rightarrow>
          (case ss_stream st1 of
             None \<Rightarrow> (Inl (ExUnavailable SIDECAR_UNREACHABLE), st1)
           | Some c \<Rightarrow>
               (case client_write_frame os deadline payload (ss_tick st1) (cn_wr c) of
                  (w, out, tick2, wevs) \<Rightarrow>
                    let c2 = c\<lparr>cn_wr := wevs, cn_sent := cn_sent c @ out\<rparr>;
                        st2 = st1\<lparr>ss_tick := tick2, ss_stream := Some c2\<rparr> in
                    (case w of
                       Some e \<Rightarrow> (Inl e, st2)
                     | None \<Rightarrow>
                         (case client_read_frame os deadline tick2 (cn_in c2) of
                            (r, tick3, evs3) \<Rightarrow>
                              let st3 = st2\<lparr>ss_tick := tick3, ss_stream := Some (c2\<lparr>cn_in := evs3\<rparr>)\<rparr> in
                              (case r of
                                 Inl e \<Rightarrow> (Inl e, st3)
                               | Inr body \<Rightarrow>
                                   (case wc_response codec body of
                                      None \<Rightarrow> (Inl (ExProtocol RESPONSE_NOT_READABLE), st3)
                                    | Some response \<Rightarrow>
                                        if cr_id response \<noteq> ident then (Inl (ExProtocol RESPONSE_ID_MISMATCH), st3)
                                        else (Inr response, st3))))))))"

definition exchange ::
  "os \<Rightarrow> sidecar_config \<Rightarrow> wire_codec \<Rightarrow> bytes \<Rightarrow> bytes \<Rightarrow> time \<Rightarrow> sidecar_state
   \<Rightarrow> (exchange_error, classify_response) result \<times> sidecar_state" where
  "exchange os cfg codec ident payload deadline st =
     (case exchange_inner os cfg codec ident payload deadline st of
        (Inl e, st') \<Rightarrow> (Inl e, drop_stream st')
      | (Inr r, st') \<Rightarrow> (Inr r, st'))"

definition classify ::
  "os \<Rightarrow> sidecar_config \<Rightarrow> wire_codec \<Rightarrow> bytes \<Rightarrow> bytes \<Rightarrow> time \<Rightarrow> 64 word \<Rightarrow> sidecar_state
   \<Rightarrow> (pii_detect_error, classify_response) result \<times> sidecar_state" where
  "classify os cfg codec ident body deadline call_ms st =
     (case wc_request codec ident body of
        None \<Rightarrow> (Inl (Protocol REQUEST_NOT_ENCODABLE), st)
      | Some payload \<Rightarrow>
          (case exchange os cfg codec ident payload deadline st of
             (Inr r, st1) \<Rightarrow> (Inr r, st1)
           | (Inl e, st1) \<Rightarrow>
               if e = Broken then
                 (case exchange os cfg codec ident payload deadline st1 of
                    (Inr r, st2) \<Rightarrow> (Inr r, st2)
                  | (Inl e2, st2) \<Rightarrow> (Inl (into_pii call_ms e2), st2))
               else (Inl (into_pii call_ms e), st1)))"

subsection \<open>The scan\<close>

definition category_for_label :: "string \<Rightarrow> pii_category option" where
  "category_for_label label =
     (if label = ''EMAIL'' then Some Email
      else if label = ''PHONE'' then Some Phone
      else if label = ''URL'' then Some Url
      else if label \<in> set [''DATE'', ''DATEOFBIRTH'', ''TIME''] then Some Date
      else if label \<in> set [''FIRSTNAME'', ''LASTNAME'', ''MIDDLENAME'', ''USERNAME'', ''PREFIX''] then Some Person
      else if label \<in> set [''IBAN'', ''BANKACCOUNT'', ''ACCOUNTNAME'', ''BIC'', ''CREDITCARD'', ''SSN'', ''VIN'', ''IMEI'',
          ''BITCOINADDRESS'', ''ETHEREUMADDRESS'', ''LITECOINADDRESS''] then Some AccountNumber
      else if label \<in> set [''PASSWORD'', ''PIN'', ''CVV'', ''MASKEDNUMBER''] then Some Secret
      else if label \<in> set [''STREET'', ''CITY'', ''COUNTY'', ''STATE'', ''IPADDRESS'', ''MACADDRESS'', ''GPSCOORDINATES'',
          ''SECONDARYADDRESS'', ''BUILDINGNUMBER'', ''ZIPCODE''] then Some Address
      else None)"

text \<open>The spans of a window and the count of the labels that the table does not carry.\<close>

definition wire_to_span :: "wire_span \<Rightarrow> pii_span option" where
  "wire_to_span w =
     map_option (\<lambda>c. \<lparr>sp_start = ws_start w, sp_len = ws_end w - ws_start w, sp_category = c, sp_score = ws_score w\<rparr>)
       (category_for_label (ws_label w))"

definition map_labels :: "wire_span list \<Rightarrow> 64 word \<Rightarrow> pii_span list \<times> 64 word" where
  "map_labels found unmapped =
     (List.map_filter wire_to_span found,
      fold (\<lambda>w n. if category_for_label (ws_label w) = None then saturating_add n 1 else n) found unmapped)"

text \<open>What is made of the answer to one window: an error, or the spans the sidecar reports; and the breaker.\<close>

definition read_response ::
  "nat \<Rightarrow> nat \<Rightarrow> classify_response \<Rightarrow> sidecar_breaker \<Rightarrow> (pii_detect_error, wire_span list) result \<times> sidecar_breaker" where
  "read_response window_len cap response b =
     (case (cr_status response, cr_spans response) of
        (WireInputTooLarge, _) \<Rightarrow> (Inl (InputTooLarge window_len cap), sb_record_round_trip b)
      | (WireOk, None) \<Rightarrow> (Inl (Protocol RESPONSE_WITHOUT_SPANS), b)
      | (WireOk, Some found) \<Rightarrow>
          if list_ex (\<lambda>w. ws_end w < ws_start w) found then (Inl (Protocol SPAN_OFFSETS_REVERSED), b)
          else (Inr found, sb_record_round_trip b))"

text \<open>The body of the window loop: the rebased spans of both detectors on one window.\<close>

definition scan_window ::
  "os \<Rightarrow> sidecar_config \<Rightarrow> wire_codec \<Rightarrow> find_iter \<Rightarrow> time \<Rightarrow> 64 word \<Rightarrow> nat \<Rightarrow> nat \<Rightarrow> bytes \<Rightarrow> 64 word \<Rightarrow> sidecar_state
   \<Rightarrow> (pii_detect_error, pii_span list \<times> 64 word) result \<times> sidecar_state" where
  "scan_window os cfg codec rx deadline call_ms cap window_start window unmapped st =
     (let now = os_clock os (ss_tick st);
          window_ms = window_allowance_ms cfg (length window) (nat (deadline - now));
          st1 = st\<lparr>ss_tick := ss_tick st + 1\<rparr> in
      if window_ms = 0 then (Inl (Timeout call_ms), st1)
      else
        (let window_deadline = deadline_after (os_clock os (ss_tick st1)) window_ms;
             (request_id, st2) = next_request_id (st1\<lparr>ss_tick := ss_tick st1 + 1\<rparr>) in
         case classify os cfg codec request_id window window_deadline call_ms st2 of
           (Inl e, st3) \<Rightarrow> (Inl e, st3)
         | (Inr response, st3) \<Rightarrow>
             (case read_response (length window) cap response (ss_breaker st3) of
                (Inl e, b) \<Rightarrow> (Inl e, st3\<lparr>ss_breaker := b\<rparr>)
              | (Inr found, b) \<Rightarrow>
                  (let (mapped, unmapped') = map_labels found unmapped in
                   (Inr (rebase (regex_detect rx window @ mapped) window_start, unmapped'), st3\<lparr>ss_breaker := b\<rparr>)))))"

fun scan_loop ::
  "os \<Rightarrow> sidecar_config \<Rightarrow> wire_codec \<Rightarrow> find_iter \<Rightarrow> time \<Rightarrow> 64 word \<Rightarrow> nat \<Rightarrow> (nat \<times> bytes) list
   \<Rightarrow> pii_span list \<Rightarrow> 64 word \<Rightarrow> sidecar_state
   \<Rightarrow> (pii_detect_error, pii_span list \<times> 64 word) result \<times> sidecar_state" where
  "scan_loop os cfg codec rx deadline call_ms cap [] collected unmapped st = (Inr (collected, unmapped), st)"
| "scan_loop os cfg codec rx deadline call_ms cap ((window_start, window) # ws) collected unmapped st =
     (case scan_window os cfg codec rx deadline call_ms cap window_start window unmapped st of
        (Inl e, st1) \<Rightarrow> (Inl e, st1)
      | (Inr (spans, unmapped'), st1) \<Rightarrow>
          scan_loop os cfg codec rx deadline call_ms cap ws (collected @ spans) unmapped' st1)"

definition sidecar_touches_cut :: "pii_span \<Rightarrow> nat \<Rightarrow> bool" where
  "sidecar_touches_cut s edge =
     (let e = usize_saturating_add (sp_start s) (sp_len s) in
      sp_start s \<le> usize_saturating_add edge 1 \<and> edge \<le> usize_saturating_add e 1)"

definition sidecar_plan :: "sidecar_config \<Rightarrow> budget \<Rightarrow> window_plan" where
  "sidecar_plan cfg budget =
     \<lparr>wp_max_input_bytes = effective_ceiling cfg (bg_max_input_bytes budget), wp_overlap_bytes = sc_window_overlap_bytes cfg\<rparr>"

definition sidecar_scan ::
  "os \<Rightarrow> sidecar_config \<Rightarrow> wire_codec \<Rightarrow> find_iter \<Rightarrow> bytes \<Rightarrow> budget \<Rightarrow> time \<Rightarrow> 64 word \<Rightarrow> sidecar_state
   \<Rightarrow> (pii_detect_error, detection) result \<times> sidecar_state" where
  "sidecar_scan os cfg codec rx body budget deadline call_ms st =
     (let cap = effective_ceiling cfg (bg_max_input_bytes budget);
          ws = windows (sidecar_plan cfg budget) body in
      if ws = [] then (Inl (InputTooLarge (length body) cap), st)
      else
        (case scan_loop os cfg codec rx deadline call_ms cap ws [] 0 st of
           (Inl e, st1) \<Rightarrow> (Inl e, st1)
         | (Inr (collected, unmapped), st1) \<Rightarrow>
             (let spans = fst (validate_and_merge body collected);
                  edges = map (\<lambda>(start, window). start + length window) (take (length ws - 1) ws);
                  on_a_cut = length (filter (\<lambda>s. list_ex (sidecar_touches_cut s) edges) spans) in
              (Inr \<lparr>dt_spans = spans, dt_unmapped_labels = unmapped\<rparr>,
               st1\<lparr>ss_window_edge_spans := saturating_add (ss_window_edge_spans st1) (word_of_nat on_a_cut)\<rparr>))))"

definition is_input_too_large :: "pii_detect_error \<Rightarrow> bool" where
  "is_input_too_large e = (case e of InputTooLarge _ _ \<Rightarrow> True | _ \<Rightarrow> False)"

text \<open>\<open>detect\<close>, as the task that runs it sees it: answered, or panicked.\<close>

definition sidecar_detect ::
  "os \<Rightarrow> sidecar_config \<Rightarrow> wire_codec \<Rightarrow> find_iter \<Rightarrow> bytes \<Rightarrow> budget \<Rightarrow> sidecar_state \<Rightarrow> detect_call \<times> sidecar_state" where
  "sidecar_detect os cfg codec rx body budget st0 =
     (let st = sidecar_lock st0 in
      case ss_latched st of
        Some reason \<Rightarrow> (Answered (Inl (Unavailable reason)), st)
      | None \<Rightarrow>
          (let now = os_clock os (ss_tick st);
               st1 = st\<lparr>ss_tick := ss_tick st + 1\<rparr> in
           if sb_is_open now (ss_breaker st1) then (Answered (Inl (Unavailable BREAKER_OPEN)), st1)
           else
             (let call_ms = call_allowance_ms cfg (length body) (bg_timeout_ms budget);
                  deadline = deadline_after (os_clock os (ss_tick st1)) call_ms;
                  st2 = st1\<lparr>ss_tick := ss_tick st1 + 1\<rparr> in
              case sidecar_scan os cfg codec rx body budget deadline call_ms st2 of
                (Inr detection, st3) \<Rightarrow>
                  (Answered (Inr detection), st3\<lparr>ss_breaker := sb_record_success (ss_breaker st3)\<rparr>)
              | (Inl e, st3) \<Rightarrow>
                  if is_input_too_large e then (Answered (Inl e), st3)
                  else
                    (let failed_at = os_clock os (ss_tick st3);
                         (panicked, b) = sb_record_failure failed_at (sc_breaker_n cfg)
                                           (unat (sc_cooldown_s cfg) * 1000000000) (ss_breaker st3);
                         st4 = st3\<lparr>ss_tick := ss_tick st3 + 1, ss_breaker := b\<rparr> in
                     if panicked then (Panicked, st4\<lparr>ss_poisoned := True\<rparr>) else (Answered (Inl e), st4)))))"

definition ADAPTER_TABLE_V :: nat where
  "ADAPTER_TABLE_V = 2"

definition DETECTOR_NAME :: string where
  "DETECTOR_NAME = ''sidecar-unix''"

definition sidecar_identity :: "sidecar_config \<Rightarrow> detector_identity" where
  "sidecar_identity cfg =
     \<lparr>di_detector = DETECTOR_NAME, di_model_digest = sc_model_digest cfg, di_model_source = [],
      di_mapping_v = ADAPTER_TABLE_V, di_sidecar_v = sc_binary_digest cfg, di_score_mode = sc_score_mode cfg\<rparr>"

end
