(* ===== verification/Sidecar_Trust.thy ===== *)
theory Sidecar_Trust
  imports Sidecar_Client
begin

text \<open>
  What the client of the sidecar guarantees against a process it does not trust: no text goes to a sidecar that has
  not shown the pinned digests, a refusal is final, and an answer is given only for a body every window of which was
  scanned.
\<close>

subsection \<open>Pins before text\<close>

text \<open>The first frame that can be read from the connection is a handshake that matches the configuration.\<close>

definition pinned :: "sidecar_config \<Rightarrow> wire_codec \<Rightarrow> conn \<Rightarrow> bool" where
  "pinned cfg codec c \<longleftrightarrow>
     (\<exists>prefix body rest hs. readable (cn_script c) = prefix @ body @ rest \<and> length prefix = 4
        \<and> unat (from_be_bytes prefix) = length body
        \<and> wc_handshake codec body = Some hs \<and> check_handshake cfg hs = Inr ())"

definition trusted :: "sidecar_config \<Rightarrow> wire_codec \<Rightarrow> sidecar_state \<Rightarrow> bool" where
  "trusted cfg codec st \<longleftrightarrow>
     (\<forall>c. ss_stream st = Some c \<longrightarrow> pinned cfg codec c)
     \<and> (\<forall>c\<in>set (ss_dropped st). cn_sent c = [] \<or> pinned cfg codec c)"

lemma client_read_frame_Inr:
  assumes "client_read_frame os deadline tick evs = (Inr body, tick', evs')"
  obtains prefix where "readable evs = prefix @ body @ readable evs'" "length prefix = 4"
    "unat (from_be_bytes prefix) = length body" "length body \<le> MAX_RESPONSE_FRAME_BYTES"
proof -
  obtain r t1 evs1 where r: "read_exact os deadline 4 [] tick evs = (r, t1, evs1)" by (metis prod_cases3)
  with assms obtain prefix where p: "r = Inr prefix" by (cases r) (auto simp: client_read_frame_def)
  from assms r p have small: "unat (from_be_bytes prefix) \<le> MAX_RESPONSE_FRAME_BYTES"
    and rd: "read_exact os deadline (unat (from_be_bytes prefix)) [] t1 evs1 = (Inr body, tick', evs')"
    by (auto simp: client_read_frame_def Let_def split: if_splits)
  from read_exact_Inr [OF r [unfolded p]] read_exact_Inr [OF rd] small that show thesis by auto
qed

lemma pinned_same_script: "cn_script c' = cn_script c \<Longrightarrow> pinned cfg codec c' = pinned cfg codec c"
  by (simp add: pinned_def)

lemma drop_stream_trusted: "trusted cfg codec st \<Longrightarrow> trusted cfg codec (drop_stream st)"
  by (auto simp: trusted_def drop_stream_def split: option.splits)

lemma open_stream_trusted:
  assumes "trusted cfg codec st" "open_stream os cfg codec deadline st = (e, st')"
  shows "trusted cfg codec st' \<and> (e = None \<longrightarrow> (\<exists>c. ss_stream st' = Some c))"
proof (cases "\<exists>evs wevs rest. ss_stream st = None \<and> ss_connects st = ConnectAccepted evs wevs # rest")
  case True
  then obtain evs wevs rest where c: "ss_stream st = None" "ss_connects st = ConnectAccepted evs wevs # rest" by blast
  obtain r t1 evs1 where f: "client_read_frame os deadline (ss_tick st) evs = (r, t1, evs1)" by (metis prod_cases3)
  show ?thesis
  proof (cases "\<exists>body hs. r = Inr body \<and> wc_handshake codec body = Some hs \<and> check_handshake cfg hs = Inr ()")
    case True
    then obtain body hs where h: "r = Inr body" "wc_handshake codec body = Some hs" "check_handshake cfg hs = Inr ()"
      by blast
    have "pinned cfg codec \<lparr>cn_in = evs1, cn_wr = wevs, cn_sent = [], cn_script = evs\<rparr>"
      using f h client_read_frame_Inr by (simp add: pinned_def) metis
    with assms c f h show ?thesis
      by (auto simp: open_stream_def read_handshake_def trusted_def Let_def)
  next
    case False
    with assms c f show ?thesis
      by (auto simp: open_stream_def read_handshake_def trusted_def Let_def
          split: sum.splits option.splits exchange_error.splits)
  qed
next
  case False
  with assms show ?thesis
    by (auto simp: open_stream_def trusted_def split: if_splits list.splits connect_outcome.splits)
qed

lemma exchange_trusted:
  assumes "trusted cfg codec st" "exchange os cfg codec ident payload deadline st = (r, st')"
  shows "trusted cfg codec st'"
proof -
  obtain e st1 where o: "open_stream os cfg codec deadline st = (e, st1)" by fastforce
  note t = open_stream_trusted [OF assms(1) o]
  have "trusted cfg codec (snd (exchange_inner os cfg codec ident payload deadline st))"
    using t o by (auto simp: exchange_inner_def Let_def trusted_def pinned_def
        split: option.splits prod.splits sum.splits)
  with assms(2) drop_stream_trusted show ?thesis
    by (auto simp: exchange_def split: prod.splits sum.splits)
qed

lemma classify_trusted:
  assumes "trusted cfg codec st" "classify os cfg codec ident body deadline ms st = (r, st')"
  shows "trusted cfg codec st'"
proof (cases "wc_request codec ident body")
  case (Some payload)
  obtain r1 st1 where x1: "exchange os cfg codec ident payload deadline st = (r1, st1)" by fastforce
  obtain r2 st2 where x2: "exchange os cfg codec ident payload deadline st1 = (r2, st2)" by fastforce
  have "st' = st1 \<or> st' = st2"
    using assms(2) Some x1 x2 by (auto simp: classify_def split: sum.splits if_splits)
  with exchange_trusted [OF assms(1) x1] exchange_trusted [OF _ x2] show ?thesis by auto
qed (use assms in \<open>simp add: classify_def\<close>)

lemma trusted_updates [simp]:
  "trusted cfg codec (st\<lparr>ss_tick := t\<rparr>) = trusted cfg codec st"
  "trusted cfg codec (st\<lparr>ss_breaker := b\<rparr>) = trusted cfg codec st"
  "trusted cfg codec (st\<lparr>ss_last_request_id := n\<rparr>) = trusted cfg codec st"
  "trusted cfg codec (st\<lparr>ss_window_edge_spans := n\<rparr>) = trusted cfg codec st"
  "trusted cfg codec (st\<lparr>ss_poisoned := p\<rparr>) = trusted cfg codec st"
  by (simp_all add: trusted_def)

lemma scan_window_cases:
  assumes "scan_window os cfg codec rx deadline call_ms cap window_start window unmapped st = (r, st')"
  obtains (late) "r = Inl (Timeout call_ms)" "st' = st\<lparr>ss_tick := ss_tick st + 1\<rparr>"
    | (failed) e ident d n where "r = Inl e"
        "classify os cfg codec ident window d call_ms (st\<lparr>ss_tick := ss_tick st + 2, ss_last_request_id := n\<rparr>) = (Inl e, st')"
    | (answered) response ident d n st3 where
        "classify os cfg codec ident window d call_ms (st\<lparr>ss_tick := ss_tick st + 2, ss_last_request_id := n\<rparr>) = (Inr response, st3)"
        "st' = st3\<lparr>ss_breaker := snd (read_response (length window) cap response (ss_breaker st3))\<rparr>"
        "r = (case fst (read_response (length window) cap response (ss_breaker st3)) of
                Inl e \<Rightarrow> Inl e
              | Inr found \<Rightarrow>
                  Inr (rebase (regex_detect rx window @ fst (map_labels found unmapped)) window_start,
                       snd (map_labels found unmapped)))"
proof -
  define n where "n = saturating_add (ss_last_request_id st) 1"
  define ident where "ident = str_bytes (''c-'' @ show_nat (unat n))"
  define ms where "ms = window_allowance_ms cfg (length window) (nat (deadline - os_clock os (ss_tick st)))"
  define d where "d = deadline_after (os_clock os (ss_tick st + 1)) ms"
  obtain c st3 where x: "classify os cfg codec ident window d call_ms (st\<lparr>ss_tick := ss_tick st + 2, ss_last_request_id := n\<rparr>) = (c, st3)"
    by fastforce
  show thesis
  proof (cases "ms = 0")
    case True
    with assms show thesis by (intro late) (auto simp: scan_window_def Let_def ms_def)
  next
    case False
    with assms x have "(case c of Inl e \<Rightarrow> (Inl e, st3)
       | Inr response \<Rightarrow>
             (case read_response (length window) cap response (ss_breaker st3) of
                (Inl e, b) \<Rightarrow> (Inl e, st3\<lparr>ss_breaker := b\<rparr>)
              | (Inr found, b) \<Rightarrow>
                  (let (mapped, unmapped') = map_labels found unmapped in
                   (Inr (rebase (regex_detect rx window @ mapped) window_start, unmapped'), st3\<lparr>ss_breaker := b\<rparr>)))) = (r, st')"
      by (simp add: scan_window_def next_request_id_def Let_def n_def ident_def ms_def d_def)
    with x failed [of _ ident d n] answered [of ident d n _ st3] show thesis
      by (cases c) (auto split: prod.splits sum.splits)
  qed
qed

lemma scan_window_trusted:
  assumes "trusted cfg codec st"
  shows "trusted cfg codec (snd (scan_window os cfg codec rx deadline call_ms cap window_start window unmapped st))"
proof -
  obtain r st' where x: "scan_window os cfg codec rx deadline call_ms cap window_start window unmapped st = (r, st')"
    by fastforce
  show ?thesis
    unfolding x snd_conv using x assms by (cases rule: scan_window_cases) (auto dest: classify_trusted [rotated])
qed

lemma scan_loop_trusted:
  "trusted cfg codec st \<Longrightarrow>
   trusted cfg codec (snd (scan_loop os cfg codec rx deadline call_ms cap ws collected unmapped st))"
proof (induction os cfg codec rx deadline call_ms cap ws collected unmapped st rule: scan_loop.induct)
  case (2 os cfg codec rx deadline call_ms cap window_start window ws collected unmapped st)
  show ?case
    using 2 scan_window_trusted [OF 2(2), of os rx deadline call_ms cap window_start window unmapped]
    by (auto split: prod.splits sum.splits)
qed simp

lemma sidecar_detect_trusted:
  assumes "trusted cfg codec st"
  shows "trusted cfg codec (snd (sidecar_detect os cfg codec rx body budget st))"
proof -
  have "trusted cfg codec (sidecar_lock st)"
    using assms drop_stream_trusted by (simp add: sidecar_lock_def)
  then have "trusted cfg codec (snd (sidecar_scan os cfg codec rx body budget deadline call_ms (sidecar_lock st\<lparr>ss_tick := t\<rparr>)))"
    for deadline call_ms t
    using scan_loop_trusted [of cfg codec "sidecar_lock st\<lparr>ss_tick := t\<rparr>"]
    by (auto simp: sidecar_scan_def Let_def split: prod.splits sum.splits)
       (metis snd_conv trusted_updates(4))+
  with \<open>trusted cfg codec (sidecar_lock st)\<close> show ?thesis
    by (auto simp: sidecar_detect_def Let_def split: option.splits prod.splits sum.splits)
       (metis snd_conv trusted_updates)+
qed

definition sidecar_calls ::
  "os \<Rightarrow> sidecar_config \<Rightarrow> wire_codec \<Rightarrow> find_iter \<Rightarrow> (bytes \<times> budget) list \<Rightarrow> sidecar_state \<Rightarrow> sidecar_state" where
  "sidecar_calls os cfg codec rx calls st =
     fold (\<lambda>(body, budget) st. snd (sidecar_detect os cfg codec rx body budget st)) calls st"

definition conns :: "sidecar_state \<Rightarrow> conn list" where
  "conns st = (case ss_stream st of None \<Rightarrow> [] | Some c \<Rightarrow> [c]) @ ss_dropped st"

lemma sidecar_calls_trusted: "trusted cfg codec st \<Longrightarrow> trusted cfg codec (sidecar_calls os cfg codec rx calls st)"
  unfolding sidecar_calls_def by (induction calls arbitrary: st) (auto intro: sidecar_detect_trusted)

lemma trusted_conns: "trusted cfg codec st \<Longrightarrow> list_all (\<lambda>c. cn_sent c = [] \<or> pinned cfg codec c) (conns st)"
  by (auto simp: trusted_def conns_def list_all_iff split: option.splits)

lemma drop_stream_keeps [simp]:
  "ss_latched (drop_stream st) = ss_latched st" "ss_connects (drop_stream st) = ss_connects st"
  "set (conns (drop_stream st)) = set (conns st)"
  by (auto simp: drop_stream_def conns_def split: option.splits)

lemma sidecar_lock_keeps [simp]:
  "ss_latched (sidecar_lock st) = ss_latched st" "ss_connects (sidecar_lock st) = ss_connects st"
  "set (conns (sidecar_lock st)) = set (conns st)"
  by (simp_all add: sidecar_lock_def)

lemma sidecar_detect_latched:
  "ss_latched st = Some reason \<Longrightarrow>
   sidecar_detect os cfg codec rx body budget st = (Answered (Inl (Unavailable reason)), sidecar_lock st)"
  by (simp add: sidecar_detect_def Let_def)


definition sample_os :: os where
  "sample_os = \<lparr>os_clock = (\<lambda>_. 0), os_arm = (\<lambda>_. True)\<rparr>"

definition sample_sidecar :: sidecar_config where
  "sample_sidecar = sidecar_config_new ''s'' ''b'' ''m''"

text \<open>The message \<open>[1]\<close> is the pinned handshake, \<open>[2]\<close> another one, and \<open>[3]\<close> the answer to the first request.\<close>

definition sample_codec :: wire_codec where
  "sample_codec = \<lparr>wc_request = (\<lambda>ident body. Some (ident @ body)),
     wc_response = (\<lambda>msg. if msg = [3] then Some \<lparr>cr_id = str_bytes ''c-1'', cr_spans = Some
         [\<lparr>ws_label = ''EMAIL'', ws_start = 0, ws_end = 2, ws_score = Finite 1\<rparr>], cr_status = WireOk\<rparr> else None),
     wc_handshake = (\<lambda>msg. if msg \<in> set [[1], [2]] then Some \<lparr>hs_binary_sha256 = (if msg = [1] then ''b'' else ''x''),
         hs_model_sha256 = ''m'', hs_mapping_v = 0, hs_labels_v = [], hs_score_mode = DEFAULT_SCORE_MODE, hs_ready = True\<rparr>
       else None)\<rparr>"

definition sample_connects :: "connect_outcome list" where
  "sample_connects = [ConnectAccepted [Chunk (frame [1])] [], ConnectAccepted [Chunk (frame [2])] []]"

definition sample_budget :: budget where
  "sample_budget = \<lparr>bg_timeout_ms = 0, bg_max_input_bytes = 0\<rparr>"

lemmas sample_defs = sample_os_def sample_sidecar_def sample_codec_def sample_connects_def sample_budget_def
  sidecar_config_new_def DEFAULT_SCORE_MODE_def DEFAULT_MAX_INPUT_BYTES_def DEFAULT_BREAKER_N_def
  DEFAULT_WINDOW_OVERLAP_BYTES_def DEFAULT_TIMEOUT_MS_SYNC_PER_KIB_def DEFAULT_COOLDOWN_S_def

lemmas sidecar_eval = sidecar_detect_def sidecar_lock_def sidecar_scan_def scan_window_def next_request_id_def
  classify_def exchange_def exchange_inner_def open_stream_def read_handshake_def check_handshake_def
  client_read_frame_def client_write_frame_def read_exact.simps write_all.simps arm_def frame_def to_be_bytes_def
  from_be_bytes_def drop_stream_def read_response_def deadline_after_def instant_add_def window_allowance_ms_def
  size_derived_ms_def call_allowance_ms_def effective_ceiling_def saturating_add_def saturating_mul_def
  sb_is_open_def sb_default_def sb_record_failure_def sb_record_round_trip_def sb_record_success_def
  MAX_RESPONSE_FRAME_BYTES_def MIN_CALL_TIMEOUT_MS_def MAX_CALL_TIMEOUT_MS_def SUPPORTED_MAPPING_V_MIN_def
  is_input_too_large_def str_bytes_def Let_def

lemma sample_windows_two: "windows (sidecar_plan sample_sidecar sample_budget) [97, 98] = [(0, [97, 98])]"
  by (simp add: windows_def sidecar_plan_def sample_defs effective_ceiling_def windows_from.simps window_end_def
      cut_back.simps is_char_boundary_def Let_def slice_def)

definition sample_start :: "connect_outcome list \<Rightarrow> sidecar_state" where
  "sample_start cs = \<lparr>ss_stream = None, ss_breaker = sb_default, ss_latched = None, ss_window_edge_spans = 0,
     ss_announced = None, ss_last_request_id = 0, ss_poisoned = False, ss_tick = 0, ss_connects = cs, ss_dropped = []\<rparr>"

lemma sample_connect: "sidecar_connect sample_sidecar cs = Inr (sample_start cs)"
  by (simp add: sidecar_connect_def validate_config_def sample_defs sample_start_def)

lemma show_nat_1: "show_nat (Suc 0) = ''1''"
  by code_simp

definition sample_refused :: sidecar_state where
  "sample_refused =
     snd (sidecar_detect sample_os sample_sidecar sample_codec (\<lambda>_ _. []) [97, 98] sample_budget (sample_start sample_connects))"

lemma sample_refused_state:
  "map cn_sent (conns sample_refused) = [frame (str_bytes ''c-1'' @ [97, 98]), []]
   \<and> ss_latched sample_refused = Some HANDSHAKE_BINARY_DIVERGED"
  unfolding sample_refused_def
  by (simp add: sidecar_detect_def sample_start_def sidecar_lock_def Let_def sb_is_open_def sb_default_def
      sidecar_scan_def sample_windows_two)
    (simp add: sidecar_eval sample_defs sample_start_def show_nat_1 conns_def)


subsection \<open>An answer means every window was scanned\<close>

text \<open>An answer the client may act on: it decodes to a completed scan of the request that carried this text.\<close>

definition answers_window :: "wire_codec \<Rightarrow> bytes \<Rightarrow> classify_response \<Rightarrow> bool" where
  "answers_window codec window response \<longleftrightarrow>
     (\<exists>payload reply. wc_request codec (cr_id response) window = Some payload \<and> wc_response codec reply = Some response)
     \<and> cr_status response = WireOk \<and> cr_spans response \<noteq> None"

definition window_spans :: "find_iter \<Rightarrow> nat \<times> bytes \<Rightarrow> classify_response \<Rightarrow> pii_span list" where
  "window_spans rx w response =
     rebase (regex_detect rx (snd w) @ List.map_filter wire_to_span (the (cr_spans response))) (fst w)"

lemma exchange_Inr:
  assumes "exchange os cfg codec ident payload deadline st = (Inr response, st')"
  shows "cr_id response = ident \<and> (\<exists>reply. wc_response codec reply = Some response)"
  using assms
  by (auto simp: exchange_def exchange_inner_def Let_def split: prod.splits option.splits sum.splits if_splits)

lemma classify_Inr:
  assumes "classify os cfg codec ident window deadline ms st = (Inr response, st')"
  shows "cr_id response = ident \<and> (\<exists>reply. wc_response codec reply = Some response)
    \<and> (\<exists>payload. wc_request codec ident window = Some payload)"
  using assms by (auto simp: classify_def split: option.splits prod.splits sum.splits if_splits dest: exchange_Inr)

lemma read_response_Inr:
  "fst (read_response n cap response b) = Inr found \<Longrightarrow> cr_status response = WireOk \<and> cr_spans response = Some found"
  by (auto simp: read_response_def split: wire_status.splits option.splits if_splits)

lemma scan_window_Inr:
  assumes "scan_window os cfg codec rx deadline call_ms cap window_start window unmapped st = (Inr (spans, n), st')"
  shows "\<exists>response. answers_window codec window response \<and> spans = window_spans rx (window_start, window) response"
  using assms
proof (cases rule: scan_window_cases)
  case (answered response ident d n st3)
  from answered(3) obtain found where f: "fst (read_response (length window) cap response (ss_breaker st3)) = Inr found"
    and sp: "spans = rebase (regex_detect rx window @ fst (map_labels found unmapped)) window_start"
    by (auto split: sum.splits)
  from classify_Inr [OF answered(1)] read_response_Inr [OF f] sp show ?thesis
    by (auto simp: answers_window_def window_spans_def map_labels_def)
qed simp_all

lemma scan_loop_Inr:
  "scan_loop os cfg codec rx deadline call_ms cap ws collected unmapped st = (Inr (spans, n), st') \<Longrightarrow>
   \<exists>responses. list_all2 (answers_window codec) (map snd ws) responses
     \<and> spans = collected @ concat (map2 (window_spans rx) ws responses)"
proof (induction os cfg codec rx deadline call_ms cap ws collected unmapped st rule: scan_loop.induct)
  case (2 os cfg codec rx deadline call_ms cap window_start window ws collected unmapped st)
  from 2(2) obtain sp un st1 where
    w: "scan_window os cfg codec rx deadline call_ms cap window_start window unmapped st = (Inr (sp, un), st1)"
    and l: "scan_loop os cfg codec rx deadline call_ms cap ws (collected @ sp) un st1 = (Inr (spans, n), st')"
    by (auto split: prod.splits sum.splits)
  obtain r where "answers_window codec window r" "sp = window_spans rx (window_start, window) r"
    using scan_window_Inr [OF w] by blast
  moreover obtain rs where "list_all2 (answers_window codec) (map snd ws) rs"
    "spans = (collected @ sp) @ concat (map2 (window_spans rx) ws rs)"
    using 2(1) [OF w [symmetric] refl refl l] by blast
  ultimately show ?case by (intro exI [of _ "r # rs"]) simp
qed simp

lemma sidecar_detect_Inr:
  assumes "sidecar_detect os cfg codec rx body budget st = (Answered (Inr det), st')"
  obtains responses where
    "list_all2 (answers_window codec) (map snd (windows (sidecar_plan cfg budget) body)) responses"
    "dt_spans det = fst (validate_and_merge body (concat (map2 (window_spans rx) (windows (sidecar_plan cfg budget) body) responses)))"
    "windows (sidecar_plan cfg budget) body \<noteq> []"
proof -
  obtain deadline call_ms st1 st2 where
    "sidecar_scan os cfg codec rx body budget deadline call_ms st1 = (Inr det, st2)"
    using assms by (auto simp: sidecar_detect_def Let_def split: option.splits if_splits prod.splits sum.splits)
  then obtain collected n st3 where
    "scan_loop os cfg codec rx deadline call_ms (effective_ceiling cfg (bg_max_input_bytes budget))
       (windows (sidecar_plan cfg budget) body) [] 0 st1 = (Inr (collected, n), st3)"
    "dt_spans det = fst (validate_and_merge body collected)" "windows (sidecar_plan cfg budget) body \<noteq> []"
    by (auto simp: sidecar_scan_def Let_def split: if_splits prod.splits sum.splits)
  with that show thesis by (auto dest: scan_loop_Inr)
qed


text \<open>One window, one EMAIL span over its two bytes.\<close>

definition sample_email :: pii_span where
  "sample_email = \<lparr>sp_start = 0, sp_len = 2, sp_category = Email, sp_score = Finite 1\<rparr>"

lemma sample_found:
  "rebase (regex_detect (\<lambda>_ _. []) [97, 98]
     @ fst (map_labels [\<lparr>ws_label = ''EMAIL'', ws_start = 0, ws_end = 2, ws_score = Finite 1\<rparr>] 0)) 0 = [sample_email]"
  by (simp add: regex_detect_def candidate_spans_def pattern_spans_def map_labels_def wire_to_span_def category_for_label_def
      rebase_def sample_email_def usize_saturating_add_def USIZE_MAX_def List.map_filter_def regex_patterns_def)

lemma sample_email_merged: "fst (validate_and_merge [97, 98] [sample_email]) = [sample_email]"
  by (simp add: validate_and_merge_def sample_email_def checked_add_def USIZE_MAX_def is_char_boundary_def stats_zero_def)

lemma sample_answer:
  "\<exists>st' det. sidecar_detect sample_os sample_sidecar sample_codec (\<lambda>_ _. []) [97, 98] sample_budget
     (sample_start [ConnectAccepted [Chunk (frame [1]), Chunk (frame [3])] []]) = (Answered (Inr det), st')
   \<and> dt_spans det = [sample_email]"
  by (simp add: sidecar_detect_def sample_start_def sidecar_lock_def Let_def sb_is_open_def sb_default_def
      sidecar_scan_def sample_windows_two)
    (simp add: sidecar_eval sample_defs sample_start_def show_nat_1 case_prod_beta sample_found sample_email_merged)


end
