(* ===== verification/Sidecar_Run.thy ===== *)
theory Sidecar_Run
  imports Sidecar_Trust
begin

text \<open>
  The client of the detection sidecar and the sidecar together: what \<open>SidecarDetector::detect\<close> of
  \<open>gradatum-privacy/src/sidecar.rs\<close> returns when the process behind the socket is the server of
  \<open>tools/privacy-sidecar\<close> with the pinned build, the pinned model and a working engine.
\<close>

subsection \<open>The server's half\<close>

definition reply_of :: "json_lib \<Rightarrow> pf_engine \<Rightarrow> bytes \<Rightarrow> bytes \<Rightarrow> bytes" where
  "reply_of lib pf ident window =
     (let spans = the (engine_classify pf window) in
      jl_dump lib (response_json ident (spans_to_json spans (min kMaxResponseSpans (length spans))) ''ok''))"

text \<open>The span that the client reads where the server wrote one with offsets that are not negative.\<close>

definition wire_of :: "engine_span \<Rightarrow> wire_span" where
  "wire_of s = \<lparr>ws_label = es_label s, ws_start = nat (es_start s), ws_end = nat (es_end s), ws_score = es_score s\<rparr>"

text \<open>What the two JSON libraries do with the messages of one request: the server reads the identifier and the text
  the client wrote, and the client reads the spans the server wrote.\<close>

definition understood :: "wire_codec \<Rightarrow> json_lib \<Rightarrow> server_config \<Rightarrow> pf_engine \<Rightarrow> bytes \<Rightarrow> bytes \<Rightarrow> bool" where
  "understood codec lib scfg pf ident window \<longleftrightarrow>
     (\<exists>payload req spans. wc_request codec ident window = Some payload \<and> payload \<noteq> [] \<and> length payload \<le> kMaxFrameBytes
        \<and> json_depth_within payload kMaxJsonDepth \<and> jl_parse lib payload = Some (JObj req)
        \<and> map_of req ''id'' = Some (JStr ident) \<and> map_of req ''body'' = Some (JStr window)
        \<and> length window \<le> unat (sv_max_input_bytes scfg)
        \<and> engine_classify pf window = Some spans \<and> list_all (\<lambda>s. 0 \<le> es_start s \<and> es_start s \<le> es_end s) spans
        \<and> length (reply_of lib pf ident window) \<le> kMaxResponseBytes
        \<and> wc_response codec (reply_of lib pf ident window)
            = Some \<lparr>cr_id = ident, cr_spans = Some (map wire_of (take kMaxResponseSpans spans)), cr_status = WireOk\<rparr>)"

lemma take_min_length: "take (min n (length xs)) xs = take n xs"
  by (simp add: min_def)

lemma handle_payload_understood:
  assumes "understood codec lib scfg pf ident window" "is_valid_id ident" "wc_request codec ident window = Some payload"
  shows "\<exists>t es named. handle_payload scfg lib pf clk tick payload = (t, Reply es (reply_of lib pf ident window) named)"
proof -
  from assms obtain req spans where "json_depth_within payload kMaxJsonDepth" "jl_parse lib payload = Some (JObj req)"
    "map_of req ''id'' = Some (JStr ident)" "map_of req ''body'' = Some (JStr window)"
    "\<not> unat (sv_max_input_bytes scfg) < length window" "engine_classify pf window = Some spans"
    by (auto simp: understood_def)
  with assms(2) show ?thesis
    by (auto simp: handle_payload_def handle_body_def reply_of_def Let_def min_def)
qed

text \<open>The requests of a call: one per window, with the identifiers the client counts up.\<close>

fun request_ids :: "nat \<Rightarrow> 64 word \<Rightarrow> bytes list" where
  "request_ids 0 n = []"
| "request_ids (Suc k) n =
     (let n' = saturating_add n 1 in str_bytes (''c-'' @ show_nat (unat n')) # request_ids k n')"

lemma length_request_ids [simp]: "length (request_ids k n) = k"
  by (induction k n rule: request_ids.induct) (simp_all add: Let_def)

lemma length_show_nat: "n < 10 ^ k \<Longrightarrow> 0 < k \<Longrightarrow> length (show_nat n) \<le> k"
proof (induction k arbitrary: n)
  case (Suc k)
  show ?case
  proof (cases "n < 10")
    case False
    with Suc have "n div 10 < 10 ^ k" "0 < k" by (cases k, auto)+
    with Suc.IH [of "n div 10"] False show ?thesis by (subst show_nat.simps) simp
  qed (simp add: show_nat.simps)
qed simp

lemma digit_is_safe:
  assumes "48 \<le> (of_char c :: nat)" "of_char c \<le> (57 :: nat)"
  shows "safe_id_byte (of_char c)"
proof -
  have "(of_char c :: 8 word) = word_of_nat (of_char c)" by (rule of_nat_of_char [symmetric])
  then have "unat (of_char c :: 8 word) = of_char c mod 256" by (simp only: unat_of_nat) simp
  then have "unat (of_char c :: 8 word) = of_char c" using nat_of_char_less_256 [of c] by (simp only: mod_less)
  with assms show ?thesis by (simp add: safe_id_byte_def between_def word_le_nat_alt)
qed

lemma client_id_valid: "is_valid_id (str_bytes (''c-'' @ show_nat (unat (n :: 64 word))))"
proof -
  have "unat n < 10 ^ 20" using unsigned_less [of n] by (rule less_trans) simp
  then have "length (show_nat (unat n)) \<le> 20" by (rule length_show_nat) simp
  moreover have "safe_id_byte (of_char c)" if "c \<in> set (show_nat (unat n))" for c
    using show_nat_digits [OF that] by (auto intro: digit_is_safe)
  moreover have "safe_id_byte (of_char (CHR ''c''))" "safe_id_byte (of_char (CHR ''-''))"
    by (simp_all add: safe_id_byte_def between_def)
  ultimately show ?thesis
    by (auto simp: is_valid_id_def str_bytes_def kMaxIdBytes_def list_all_iff simp del: of_char_Char)
qed

lemma request_ids_valid: "ident \<in> set (request_ids k n) \<Longrightarrow> is_valid_id ident"
  by (induction k n rule: request_ids.induct) (auto simp: Let_def client_id_valid [simplified])

definition exchanges :: "(nat \<times> bytes) list \<Rightarrow> 64 word \<Rightarrow> (bytes \<times> bytes) list" where
  "exchanges ws n = zip (request_ids (length ws) n) (map snd ws)"

definition requests :: "wire_codec \<Rightarrow> (nat \<times> bytes) list \<Rightarrow> 64 word \<Rightarrow> bytes list" where
  "requests codec ws n = map (\<lambda>(ident, window). the (wc_request codec ident window)) (exchanges ws n)"

definition replies :: "json_lib \<Rightarrow> pf_engine \<Rightarrow> (nat \<times> bytes) list \<Rightarrow> 64 word \<Rightarrow> bytes list" where
  "replies lib pf ws n = map (\<lambda>(ident, window). reply_of lib pf ident window) (exchanges ws n)"

lemma exchanges_Nil [simp]: "exchanges [] n = []" "requests codec [] n = []" "replies lib pf [] n = []"
  by (simp_all add: exchanges_def requests_def replies_def)

lemma exchanges_Cons:
  "exchanges (w # ws) n =
     (str_bytes (''c-'' @ show_nat (unat (saturating_add n 1))), snd w) # exchanges ws (saturating_add n 1)"
  by (simp add: exchanges_def Let_def)

lemma session_answers:
  "list_all (\<lambda>(ident, window). understood codec lib scfg pf ident window \<and> is_valid_id ident) xs \<Longrightarrow>
   snd (session scfg lib pf clk tick (map (\<lambda>(ident, window). the (wc_request codec ident window)) xs))
     = map (\<lambda>(ident, window). reply_of lib pf ident window) xs"
proof (induction xs arbitrary: tick)
  case (Cons x xs)
  obtain ident window where x: "x = (ident, window)" by fastforce
  with Cons.prems obtain payload where p: "wc_request codec ident window = Some payload"
    "\<not> kMaxResponseBytes < length (reply_of lib pf ident window)"
    by (auto simp: understood_def)
  obtain t es named where h: "handle_payload scfg lib pf clk tick payload = (t, Reply es (reply_of lib pf ident window) named)"
    using handle_payload_understood [of codec lib scfg pf ident window payload] Cons.prems x p by fastforce
  obtain lines answers where
    r: "session scfg lib pf clk (t + length es) (map (\<lambda>(ident, window). the (wc_request codec ident window)) xs) = (lines, answers)"
    by fastforce
  have "answers = map (\<lambda>(ident, window). reply_of lib pf ident window) xs"
    using Cons.IH [of "t + length es"] Cons.prems r by simp
  with x p h r show ?case by simp
qed simp

lemma handle_connection_answers:
  assumes "delivers sevs (requests codec ws n)" "length (jl_dump lib (handshake_json scfg)) \<le> kMaxResponseBytes"
    "list_all (\<lambda>(ident, window). understood codec lib scfg pf ident window) (exchanges ws n)"
  shows "snd (handle_connection scfg lib pf clk tick sevs []) =
    frame (jl_dump lib (handshake_json scfg)) @ concat (map frame (replies lib pf ws n))"
proof -
  have "list_all (\<lambda>(ident, window). understood codec lib scfg pf ident window \<and> is_valid_id ident) (exchanges ws n)"
    using assms(3) by (auto simp: list_all_iff exchanges_def dest: set_zip_leftD request_ids_valid)
  note s = session_answers [OF this, of clk "tick + 1"]
  then show ?thesis
    using assms(2)
    by (auto simp: handle_connection_def write_frame_all serve_requests_session [OF assms(1)] requests_def replies_def
        split: prod.splits)
qed

subsection \<open>The client's half\<close>

text \<open>The client can go on: either its stream is open and the peer's next bytes are \<open>rest\<close>, or the next connection
  attempt finds a peer that sends the handshake \<open>greeting\<close> first. Writes are accepted whole.\<close>

definition ready :: "bytes \<Rightarrow> bytes \<Rightarrow> bytes \<Rightarrow> sidecar_state \<Rightarrow> bool" where
  "ready greeting sent rest st \<longleftrightarrow>
     ss_dropped st = [] \<and> (case ss_stream st of
       Some c \<Rightarrow> readable (cn_in c) = rest \<and> cn_wr c = [] \<and> cn_sent c = sent
     | None \<Rightarrow> sent = [] \<and> (\<exists>evs cs. ss_connects st = ConnectAccepted evs [] # cs \<and> readable evs = frame greeting @ rest))"

lemma ready_updates [simp]:
  "ready greeting sent rest (st\<lparr>ss_tick := t\<rparr>) = ready greeting sent rest st"
  "ready greeting sent rest (st\<lparr>ss_breaker := b\<rparr>) = ready greeting sent rest st"
  "ready greeting sent rest (st\<lparr>ss_last_request_id := n\<rparr>) = ready greeting sent rest st"
  "ready greeting sent rest (st\<lparr>ss_window_edge_spans := n\<rparr>) = ready greeting sent rest st"
  by (simp_all add: ready_def split: option.split)

lemma open_stream_ready:
  assumes "in_time os deadline" "ready greeting sent rest st" "length greeting \<le> MAX_RESPONSE_FRAME_BYTES"
    "wc_handshake codec greeting = Some hs" "check_handshake cfg hs = Inr ()"
  shows "\<exists>st' c. open_stream os cfg codec deadline st = (None, st') \<and> ready greeting sent rest st' \<and> ss_stream st' = Some c
    \<and> ss_last_request_id st' = ss_last_request_id st"
proof (cases "ss_stream st")
  case None
  with assms(2) obtain evs cs where c: "ss_connects st = ConnectAccepted evs [] # cs" "readable evs = frame greeting @ rest"
    by (auto simp: ready_def)
  from client_read_frame_of_frame [OF assms(1) c(2) assms(3)] obtain t' evs' where
    "client_read_frame os deadline (ss_tick st) evs = (Inr greeting, t', evs')" "readable evs' = rest"
    by blast
  with None c assms(2,4,5) show ?thesis
    by (auto simp: open_stream_def read_handshake_def ready_def Let_def)
qed (use assms in \<open>auto simp: open_stream_def\<close>)

lemma write_all_accepted: "in_time os deadline \<Longrightarrow> \<exists>t. write_all os deadline out src tick [] = (None, out @ src, t, [])"
  by (cases "src = []")
    (simp_all add: write_all.simps [of os deadline out src] write_all.simps [of os deadline _ "[]"] arm_in_time)

lemma client_write_frame_accepted:
  assumes "in_time os deadline" "length payload < 2 ^ 32"
  shows "\<exists>t. client_write_frame os deadline payload tick [] = (None, frame payload, t, [])"
proof -
  obtain t1 where "write_all os deadline [] (to_be_bytes (word_of_nat (length payload))) tick []
      = (None, to_be_bytes (word_of_nat (length payload)), t1, [])"
    using write_all_accepted [OF assms(1), of "[]"] by fastforce
  moreover obtain t2 where "write_all os deadline (to_be_bytes (word_of_nat (length payload))) payload t1 []
      = (None, frame payload, t2, [])"
    using write_all_accepted [OF assms(1)] by (fastforce simp: frame_def)
  ultimately show ?thesis using assms(2) by (simp add: client_write_frame_def)
qed

lemma exchange_ready:
  assumes "in_time os deadline" "ready greeting sent (frame reply @ rest) st" "length greeting \<le> MAX_RESPONSE_FRAME_BYTES"
    "wc_handshake codec greeting = Some hs" "check_handshake cfg hs = Inr ()"
    "length payload < 2 ^ 32" "length reply \<le> MAX_RESPONSE_FRAME_BYTES"
    "wc_response codec reply = Some response" "cr_id response = ident"
  shows "\<exists>st'. exchange os cfg codec ident payload deadline st = (Inr response, st')
    \<and> ready greeting (sent @ frame payload) rest st' \<and> ss_last_request_id st' = ss_last_request_id st"
proof -
  obtain st1 c where o: "open_stream os cfg codec deadline st = (None, st1)" "ready greeting sent (frame reply @ rest) st1"
    "ss_stream st1 = Some c" "ss_last_request_id st1 = ss_last_request_id st"
    using open_stream_ready [OF assms(1-5)] by blast
  then have c: "readable (cn_in c) = frame reply @ rest" "cn_wr c = []" "cn_sent c = sent" "ss_dropped st1 = []"
    by (auto simp: ready_def)
  obtain t2 where w: "client_write_frame os deadline payload (ss_tick st1) [] = (None, frame payload, t2, [])"
    using client_write_frame_accepted [OF assms(1,6)] by blast
  obtain t3 evs3 where "client_read_frame os deadline t2 (cn_in c) = (Inr reply, t3, evs3)" "readable evs3 = rest"
    using client_read_frame_of_frame [OF assms(1) c(1) assms(7)] by blast
  with o c w assms(8,9) show ?thesis
    by (simp add: exchange_def exchange_inner_def Let_def ready_def)
qed

text \<open>A run in which all clock readings fall within one second, and every timeout can be armed.\<close>

definition brisk :: "os \<Rightarrow> time \<Rightarrow> bool" where
  "brisk os now \<longleftrightarrow> 0 \<le> now \<and> now < 2 ^ 62
     \<and> (\<forall>t. now \<le> os_clock os t \<and> os_clock os t < now + 1000000000 \<and> os_arm os t)"

definition call_deadline :: "time \<Rightarrow> time \<Rightarrow> bool" where
  "call_deadline now deadline \<longleftrightarrow> now + 2000000000 \<le> deadline \<and> deadline < now + 86402 * 1000000000"

lemma size_derived_ge: "2000 \<le> unat (size_derived_ms cfg n)"
  by (simp add: size_derived_ms_def MIN_CALL_TIMEOUT_MS_def sat_simps)

lemma unat_min: "unat (min a b) = min (unat a) (unat b)" for a b :: "64 word"
  by (simp add: min_def word_le_nat_alt)

lemma window_allowance_bounds:
  assumes "1000000000 \<le> remaining" "remaining < 90000 * 1000000000"
  shows "1000 \<le> unat (window_allowance_ms cfg n remaining) \<and> unat (window_allowance_ms cfg n remaining) \<le> 90000000"
proof -
  have "remaining div 1000000 < 90000000" "1000 \<le> remaining div 1000000" using assms by simp_all
  then show ?thesis
    using size_derived_ge [of cfg n] by (simp add: window_allowance_ms_def unat_min unat_of_nat Let_def)
qed

lemma call_allowance_bounds:
  assumes "budget_ms = 0 \<or> 2000 \<le> budget_ms"
  shows "2000 \<le> unat (call_allowance_ms cfg n budget_ms) \<and> unat (call_allowance_ms cfg n budget_ms) \<le> 86400000"
  using assms size_derived_ge [of cfg n]
  by (auto simp: call_allowance_ms_def MAX_CALL_TIMEOUT_MS_def unat_min Let_def word_le_nat_alt)

lemma deadline_after_brisk:
  assumes "brisk os now" "unat ms \<le> 90000000"
  shows "deadline_after (os_clock os t) ms = os_clock os t + int (unat ms) * 1000000"
proof -
  have "os_clock os t < 2 ^ 62 + 1000000000" using assms(1) by (auto simp: brisk_def intro: less_trans)
  moreover have "int (unat ms * 1000000) \<le> int 90000000000000" using assms(2) by (intro of_nat_mono) linarith
  moreover have "2 ^ 62 + 1000000000 + int 90000000000000 < 2 ^ 63 * 1000000000" by simp
  ultimately have "os_clock os t + int (unat ms * 1000000) < 2 ^ 63 * 1000000000" by linarith
  then show ?thesis by (simp add: deadline_after_def instant_add_def)
qed

lemma brisk_call_deadline:
  assumes "brisk os now" "budget_ms = 0 \<or> 2000 \<le> budget_ms"
  shows "call_deadline now (deadline_after (os_clock os t) (call_allowance_ms cfg n budget_ms))"
proof -
  note c = call_allowance_bounds [OF assms(2), of cfg n]
  then have "deadline_after (os_clock os t) (call_allowance_ms cfg n budget_ms) =
      os_clock os t + int (unat (call_allowance_ms cfg n budget_ms)) * 1000000"
    using deadline_after_brisk [OF assms(1)] by simp
  moreover have "now \<le> os_clock os t" "os_clock os t < now + 1000000000" using assms(1) by (auto simp: brisk_def)
  ultimately show ?thesis using c unfolding call_deadline_def by linarith
qed

lemma brisk_window:
  fixes cfg
  assumes "brisk os now" "call_deadline now deadline"
  defines "ms n t \<equiv> window_allowance_ms cfg n (nat (deadline - os_clock os t))"
  shows "ms n t \<noteq> 0" "in_time os (deadline_after (os_clock os t') (ms n t))"
proof -
  have clk: "now \<le> os_clock os x" "os_clock os x < now + 1000000000" for x using assms(1) by (auto simp: brisk_def)
  have b: "1000 \<le> unat (ms n t) \<and> unat (ms n t) \<le> 90000000"
    unfolding ms_def using clk [of t] assms(2) by (intro window_allowance_bounds) (auto simp: call_deadline_def)
  then show "ms n t \<noteq> 0" by auto
  have "deadline_after (os_clock os t') (ms n t) = os_clock os t' + int (unat (ms n t)) * 1000000"
    using b by (intro deadline_after_brisk [OF assms(1)]) simp
  with b clk [of t'] have "now + 1000000000 \<le> deadline_after (os_clock os t') (ms n t)" by linarith
  with assms(1) show "in_time os (deadline_after (os_clock os t') (ms n t))"
    by (auto simp: in_time_def brisk_def intro: less_le_trans)
qed

text \<open>What the run should find in one window: the matches of the patterns and the first entities of the engine.\<close>

definition expected_spans :: "find_iter \<Rightarrow> pf_engine \<Rightarrow> nat \<times> bytes \<Rightarrow> pii_span list" where
  "expected_spans rx pf w =
     rebase (regex_detect rx (snd w)
       @ List.map_filter wire_to_span (map wire_of (take kMaxResponseSpans (the (engine_classify pf (snd w)))))) (fst w)"

lemma scan_window_ready:
  assumes "brisk os now" "call_deadline now deadline" "length greeting \<le> MAX_RESPONSE_FRAME_BYTES"
    "wc_handshake codec greeting = Some hs" "check_handshake cfg hs = Inr ()"
    and ident: "ident = str_bytes (''c-'' @ show_nat (unat (saturating_add (ss_last_request_id st) 1)))"
    and u: "understood codec lib scfg pf ident window"
    and r: "ready greeting sent (frame (reply_of lib pf ident window) @ rest) st"
  shows "\<exists>n st'. scan_window os cfg codec rx deadline call_ms cap window_start window unmapped st
      = (Inr (expected_spans rx pf (window_start, window), n), st')
    \<and> ready greeting (sent @ frame (the (wc_request codec ident window))) rest st'
    \<and> ss_last_request_id st' = saturating_add (ss_last_request_id st) 1"
proof -
  let ?ms = "window_allowance_ms cfg (length window) (nat (deadline - os_clock os (ss_tick st)))"
  let ?d = "deadline_after (os_clock os (Suc (ss_tick st))) ?ms"
  let ?st = "st\<lparr>ss_tick := Suc (Suc (ss_tick st)), ss_last_request_id := saturating_add (ss_last_request_id st) 1\<rparr>"
  from u obtain payload spans where p: "wc_request codec ident window = Some payload" "length payload \<le> kMaxFrameBytes"
    "engine_classify pf window = Some spans" "list_all (\<lambda>s. 0 \<le> es_start s \<and> es_start s \<le> es_end s) spans"
    "length (reply_of lib pf ident window) \<le> kMaxResponseBytes" "wc_response codec (reply_of lib pf ident window)
       = Some \<lparr>cr_id = ident, cr_spans = Some (map wire_of (take kMaxResponseSpans spans)), cr_status = WireOk\<rparr>"
    by (auto simp: understood_def)
  have "\<exists>st'. exchange os cfg codec ident payload ?d ?st
      = (Inr \<lparr>cr_id = ident, cr_spans = Some (map wire_of (take kMaxResponseSpans spans)), cr_status = WireOk\<rparr>, st')
    \<and> ready greeting (sent @ frame payload) rest st' \<and> ss_last_request_id st' = ss_last_request_id ?st"
    using brisk_window(2) [OF assms(1,2)] r assms(3-5) p
    by (intro exchange_ready) (auto simp: kMaxFrameBytes_def kMaxResponseBytes_def MAX_RESPONSE_FRAME_BYTES_def)
  then obtain st' where x: "exchange os cfg codec ident payload ?d ?st
      = (Inr \<lparr>cr_id = ident, cr_spans = Some (map wire_of (take kMaxResponseSpans spans)), cr_status = WireOk\<rparr>, st')"
    "ready greeting (sent @ frame payload) rest st'" "ss_last_request_id st' = saturating_add (ss_last_request_id st) 1"
    by auto
  have c: "classify os cfg codec ident window ?d call_ms ?st
      = (Inr \<lparr>cr_id = ident, cr_spans = Some (map wire_of (take kMaxResponseSpans spans)), cr_status = WireOk\<rparr>, st')"
    using p(1) x(1) by (simp add: classify_def)
  have "\<not> list_ex (\<lambda>w. ws_end w < ws_start w) (map wire_of (take kMaxResponseSpans spans))"
    using p(4) by (auto simp: list_ex_iff list_all_iff not_less wire_of_def nat_le_eq_zle dest!: in_set_takeD)
  then have "scan_window os cfg codec rx deadline call_ms cap window_start window unmapped st
      = (Inr (expected_spans rx pf (window_start, window), snd (map_labels (map wire_of (take kMaxResponseSpans spans)) unmapped)),
         st'\<lparr>ss_breaker := sb_record_round_trip (ss_breaker st')\<rparr>)"
    using brisk_window(1) [OF assms(1,2), of cfg "length window" "ss_tick st"] c p(3)
    by (simp add: scan_window_def next_request_id_def Let_def ident [symmetric, simplified] read_response_def map_labels_def expected_spans_def)
  with x p(1) show ?thesis by simp
qed

lemma scan_loop_ready:
  assumes "brisk os now" "call_deadline now deadline" "length greeting \<le> MAX_RESPONSE_FRAME_BYTES"
    "wc_handshake codec greeting = Some hs" "check_handshake cfg hs = Inr ()"
  shows "\<lbrakk>ready greeting sent (concat (map frame (replies lib pf ws (ss_last_request_id st)))) st;
      list_all (\<lambda>(ident, window). understood codec lib scfg pf ident window) (exchanges ws (ss_last_request_id st))\<rbrakk> \<Longrightarrow>
    \<exists>n st'. scan_loop os cfg codec rx deadline call_ms cap ws collected unmapped st
        = (Inr (collected @ concat (map (expected_spans rx pf) ws), n), st')
      \<and> ready greeting (sent @ concat (map frame (requests codec ws (ss_last_request_id st)))) [] st'"
proof (induction ws arbitrary: collected unmapped sent st)
  case (Cons w ws)
  obtain window_start window where w: "w = (window_start, window)" by fastforce
  let ?n = "saturating_add (ss_last_request_id st) 1"
  let ?ident = "str_bytes (''c-'' @ show_nat (unat ?n))"
  have "understood codec lib scfg pf ?ident window"
    "ready greeting sent (frame (reply_of lib pf ?ident window) @ concat (map frame (replies lib pf ws ?n))) st"
    using Cons.prems by (simp_all add: exchanges_Cons replies_def w)
  from scan_window_ready [OF assms refl this] obtain n1 st1 where
    s: "scan_window os cfg codec rx deadline call_ms cap window_start window unmapped st
      = (Inr (expected_spans rx pf w, n1), st1)"
    and r: "ready greeting (sent @ frame (the (wc_request codec ?ident window))) (concat (map frame (replies lib pf ws ?n))) st1"
      "ss_last_request_id st1 = ?n"
    unfolding w by blast
  have "list_all (\<lambda>(ident, window). understood codec lib scfg pf ident window) (exchanges ws ?n)"
    using Cons.prems(2) by (simp add: exchanges_Cons)
  from Cons.IH [of _ st1, unfolded r(2), OF r(1) this] obtain n2 st2 where
    l: "scan_loop os cfg codec rx deadline call_ms cap ws (collected @ expected_spans rx pf w) n1 st1
        = (Inr ((collected @ expected_spans rx pf w) @ concat (map (expected_spans rx pf) ws), n2), st2)"
      "ready greeting ((sent @ frame (the (wc_request codec ?ident window))) @ concat (map frame (requests codec ws ?n))) [] st2"
    by blast
  moreover have "requests codec (w # ws) (ss_last_request_id st) = the (wc_request codec ?ident window) # requests codec ws ?n"
    by (simp add: requests_def exchanges_Cons w)
  ultimately show ?case using s w by simp
qed simp

lemma sidecar_detect_ready:
  fixes body
  assumes "brisk os now" "bg_timeout_ms budget = 0 \<or> 2000 \<le> bg_timeout_ms budget"
    "length greeting \<le> MAX_RESPONSE_FRAME_BYTES"
    "wc_handshake codec greeting = Some hs" "check_handshake cfg hs = Inr ()"
    "sidecar_connect cfg [ConnectAccepted evs []] = Inr st"
  defines "ws \<equiv> windows (sidecar_plan cfg budget) body"
  assumes "ws \<noteq> []" "readable evs = frame greeting @ concat (map frame (replies lib pf ws 0))"
    "list_all (\<lambda>(ident, window). understood codec lib scfg pf ident window) (exchanges ws 0)"
  shows "\<exists>det st'. sidecar_detect os cfg codec rx body budget st = (Answered (Inr det), st')
    \<and> dt_spans det = fst (validate_and_merge body (concat (map (expected_spans rx pf) ws)))
    \<and> map cn_sent (conns st') = [concat (map frame (requests codec ws 0))]"
proof -
  have st: "ss_stream st = None" "ss_dropped st = []" "ss_last_request_id st = 0" "ss_latched st = None"
    "ss_poisoned st = False" "ss_breaker st = sb_default" "ss_connects st = [ConnectAccepted evs []]"
    using assms(6) by (auto simp: sidecar_connect_def split: sum.splits)
  let ?ms = "call_allowance_ms cfg (length body) (bg_timeout_ms budget)"
  let ?d = "deadline_after (os_clock os (Suc (ss_tick st))) ?ms"
  let ?st = "st\<lparr>ss_tick := Suc (Suc (ss_tick st))\<rparr>"
  have "ready greeting [] (concat (map frame (replies lib pf ws (ss_last_request_id ?st)))) ?st"
    using st assms(9) by (simp add: ready_def)
  note step = scan_loop_ready [OF assms(1) brisk_call_deadline [OF assms(1,2)] assms(3-5) this, where collected = "[]" and unmapped = 0]
  have "list_all (\<lambda>(ident, window). understood codec lib scfg pf ident window) (exchanges ws (ss_last_request_id ?st))"
    using assms(10) st(3) by simp
  from step [OF this] st(3) obtain n st2 where l: "scan_loop os cfg codec rx ?d ?ms (effective_ceiling cfg (bg_max_input_bytes budget)) ws [] 0 ?st
        = (Inr (concat (map (expected_spans rx pf) ws), n), st2)"
    and r: "ready greeting (concat (map frame (requests codec ws 0))) [] st2"
    by (simp del: split_paired_Ex) blast
  have nonempty: "concat (map frame (requests codec ws 0)) \<noteq> []"
    using assms(8) by (cases ws) (simp_all add: requests_def exchanges_Cons frame_def to_be_bytes_def)
  have sent: "map cn_sent (conns (st2\<lparr>ss_window_edge_spans := k, ss_breaker := b\<rparr>)) = [concat (map frame (requests codec ws 0))]" for k b
    using r nonempty by (auto simp: ready_def conns_def split: option.splits)
  show ?thesis
    using st l assms(8) sent
    by (simp add: sidecar_detect_def sidecar_lock_def sb_is_open_def sb_default_def sidecar_scan_def Let_def ws_def)
qed

subsection \<open>Both halves\<close>

lemma windows_nonempty: "sidecar_connect cfg cs = Inr st \<Longrightarrow> windows (sidecar_plan cfg budget) body \<noteq> []"
  using windows_from_Cons [of 0 body "sidecar_plan cfg budget"]
  by (auto simp: sidecar_connect_def validate_config_def windows_def sidecar_plan_def effective_ceiling_def Let_def
      split: if_splits option.splits sum.splits)

definition announced :: "server_config \<Rightarrow> handshake" where
  "announced scfg = \<lparr>hs_binary_sha256 = sv_binary_sha256 scfg, hs_model_sha256 = sv_model_sha256 scfg, hs_mapping_v = kMappingV,
     hs_labels_v = sv_labels_v scfg, hs_score_mode = kScoreMode, hs_ready = True\<rparr>"


text \<open>A one-byte codec: the server reads three bytes of identifier and then the text, and writes \<open>[1]\<close> for its
  handshake and \<open>[3]\<close> for its answer.\<close>

definition sample_lib :: json_lib where
  "sample_lib = \<lparr>jl_parse = (\<lambda>p. Some (JObj [(''id'', JStr (take 3 p)), (''body'', JStr (drop 3 p))])),
     jl_dump = (\<lambda>j. case j of JObj ((k, _) # _) \<Rightarrow> if k = ''id'' then [3] else [1] | _ \<Rightarrow> [])\<rparr>"

definition sample_pinned_server :: server_config where
  "sample_pinned_server = sample_server\<lparr>sv_binary_sha256 := ''b'', sv_model_sha256 := ''m'', sv_labels_v := []\<rparr>"

definition sample_pf :: pf_engine where
  "sample_pf = (\<lambda>_. Some [\<lparr>en_label = Some ''EMAIL'', en_start = 0, en_end = 2, en_score = Finite 1, en_text = [97, 98]\<rparr>])"

lemma sample_exchanges: "exchanges [(0, [97, 98])] 0 = [([99, 45, 49], [97, 98])]"
  by (simp add: exchanges_def saturating_add_def Let_def show_nat_1 str_bytes_def)

lemma sample_understood: "understood sample_codec sample_lib sample_pinned_server sample_pf [99, 45, 49] [97, 98]"
  by (simp add: understood_def sample_codec_def sample_lib_def sample_pinned_server_def sample_server_def sample_pf_def
      engine_classify_def reply_of_def response_json_def kMaxFrameBytes_def kMaxResponseBytes_def json_depth_within_def
      str_bytes_def kMaxResponseSpans_def wire_of_def)


end
