(* ===== verification/Gateway_Translate.thy ===== *)
theory Gateway_Translate
  imports Job Pii "HOL-Library.Sublist"
begin

text \<open>
  The translation between the Anthropic Messages API and the OpenAI-compatible chat API
  (\<open>gradatum-gateway/src/anthropic/translate.rs\<close>), over the request and response types of
  \<open>gradatum-gateway/src/commons/anthropic.rs\<close> and \<open>commons/chat.rs\<close>.

  Strings are byte strings. JSON values are the datatype \<open>json\<close>, an object being its entries in key order, the order
  in which \<open>serde_json\<close> keeps them. Writing and reading JSON text are parameters.
\<close>

subsection \<open>The Anthropic side\<close>

record tool =
  tl_name :: string
  tl_description :: "string option"
  tl_input_schema :: json

datatype tool_choice = ChoiceAuto | ChoiceAny | ChoiceTool string | ChoiceNone

record image_source =
  im_source_type :: string
  im_media_type :: "string option"
  im_data :: "string option"
  im_url :: "string option"

datatype content_block =
    BlockText string
  | BlockToolUse string string json
  | BlockToolResult string json "bool option"
  | BlockImage image_source
  | BlockThinking string
  | BlockUnknown

datatype anthropic_content = ContentText string | ContentBlocks "content_block list"

definition block_text :: "content_block \<Rightarrow> string option" where
  "block_text b = (case b of BlockText s \<Rightarrow> Some s | _ \<Rightarrow> None)"

definition as_text :: "anthropic_content \<Rightarrow> string" where
  "as_text c = (case c of ContentText s \<Rightarrow> s | ContentBlocks bs \<Rightarrow> concat (List.map_filter block_text bs))"

record anthropic_message =
  am_role :: string
  am_content :: anthropic_content

datatype system_content = SystemText string | SystemBlocks "content_block list"

record messages_request =
  mr_model :: string
  mr_messages :: "anthropic_message list"
  mr_system :: "system_content option"
  mr_max_tokens :: "32 word"
  mr_temperature :: "f32 option"
  mr_top_p :: "f32 option"
  mr_stop_sequences :: "string list option"
  mr_stream :: "bool option"
  mr_tools :: "tool list option"
  mr_tool_choice :: "tool_choice option"
  mr_thinking :: "json option"
  mr_betas :: "string list option"
  mr_metadata :: "json option"

datatype response_block = RespText string | RespToolUse string string json

record anthropic_usage =
  au_input_tokens :: "32 word"
  au_output_tokens :: "32 word"

record messages_response =
  mp_id :: string
  mp_object_type :: string
  mp_role :: string
  mp_model :: string
  mp_content :: "response_block list"
  mp_stop_reason :: "string option"
  mp_stop_sequence :: "string option"
  mp_usage :: anthropic_usage

subsection \<open>The OpenAI side\<close>

datatype chat_role = RoleSystem | RoleUser | RoleAssistant | RoleTool

datatype content_part = PartText string | PartImageUrl string

datatype message_content = MsgText string | MsgParts "content_part list"

definition part_text :: "content_part \<Rightarrow> string option" where
  "part_text p = (case p of PartText s \<Rightarrow> Some s | _ \<Rightarrow> None)"

definition text_content :: "message_content \<Rightarrow> string" where
  "text_content c = (case c of MsgText s \<Rightarrow> s | MsgParts ps \<Rightarrow> concat (List.map_filter part_text ps))"

record tool_call =
  tc_id :: string
  tc_type :: string
  tc_name :: string
  tc_arguments :: string

record chat_message =
  cm_role :: chat_role
  cm_content :: message_content
  cm_tool_calls :: "tool_call list option"
  cm_tool_call_id :: "string option"
  cm_name :: "string option"

definition plain_message :: "chat_role \<Rightarrow> string \<Rightarrow> chat_message" where
  "plain_message r s =
     \<lparr>cm_role = r, cm_content = MsgText s, cm_tool_calls = None, cm_tool_call_id = None, cm_name = None\<rparr>"

record function_definition =
  fd_name :: string
  fd_description :: "string option"
  fd_parameters :: json
  fd_strict :: "bool option"

record tool_definition =
  td_type :: string
  td_function :: function_definition

datatype openai_tool_choice = ChoiceMode string | ChoiceFunction string string

record chat_request =
  cq_model :: string
  cq_messages :: "chat_message list"
  cq_max_tokens :: "32 word option"
  cq_temperature :: "f32 option"
  cq_stream :: "bool option"
  cq_top_p :: "f32 option"
  cq_top_k :: "32 word option"
  cq_min_p :: "f32 option"
  cq_presence_penalty :: "f32 option"
  cq_stop :: "string list option"
  cq_tools :: "tool_definition list option"
  cq_tool_choice :: "openai_tool_choice option"
  cq_chat_template_kwargs :: "json option"

record chat_choice =
  ch_index :: "32 word"
  ch_message :: chat_message
  ch_finish_reason :: "string option"

record chat_usage =
  us_prompt_tokens :: "32 word"
  us_completion_tokens :: "32 word"
  us_total_tokens :: "32 word"
  us_prompt_tokens_details :: "32 word option option"

record chat_response =
  cp_id :: string
  cp_object :: string
  cp_created :: "64 word"
  cp_model :: string
  cp_choices :: "chat_choice list"
  cp_usage :: "chat_usage option"

subsection \<open>Requests\<close>

datatype translate_error = EmptyChoices | InvalidImageUrl string

text \<open>Writing a value as text, which may fail; reading one; and the infallible rendering of \<open>Display\<close>.\<close>

record json_text =
  jt_to_string :: "json \<Rightarrow> string option"
  jt_from_str :: "string \<Rightarrow> json option"
  jt_display :: "json \<Rightarrow> string"

definition json_get :: "string \<Rightarrow> json \<Rightarrow> json option" where
  "json_get k v = (case v of JObject fs \<Rightarrow> map_of fs k | _ \<Rightarrow> None)"

definition json_as_str :: "json \<Rightarrow> string option" where
  "json_as_str v = (case v of JString s \<Rightarrow> Some s | _ \<Rightarrow> None)"

definition extract_tool_result_text :: "json_text \<Rightarrow> json \<Rightarrow> string" where
  "extract_tool_result_text jt content =
     (case content of
        JString s \<Rightarrow> s
      | JArray bs \<Rightarrow> concat (List.map_filter (\<lambda>b. Option.bind (json_get ''text'' b) json_as_str) bs)
      | JNull \<Rightarrow> []
      | other \<Rightarrow> jt_display jt other)"

definition HTTPS_SCHEME :: string where
  "HTTPS_SCHEME = ''https://''"

definition translate_image_source :: "image_source \<Rightarrow> (translate_error, content_part option) result" where
  "translate_image_source source =
     (if im_source_type source = ''base64'' then
        (let media_type = (case im_media_type source of None \<Rightarrow> ''image/jpeg'' | Some t \<Rightarrow> t);
             data = (case im_data source of None \<Rightarrow> [] | Some d \<Rightarrow> d) in
         Inr (Some (PartImageUrl (''data:'' @ media_type @ '';base64,'' @ data))))
      else if im_source_type source = ''url'' then
        (let url = (case im_url source of None \<Rightarrow> [] | Some u \<Rightarrow> u) in
         if \<not> prefix HTTPS_SCHEME url then Inl (InvalidImageUrl url)
         else Inr (Some (PartImageUrl url)))
      else Inr None)"

text \<open>The loop of \<open>translate_content_blocks_to_parts\<close>, and its fallback to one empty text part.\<close>

fun translate_parts_loop :: "content_part list \<Rightarrow> content_block list \<Rightarrow> (translate_error, content_part list) result" where
  "translate_parts_loop parts [] = Inr parts"
| "translate_parts_loop parts (BlockText s # bs) = translate_parts_loop (parts @ [PartText s]) bs"
| "translate_parts_loop parts (BlockImage source # bs) =
     (case translate_image_source source of
        Inl e \<Rightarrow> Inl e
      | Inr None \<Rightarrow> translate_parts_loop parts bs
      | Inr (Some part) \<Rightarrow> translate_parts_loop (parts @ [part]) bs)"
| "translate_parts_loop parts (_ # bs) = translate_parts_loop parts bs"

definition translate_content_blocks_to_parts :: "content_block list \<Rightarrow> (translate_error, content_part list) result" where
  "translate_content_blocks_to_parts blocks =
     (case translate_parts_loop [] blocks of
        Inl e \<Rightarrow> Inl e
      | Inr parts \<Rightarrow> Inr (if parts = [] then [PartText []] else parts))"

definition tool_result_message :: "json_text \<Rightarrow> string \<Rightarrow> json \<Rightarrow> chat_message" where
  "tool_result_message jt tool_use_id content =
     \<lparr>cm_role = RoleTool, cm_content = MsgText (extract_tool_result_text jt content), cm_tool_calls = None,
      cm_tool_call_id = Some tool_use_id, cm_name = None\<rparr>"

fun partition_blocks ::
  "json_text \<Rightarrow> chat_message list \<Rightarrow> content_block list \<Rightarrow> content_block list \<Rightarrow> chat_message list \<times> content_block list" where
  "partition_blocks jt tools others [] = (tools, others)"
| "partition_blocks jt tools others (BlockToolResult i c e # bs) =
     partition_blocks jt (tools @ [tool_result_message jt i c]) others bs"
| "partition_blocks jt tools others (b # bs) = partition_blocks jt tools (others @ [b]) bs"

definition user_message_of :: "content_part list \<Rightarrow> chat_message" where
  "user_message_of parts =
     (case parts of
        [PartText s] \<Rightarrow> plain_message RoleUser s
      | _ \<Rightarrow> \<lparr>cm_role = RoleUser, cm_content = MsgParts parts, cm_tool_calls = None, cm_tool_call_id = None, cm_name = None\<rparr>)"

definition translate_user_message :: "json_text \<Rightarrow> anthropic_content \<Rightarrow> (translate_error, chat_message list) result" where
  "translate_user_message jt content =
     (case content of
        ContentText s \<Rightarrow> Inr [plain_message RoleUser s]
      | ContentBlocks blocks \<Rightarrow>
          (let (tool_messages, non_tool_blocks) = partition_blocks jt [] [] blocks in
           if non_tool_blocks = [] then Inr tool_messages
           else
             (case translate_content_blocks_to_parts non_tool_blocks of
                Inl e \<Rightarrow> Inl e
              | Inr parts \<Rightarrow> Inr (tool_messages @ [user_message_of parts]))))"

definition tool_use_call :: "json_text \<Rightarrow> string \<Rightarrow> string \<Rightarrow> json \<Rightarrow> tool_call" where
  "tool_use_call jt ident nm input =
     \<lparr>tc_id = ident, tc_type = ''function'', tc_name = nm,
      tc_arguments = (case jt_to_string jt input of None \<Rightarrow> ''{}'' | Some s \<Rightarrow> s)\<rparr>"

fun assistant_loop :: "json_text \<Rightarrow> string list \<Rightarrow> tool_call list \<Rightarrow> content_block list \<Rightarrow> string list \<times> tool_call list" where
  "assistant_loop jt texts calls [] = (texts, calls)"
| "assistant_loop jt texts calls (BlockText s # bs) = assistant_loop jt (texts @ [s]) calls bs"
| "assistant_loop jt texts calls (BlockToolUse i n v # bs) = assistant_loop jt texts (calls @ [tool_use_call jt i n v]) bs"
| "assistant_loop jt texts calls (_ # bs) = assistant_loop jt texts calls bs"

definition translate_assistant_message :: "json_text \<Rightarrow> anthropic_content \<Rightarrow> chat_message" where
  "translate_assistant_message jt content =
     (case content of
        ContentText s \<Rightarrow> plain_message RoleAssistant s
      | ContentBlocks blocks \<Rightarrow>
          (let (texts, calls) = assistant_loop jt [] [] blocks in
           \<lparr>cm_role = RoleAssistant, cm_content = MsgText (if texts = [] then [] else concat texts),
            cm_tool_calls = (if calls = [] then None else Some calls), cm_tool_call_id = None, cm_name = None\<rparr>))"

definition translate_message :: "json_text \<Rightarrow> anthropic_message \<Rightarrow> (translate_error, chat_message list) result" where
  "translate_message jt msg =
     (if am_role msg = ''user'' then translate_user_message jt (am_content msg)
      else if am_role msg = ''assistant'' then Inr [translate_assistant_message jt (am_content msg)]
      else if am_role msg = ''system'' then Inr [plain_message RoleSystem (as_text (am_content msg))]
      else translate_user_message jt (am_content msg))"

definition extract_text_from_system :: "system_content \<Rightarrow> string" where
  "extract_text_from_system s =
     (case s of SystemText t \<Rightarrow> t | SystemBlocks bs \<Rightarrow> concat (List.map_filter block_text bs))"

subsection \<open>Schemas\<close>

definition GBNF_BLOAT_KEYWORDS :: "string list" where
  "GBNF_BLOAT_KEYWORDS = [''maximum'', ''minimum'', ''exclusiveMaximum'', ''exclusiveMinimum'', ''multipleOf'',
     ''maxLength'', ''minLength'', ''pattern'', ''maxItems'', ''minItems'', ''uniqueItems'']"

text \<open>Where the recursion goes below a key: into the values of an object, into the object itself, into the elements of
  an array, into an object or the elements of an array, or nowhere.\<close>

datatype descent = IntoValues | IntoElements | IntoItems | IntoObject | Nowhere

definition descent_of :: "string \<Rightarrow> descent" where
  "descent_of key =
     (if key \<in> set [''properties'', ''$defs'', ''definitions''] then IntoValues
      else if key = ''items'' then IntoItems
      else if key \<in> set [''anyOf'', ''oneOf'', ''allOf''] then IntoElements
      else if key = ''additionalProperties'' then IntoObject
      else if key = ''prefixItems'' then IntoElements
      else Nowhere)"

fun sanitize_schema :: "json \<Rightarrow> json" and sanitize_below :: "descent \<Rightarrow> json \<Rightarrow> json" where
  "sanitize_schema (JObject fs) =
     JObject (List.map (\<lambda>(k, v). (k, sanitize_below (descent_of k) v)) (filter (\<lambda>(k, v). k \<notin> set GBNF_BLOAT_KEYWORDS) fs))"
| "sanitize_schema v = v"
| "sanitize_below IntoValues (JObject fs) = JObject (List.map (\<lambda>(k, v). (k, sanitize_schema v)) fs)"
| "sanitize_below IntoItems (JObject fs) = sanitize_schema (JObject fs)"
| "sanitize_below IntoItems (JArray vs) = JArray (List.map sanitize_schema vs)"
| "sanitize_below IntoElements (JArray vs) = JArray (List.map sanitize_schema vs)"
| "sanitize_below IntoObject (JObject fs) = sanitize_schema (JObject fs)"
| "sanitize_below _ v = v"

definition translate_tools :: "tool list \<Rightarrow> tool_definition list" where
  "translate_tools tools =
     List.map (\<lambda>t. \<lparr>td_type = ''function'',
       td_function = \<lparr>fd_name = tl_name t, fd_description = tl_description t,
         fd_parameters = sanitize_schema (tl_input_schema t), fd_strict = None\<rparr>\<rparr>) tools"

fun translate_tool_choice :: "tool_choice \<Rightarrow> openai_tool_choice" where
  "translate_tool_choice ChoiceAuto = ChoiceMode ''auto''"
| "translate_tool_choice ChoiceAny = ChoiceMode ''required''"
| "translate_tool_choice ChoiceNone = ChoiceMode ''none''"
| "translate_tool_choice (ChoiceTool n) = ChoiceFunction ''function'' n"

fun translate_messages :: "json_text \<Rightarrow> chat_message list \<Rightarrow> anthropic_message list \<Rightarrow> (translate_error, chat_message list) result" where
  "translate_messages jt messages [] = Inr messages"
| "translate_messages jt messages (m # ms) =
     (case translate_message jt m of
        Inl e \<Rightarrow> Inl e
      | Inr translated \<Rightarrow> translate_messages jt (messages @ translated) ms)"

definition anthropic_to_chat :: "json_text \<Rightarrow> messages_request \<Rightarrow> string \<Rightarrow> (translate_error, chat_request) result" where
  "anthropic_to_chat jt req resolved_model =
     (let system = (case mr_system req of None \<Rightarrow> [] | Some s \<Rightarrow> [plain_message RoleSystem (extract_text_from_system s)]) in
      case translate_messages jt system (mr_messages req) of
        Inl e \<Rightarrow> Inl e
      | Inr messages \<Rightarrow>
          (let tools = map_option translate_tools (mr_tools req);
               tool_choice = (case mr_tool_choice req of
                                Some tc \<Rightarrow> Some (translate_tool_choice tc)
                              | None \<Rightarrow> if tools \<noteq> None then Some (ChoiceMode ''auto'') else None) in
           Inr \<lparr>cq_model = resolved_model, cq_messages = messages, cq_max_tokens = Some (mr_max_tokens req),
             cq_temperature = mr_temperature req, cq_stream = mr_stream req, cq_top_p = mr_top_p req, cq_top_k = None,
             cq_min_p = None, cq_presence_penalty = None, cq_stop = mr_stop_sequences req, cq_tools = tools,
             cq_tool_choice = tool_choice, cq_chat_template_kwargs = None\<rparr>))"

subsection \<open>Responses\<close>

definition parse_tool_arguments :: "json_text \<Rightarrow> string \<Rightarrow> json" where
  "parse_tool_arguments jt arguments = (case jt_from_str jt arguments of Some v \<Rightarrow> v | None \<Rightarrow> JObject [])"

definition map_stop_reason :: "string \<Rightarrow> string" where
  "map_stop_reason finish_reason =
     (if finish_reason = ''stop'' then ''end_turn''
      else if finish_reason = ''length'' then ''max_tokens''
      else if finish_reason = ''tool_calls'' then ''tool_use''
      else if finish_reason = ''stop_sequence'' then ''stop_sequence''
      else ''end_turn'')"

definition build_usage :: "chat_usage option \<Rightarrow> anthropic_usage" where
  "build_usage usage =
     (case usage of
        Some u \<Rightarrow> \<lparr>au_input_tokens = us_prompt_tokens u, au_output_tokens = us_completion_tokens u\<rparr>
      | None \<Rightarrow> \<lparr>au_input_tokens = 0, au_output_tokens = 0\<rparr>)"

definition is_tool_use :: "response_block \<Rightarrow> bool" where
  "is_tool_use b = (case b of RespToolUse _ _ _ \<Rightarrow> True | _ \<Rightarrow> False)"

definition response_content :: "json_text \<Rightarrow> chat_message \<Rightarrow> response_block list" where
  "response_content jt msg =
     (let body = text_content (cm_content msg);
          calls = (case cm_tool_calls msg of None \<Rightarrow> [] | Some tcs \<Rightarrow> tcs);
          content = (if body = [] then [] else [RespText body])
                    @ List.map (\<lambda>tc. RespToolUse (tc_id tc) (tc_name tc) (parse_tool_arguments jt (tc_arguments tc))) calls in
      if content = [] then [RespText []] else content)"

definition chat_to_anthropic :: "json_text \<Rightarrow> chat_response \<Rightarrow> string \<Rightarrow> (translate_error, messages_response) result" where
  "chat_to_anthropic jt resp model =
     (case cp_choices resp of
        [] \<Rightarrow> Inl EmptyChoices
      | choice # _ \<Rightarrow>
          (let content = response_content jt (ch_message choice);
               stop_reason = (if list_ex is_tool_use content then Some ''tool_use''
                              else map_option map_stop_reason (ch_finish_reason choice)) in
           Inr \<lparr>mp_id = ''msg_'' @ cp_id resp, mp_object_type = ''message'', mp_role = ''assistant'', mp_model = model,
             mp_content = content, mp_stop_reason = stop_reason, mp_stop_sequence = None,
             mp_usage = build_usage (cp_usage resp)\<rparr>))"

subsection \<open>What a request becomes\<close>

text \<open>The URLs that must not be fetched, in the order in which they occur: those of image blocks in messages that are
  handled as user messages.\<close>

definition bad_url :: "content_block \<Rightarrow> string option" where
  "bad_url b =
     (case b of
        BlockImage source \<Rightarrow>
          (let url = (case im_url source of None \<Rightarrow> [] | Some u \<Rightarrow> u) in
           if im_source_type source = ''url'' \<and> \<not> prefix HTTPS_SCHEME url then Some url else None)
      | _ \<Rightarrow> None)"

definition as_user :: "anthropic_message \<Rightarrow> bool" where
  "as_user m \<longleftrightarrow> am_role m \<noteq> ''assistant'' \<and> am_role m \<noteq> ''system''"

definition blocks_of :: "anthropic_message \<Rightarrow> content_block list" where
  "blocks_of m = (case am_content m of ContentText _ \<Rightarrow> [] | ContentBlocks bs \<Rightarrow> bs)"

definition bad_urls :: "anthropic_message \<Rightarrow> string list" where
  "bad_urls m = (if as_user m then List.map_filter bad_url (blocks_of m) else [])"

definition result_id :: "content_block \<Rightarrow> string option" where
  "result_id b = (case b of BlockToolResult i _ _ \<Rightarrow> Some i | _ \<Rightarrow> None)"

definition result_ids :: "anthropic_message \<Rightarrow> string list" where
  "result_ids m = (if as_user m then List.map_filter result_id (blocks_of m) else [])"

definition image_urls :: "chat_message \<Rightarrow> string list" where
  "image_urls m =
     (case cm_content m of
        MsgText _ \<Rightarrow> []
      | MsgParts ps \<Rightarrow> List.map_filter (\<lambda>p. case p of PartImageUrl u \<Rightarrow> Some u | _ \<Rightarrow> None) ps)"

definition safe_url :: "string \<Rightarrow> bool" where
  "safe_url u \<longleftrightarrow> prefix HTTPS_SCHEME u \<or> prefix ''data:'' u"

definition answered_ids :: "chat_message list \<Rightarrow> string option list" where
  "answered_ids ms = List.map cm_tool_call_id (filter (\<lambda>m. cm_role m = RoleTool) ms)"

lemma answered_ids_simps [simp]:
  "answered_ids [] = []" "answered_ids (a @ b) = answered_ids a @ answered_ids b"
  by (simp_all add: answered_ids_def)

lemma map_filter_append: "List.map_filter f (a @ b) = List.map_filter f a @ List.map_filter f b"
  by (simp add: List.map_filter_def)

definition safe_part :: "content_part \<Rightarrow> bool" where
  "safe_part p = (case p of PartImageUrl u \<Rightarrow> safe_url u | _ \<Rightarrow> True)"

lemma translate_image_source_bad:
  "translate_image_source source =
     (case bad_url (BlockImage source) of Some u \<Rightarrow> Inl (InvalidImageUrl u) | None \<Rightarrow> translate_image_source source)"
  by (auto simp: translate_image_source_def bad_url_def Let_def)

lemma translate_image_source_safe: "translate_image_source source = Inr (Some p) \<Longrightarrow> safe_part p"
  by (auto simp: translate_image_source_def safe_part_def safe_url_def Let_def split: if_splits)

lemma translate_image_source_Inl: "translate_image_source source = Inl e \<Longrightarrow> \<exists>u. bad_url (BlockImage source) = Some u \<and> e = InvalidImageUrl u"
  by (auto simp: translate_image_source_def bad_url_def Let_def split: if_splits)

lemma translate_image_source_Inr: "translate_image_source source = Inr p \<Longrightarrow> bad_url (BlockImage source) = None"
  by (auto simp: translate_image_source_def bad_url_def Let_def split: if_splits)

lemma translate_parts_loop_result:
  "list_all safe_part parts \<Longrightarrow>
   (case translate_parts_loop parts bs of
      Inl e \<Rightarrow> List.map_filter bad_url bs \<noteq> [] \<and> e = InvalidImageUrl (hd (List.map_filter bad_url bs))
    | Inr out \<Rightarrow> List.map_filter bad_url bs = [] \<and> list_all safe_part out)"
proof (induction parts bs rule: translate_parts_loop.induct)
  case (3 parts source bs)
  show ?case
  proof (cases "translate_image_source source")
    case (Inl e)
    then show ?thesis using translate_image_source_Inl [OF Inl] by (auto simp: map_filter_simps)
  next
    case (Inr p)
    with 3 translate_image_source_Inr [OF Inr] translate_image_source_safe [of source] show ?thesis
      by (cases p) (auto simp: map_filter_simps split: sum.splits)
  qed
qed (auto simp: map_filter_simps bad_url_def safe_part_def split: sum.splits)

lemma partition_blocks_result:
  "partition_blocks jt tools others bs = (t, r) \<Longrightarrow>
   answered_ids t = answered_ids tools @ List.map Some (List.map_filter result_id bs)
   \<and> r = others @ filter (\<lambda>b. result_id b = None) bs
   \<and> (list_all (\<lambda>m. cm_role m = RoleTool \<and> image_urls m = []) tools \<longrightarrow> list_all (\<lambda>m. cm_role m = RoleTool \<and> image_urls m = []) t)"
  by (induction jt tools others bs rule: partition_blocks.induct)
    (auto simp: map_filter_simps result_id_def answered_ids_def tool_result_message_def image_urls_def)

lemma bad_url_result_id: "List.map_filter bad_url (filter (\<lambda>b. result_id b = None) bs) = List.map_filter bad_url bs"
proof -
  have "bad_url b = None" if "result_id b \<noteq> None" for b
    using that by (auto simp: bad_url_def result_id_def split: content_block.splits)
  then show ?thesis by (induction bs) (auto simp: map_filter_simps split: option.splits)
qed

lemma user_message_of_safe:
  "list_all safe_part parts \<Longrightarrow> list_all safe_url (image_urls (user_message_of parts)) \<and> answered_ids [user_message_of parts] = []"
proof -
  assume "list_all safe_part parts"
  then have "list_all safe_url (List.map_filter (\<lambda>p. case p of PartImageUrl u \<Rightarrow> Some u | _ \<Rightarrow> None) parts)"
    by (induction parts) (auto simp: map_filter_simps safe_part_def split: content_part.splits)
  then show ?thesis
    by (auto simp: user_message_of_def image_urls_def answered_ids_def plain_message_def split: list.splits content_part.splits)
qed

text \<open>The result of translating one message, in the terms above.\<close>

definition translated_ok :: "string list \<Rightarrow> string list \<Rightarrow> (translate_error, chat_message list) result \<Rightarrow> bool" where
  "translated_ok bad ids r \<longleftrightarrow>
     (case r of
        Inl e \<Rightarrow> bad \<noteq> [] \<and> e = InvalidImageUrl (hd bad)
      | Inr ms \<Rightarrow> bad = [] \<and> list_all (\<lambda>m. list_all safe_url (image_urls m)) ms \<and> answered_ids ms = List.map Some ids)"

lemma translate_user_message_ok:
  "translated_ok (List.map_filter bad_url (case c of ContentText _ \<Rightarrow> [] | ContentBlocks bs \<Rightarrow> bs))
     (List.map_filter result_id (case c of ContentText _ \<Rightarrow> [] | ContentBlocks bs \<Rightarrow> bs)) (translate_user_message jt c)"
proof (cases c)
  case (ContentText s)
  then show ?thesis
    by (simp add: translated_ok_def translate_user_message_def image_urls_def answered_ids_def plain_message_def map_filter_simps)
next
  case (ContentBlocks bs)
  obtain t r where p: "partition_blocks jt [] [] bs = (t, r)" by fastforce
  note pr = partition_blocks_result [OF p]
  have t: "answered_ids t = List.map Some (List.map_filter result_id bs)" "list_all (\<lambda>m. list_all safe_url (image_urls m)) t"
    using pr by (auto simp: list_all_iff)
  have r: "r = filter (\<lambda>b. result_id b = None) bs" using pr by simp
  show ?thesis
  proof (cases "r = []")
    case True
    have "List.map_filter bad_url bs = []" using bad_url_result_id [of bs] True r by (simp add: map_filter_simps)
    with True p t ContentBlocks show ?thesis by (simp add: translated_ok_def translate_user_message_def)
  next
    case False
    have "case translate_parts_loop [] r of
        Inl e \<Rightarrow> List.map_filter bad_url bs \<noteq> [] \<and> e = InvalidImageUrl (hd (List.map_filter bad_url bs))
      | Inr out \<Rightarrow> List.map_filter bad_url bs = [] \<and> list_all safe_part out"
      using translate_parts_loop_result [of "[]" r] unfolding r bad_url_result_id by simp
    with False p t ContentBlocks show ?thesis
      using user_message_of_safe [of "[PartText []]"] user_message_of_safe
      by (auto simp: translated_ok_def translate_user_message_def translate_content_blocks_to_parts_def safe_part_def
          split: sum.splits)
  qed
qed

lemma translate_message_ok: "translated_ok (bad_urls m) (result_ids m) (translate_message jt m)"
proof (cases "as_user m")
  case True
  then have "translate_message jt m = translate_user_message jt (am_content m)"
    by (simp add: translate_message_def as_user_def)
  then show ?thesis using translate_user_message_ok [of "am_content m" jt] True by (simp add: bad_urls_def result_ids_def blocks_of_def)
next
  case False
  then show ?thesis
    by (auto simp: translated_ok_def translate_message_def as_user_def bad_urls_def result_ids_def translate_assistant_message_def
        plain_message_def image_urls_def answered_ids_def Let_def case_prod_beta split: anthropic_content.splits)
qed

lemma translate_messages_ok:
  "list_all (\<lambda>m. list_all safe_url (image_urls m)) acc \<Longrightarrow>
   (case translate_messages jt acc ms of
      Inl e \<Rightarrow> concat (List.map bad_urls ms) \<noteq> [] \<and> e = InvalidImageUrl (hd (concat (List.map bad_urls ms)))
    | Inr out \<Rightarrow> concat (List.map bad_urls ms) = [] \<and> list_all (\<lambda>m. list_all safe_url (image_urls m)) out
        \<and> answered_ids out = answered_ids acc @ List.map Some (concat (List.map result_ids ms)))"
proof (induction jt acc ms rule: translate_messages.induct)
  case (2 jt acc m ms)
  show ?case
    using translate_message_ok [of m jt] 2
    by (cases "translate_message jt m") (auto simp: translated_ok_def split: sum.splits)
qed simp

text \<open>C20: A request is refused exactly when a message handled as a user message has an image whose URL is not an https
  URL, and the refusal names the first such URL. A request that is accepted hands on no image but those with an https
  URL or with inline data, and it answers every tool result of the conversation by a message of its own, with its own
  identifier, in order.\<close>

theorem request_refused_for_unsafe_image_only:
  "case anthropic_to_chat jt req model of
     Inl e \<Rightarrow> concat (List.map bad_urls (mr_messages req)) \<noteq> []
       \<and> e = InvalidImageUrl (hd (concat (List.map bad_urls (mr_messages req))))
   | Inr chat \<Rightarrow> concat (List.map bad_urls (mr_messages req)) = []
       \<and> list_all (\<lambda>m. list_all safe_url (image_urls m)) (cq_messages chat)
       \<and> answered_ids (cq_messages chat) = List.map Some (concat (List.map result_ids (mr_messages req)))"
proof -
  let ?system = "case mr_system req of None \<Rightarrow> [] | Some s \<Rightarrow> [plain_message RoleSystem (extract_text_from_system s)]"
  have "list_all (\<lambda>m. list_all safe_url (image_urls m)) ?system" "answered_ids ?system = []"
    by (simp_all add: image_urls_def plain_message_def answered_ids_def split: option.split)
  with translate_messages_ok [where acc = ?system and jt = jt and ms = "mr_messages req"] show ?thesis
    by (auto simp: anthropic_to_chat_def Let_def split: sum.splits)
qed

subsection \<open>What a response becomes\<close>

text \<open>The block with which a client echoes a response block in the next request of the conversation.\<close>

definition echo_block :: "response_block \<Rightarrow> content_block" where
  "echo_block b = (case b of RespText s \<Rightarrow> BlockText s | RespToolUse i n v \<Rightarrow> BlockToolUse i n v)"

definition message_calls :: "chat_message \<Rightarrow> tool_call list" where
  "message_calls m = (case cm_tool_calls m of None \<Rightarrow> [] | Some tcs \<Rightarrow> tcs)"

definition call_meaning :: "json_text \<Rightarrow> tool_call \<Rightarrow> string \<times> string \<times> json" where
  "call_meaning jt tc = (tc_id tc, tc_name tc, parse_tool_arguments jt (tc_arguments tc))"

lemma assistant_loop_echo:
  "assistant_loop jt texts calls (List.map echo_block (List.map (\<lambda>tc. RespToolUse (tc_id tc) (tc_name tc) (f tc)) tcs))
     = (texts, calls @ List.map (\<lambda>tc. tool_use_call jt (tc_id tc) (tc_name tc) (f tc)) tcs)"
  by (induction tcs arbitrary: calls) (simp_all add: echo_block_def)

lemma translate_echo:
  "translate_assistant_message jt (ContentBlocks (List.map echo_block (response_content jt msg))) =
     \<lparr>cm_role = RoleAssistant, cm_content = MsgText (text_content (cm_content msg)),
      cm_tool_calls = (if message_calls msg = [] then None
        else Some (List.map (\<lambda>tc. tool_use_call jt (tc_id tc) (tc_name tc) (parse_tool_arguments jt (tc_arguments tc))) (message_calls msg))),
      cm_tool_call_id = None, cm_name = None\<rparr>"
  using assistant_loop_echo [of jt _ "[]" "\<lambda>tc. parse_tool_arguments jt (tc_arguments tc)" "message_calls msg"]
  by (auto simp: translate_assistant_message_def response_content_def message_calls_def [symmetric] echo_block_def Let_def)

lemma map_stop_reason_tool_use: "map_stop_reason s = ''tool_use'' \<longleftrightarrow> s = ''tool_calls''"
  by (simp add: map_stop_reason_def)


definition sample_text_lib :: json_text where
  "sample_text_lib = \<lparr>jt_to_string = (\<lambda>v. if v = JNull then Some ''null'' else None),
     jt_from_str = (\<lambda>s. if s = ''null'' then Some JNull else None), jt_display = (\<lambda>_. [])\<rparr>"

definition sample_choice :: chat_choice where
  "sample_choice = \<lparr>ch_index = 0, ch_message = \<lparr>cm_role = RoleAssistant, cm_content = MsgText ''ok'',
     cm_tool_calls = Some [\<lparr>tc_id = ''t1'', tc_type = ''function'', tc_name = ''search'', tc_arguments = ''null''\<rparr>],
     cm_tool_call_id = None, cm_name = None\<rparr>, ch_finish_reason = Some ''stop''\<rparr>"

definition sample_response :: chat_response where
  "sample_response = \<lparr>cp_id = ''1'', cp_object = ''chat.completion'', cp_created = 0, cp_model = ''m'', cp_choices = [sample_choice], cp_usage = None\<rparr>"


subsection \<open>What is left of a schema\<close>

text \<open>No keyword of the list at any level that the recursion reaches.\<close>

fun clean_schema :: "json \<Rightarrow> bool" and clean_below :: "descent \<Rightarrow> json \<Rightarrow> bool" where
  "clean_schema (JObject fs) \<longleftrightarrow>
     list_all (\<lambda>(k, v). k \<notin> set GBNF_BLOAT_KEYWORDS \<and> clean_below (descent_of k) v) fs"
| "clean_schema v \<longleftrightarrow> True"
| "clean_below IntoValues (JObject fs) \<longleftrightarrow> list_all (\<lambda>(k, v). clean_schema v) fs"
| "clean_below IntoItems (JObject fs) \<longleftrightarrow> clean_schema (JObject fs)"
| "clean_below IntoItems (JArray vs) \<longleftrightarrow> list_all clean_schema vs"
| "clean_below IntoElements (JArray vs) \<longleftrightarrow> list_all clean_schema vs"
| "clean_below IntoObject (JObject fs) \<longleftrightarrow> clean_schema (JObject fs)"
| "clean_below _ v \<longleftrightarrow> True"

lemma sanitize_clean: "clean_schema (sanitize_schema v)" "clean_below d (sanitize_below d v)"
  by (induction v and d v rule: sanitize_schema_sanitize_below.induct) (auto simp: list_all_iff)

lemma sanitize_id: "clean_schema v \<Longrightarrow> sanitize_schema v = v" "clean_below d v \<Longrightarrow> sanitize_below d v = v"
proof (induction v and d v rule: sanitize_schema_sanitize_below.induct)
  case (1 fs)
  then have "filter (\<lambda>(k, v). k \<notin> set GBNF_BLOAT_KEYWORDS) fs = fs" by (auto simp: list_all_iff intro!: filter_True)
  with 1 show ?case by (auto simp: list_all_iff intro!: map_idI)
qed (auto simp: list_all_iff intro!: map_idI)

end
