(* ===== verification/Gateway_Stream.thy ===== *)
theory Gateway_Stream
  imports Gateway_Translate
begin

text \<open>
  The stream translator of the gateway (\<open>gradatum-gateway/src/anthropic/stream.rs\<close>): a backend's chat chunks become
  the server-sent events of the Anthropic Messages API, and a wrapper keeps the connection alive with pings while the
  backend is silent.

  A backend stream is the list of its items, an error or a chunk. Which of the two sources of the wrapper is ready,
  the backend or the ticker, is a list of wake-ups, one for each time the wrapper waits. An event is a value of
  \<open>sse_event\<close>; \<open>format_sse_event\<close> gives the text on the wire, with the JSON writer as a parameter.
\<close>

subsection \<open>Chunks\<close>

record chunk_function =
  kf_name :: "string option"
  kf_arguments :: "string option"

record chunk_tool_call =
  kt_index :: "32 word"
  kt_id :: "string option"
  kt_type :: "string option"
  kt_function :: "chunk_function option"

record chunk_delta =
  kd_role :: "string option"
  kd_content :: "string option"
  kd_tool_calls :: "chunk_tool_call list option"

record chunk_choice =
  kc_index :: "32 word"
  kc_delta :: chunk_delta
  kc_finish_reason :: "string option"

record chat_chunk =
  kk_id :: string
  kk_object :: string
  kk_created :: "64 word"
  kk_model :: string
  kk_choices :: "chunk_choice list"

type_synonym 'e chunk_stream = "('e, chat_chunk) result list"

subsection \<open>Events\<close>

datatype block_kind = TextBlock | ToolUseBlock string string

datatype block_delta = TextDelta string | InputJsonDelta string

datatype sse_event =
    MessageStart string string
  | Ping
  | ContentBlockStart "32 word" block_kind
  | ContentBlockDelta "32 word" block_delta
  | ContentBlockStop "32 word"
  | MessageDelta string "32 word"
  | MessageStop
  | ErrorEvent string string

definition json_u32 :: "32 word \<Rightarrow> json" where
  "json_u32 n = JNumber (of_nat (unat n))"

fun event_type :: "sse_event \<Rightarrow> string" where
  "event_type (MessageStart _ _) = ''message_start''"
| "event_type Ping = ''ping''"
| "event_type (ContentBlockStart _ _) = ''content_block_start''"
| "event_type (ContentBlockDelta _ _) = ''content_block_delta''"
| "event_type (ContentBlockStop _) = ''content_block_stop''"
| "event_type (MessageDelta _ _) = ''message_delta''"
| "event_type MessageStop = ''message_stop''"
| "event_type (ErrorEvent _ _) = ''error''"

text \<open>The fields of the payload besides its type, in key order.\<close>

fun event_fields :: "sse_event \<Rightarrow> (string \<times> json) list" where
  "event_fields (MessageStart model message_id) =
     [(''message'', JObject [(''content'', JArray []), (''id'', JString message_id), (''model'', JString model),
        (''role'', JString ''assistant''), (''stop_reason'', JNull), (''stop_sequence'', JNull), (''type'', JString ''message''),
        (''usage'', JObject [(''input_tokens'', JNumber 0), (''output_tokens'', JNumber 0)])])]"
| "event_fields Ping = []"
| "event_fields (ContentBlockStart i TextBlock) =
     [(''content_block'', JObject [(''text'', JString []), (''type'', JString ''text'')]), (''index'', json_u32 i)]"
| "event_fields (ContentBlockStart i (ToolUseBlock ident nm)) =
     [(''content_block'', JObject [(''id'', JString ident), (''input'', JObject []), (''name'', JString nm),
        (''type'', JString ''tool_use'')]), (''index'', json_u32 i)]"
| "event_fields (ContentBlockDelta i (TextDelta s)) =
     [(''delta'', JObject [(''text'', JString s), (''type'', JString ''text_delta'')]), (''index'', json_u32 i)]"
| "event_fields (ContentBlockDelta i (InputJsonDelta s)) =
     [(''delta'', JObject [(''partial_json'', JString s), (''type'', JString ''input_json_delta'')]), (''index'', json_u32 i)]"
| "event_fields (ContentBlockStop i) = [(''index'', json_u32 i)]"
| "event_fields (MessageDelta reason n) =
     [(''delta'', JObject [(''stop_reason'', JString reason), (''stop_sequence'', JNull)]),
      (''usage'', JObject [(''output_tokens'', json_u32 n)])]"
| "event_fields MessageStop = []"
| "event_fields (ErrorEvent t m) = [(''error'', JObject [(''message'', JString m), (''type'', JString t)])]"

definition event_data :: "sse_event \<Rightarrow> json" where
  "event_data ev = JObject (insort_key fst (''type'', JString (event_type ev)) (event_fields ev))"

definition format_sse_event :: "json_text \<Rightarrow> sse_event \<Rightarrow> string" where
  "format_sse_event jt ev =
     (case jt_to_string jt (event_data ev) of
        Some s \<Rightarrow> ''event: '' @ event_type ev @ [CHR 0x0A] @ ''data: '' @ s @ [CHR 0x0A, CHR 0x0A]
      | None \<Rightarrow> [])"

definition is_message_stop :: "json_text \<Rightarrow> sse_event \<Rightarrow> bool" where
  "is_message_stop jt ev \<longleftrightarrow> prefix (''event: message_stop'' @ [CHR 0x0A]) (format_sse_event jt ev)"

subsection \<open>The state machine\<close>

record stream_state =
  sm_text_block_index :: "32 word option"
  sm_tool_blocks :: "(32 word \<times> (32 word \<times> bool)) list"
  sm_next_block_index :: "32 word"
  sm_finish_reason :: "string option"
  sm_output_tokens :: "32 word"

definition stream_state_new :: stream_state where
  "stream_state_new = \<lparr>sm_text_block_index = None, sm_tool_blocks = [], sm_next_block_index = 0, sm_finish_reason = None,
     sm_output_tokens = 0\<rparr>"

definition alloc_block :: "stream_state \<Rightarrow> 32 word \<times> stream_state" where
  "alloc_block st = (sm_next_block_index st, st\<lparr>sm_next_block_index := saturating_add (sm_next_block_index st) 1\<rparr>)"

definition count_tokens :: "string \<Rightarrow> stream_state \<Rightarrow> stream_state" where
  "count_tokens s st = st\<lparr>sm_output_tokens := saturating_add (sm_output_tokens st) (word_of_nat (length s div 4))\<rparr>"

text \<open>A nonempty text: the block is opened if there is none.\<close>

definition process_text :: "string \<Rightarrow> stream_state \<Rightarrow> sse_event list \<times> stream_state" where
  "process_text s st0 =
     (let st = count_tokens s st0 in
      case sm_text_block_index st of
        Some idx \<Rightarrow> ([ContentBlockDelta idx (TextDelta s)], st)
      | None \<Rightarrow>
          (let (idx, st1) = alloc_block st in
           ([ContentBlockStart idx TextBlock, ContentBlockDelta idx (TextDelta s)], st1\<lparr>sm_text_block_index := Some idx\<rparr>)))"

text \<open>The first fragment of a tool closes the text block and reserves an index.\<close>

definition reserve_tool :: "32 word \<Rightarrow> stream_state \<Rightarrow> sse_event list \<times> stream_state" where
  "reserve_tool openai_idx st =
     (if map_of (sm_tool_blocks st) openai_idx \<noteq> None then ([], st)
      else
        (let events = (case sm_text_block_index st of None \<Rightarrow> [] | Some t \<Rightarrow> [ContentBlockStop t]);
             (idx, st1) = alloc_block (st\<lparr>sm_text_block_index := None\<rparr>) in
         (events, st1\<lparr>sm_tool_blocks := sm_tool_blocks st1 @ [(openai_idx, (idx, False))]\<rparr>)))"

definition set_started :: "32 word \<Rightarrow> stream_state \<Rightarrow> stream_state" where
  "set_started openai_idx st =
     st\<lparr>sm_tool_blocks := List.map (\<lambda>(k, (i, s)). (k, (i, if k = openai_idx then True else s))) (sm_tool_blocks st)\<rparr>"

definition start_tool :: "chunk_tool_call \<Rightarrow> 32 word \<Rightarrow> bool \<Rightarrow> stream_state \<Rightarrow> sse_event list \<times> stream_state" where
  "start_tool tc idx started st =
     (case (started, kt_id tc, Option.bind (kt_function tc) kf_name) of
        (False, Some ident, Some nm) \<Rightarrow> ([ContentBlockStart idx (ToolUseBlock ident nm)], set_started (kt_index tc) st)
      | _ \<Rightarrow> ([], st))"

definition tool_arguments :: "chunk_tool_call \<Rightarrow> 32 word \<Rightarrow> stream_state \<Rightarrow> sse_event list \<times> stream_state" where
  "tool_arguments tc idx st =
     (case Option.bind (kt_function tc) kf_arguments of
        Some frag \<Rightarrow> if frag \<noteq> [] then ([ContentBlockDelta idx (InputJsonDelta frag)], count_tokens frag st) else ([], st)
      | None \<Rightarrow> ([], st))"

definition process_tool_call :: "chunk_tool_call \<Rightarrow> stream_state \<Rightarrow> sse_event list \<times> stream_state" where
  "process_tool_call tc st =
     (let (e1, st1) = reserve_tool (kt_index tc) st;
          (idx, started) = the (map_of (sm_tool_blocks st1) (kt_index tc));
          (e2, st2) = start_tool tc idx started st1;
          (e3, st3) = tool_arguments tc idx st2 in
      (e1 @ e2 @ e3, st3))"

fun process_tool_calls :: "chunk_tool_call list \<Rightarrow> stream_state \<Rightarrow> sse_event list \<times> stream_state" where
  "process_tool_calls [] st = ([], st)"
| "process_tool_calls (tc # tcs) st =
     (let (e1, st1) = process_tool_call tc st; (e2, st2) = process_tool_calls tcs st1 in (e1 @ e2, st2))"

definition close_open_blocks :: "stream_state \<Rightarrow> sse_event list \<times> stream_state" where
  "close_open_blocks st =
     (let to_close = (case sm_text_block_index st of None \<Rightarrow> [] | Some t \<Rightarrow> [t])
                     @ List.map (fst \<circ> snd) (filter (snd \<circ> snd) (sm_tool_blocks st)) in
      (List.map ContentBlockStop (remdups_adj (sort to_close)), st\<lparr>sm_text_block_index := None\<rparr>))"

definition process_delta :: "chunk_delta \<Rightarrow> stream_state \<Rightarrow> sse_event list \<times> stream_state" where
  "process_delta delta st =
     (let (e1, st1) = (case kd_content delta of
                         Some s \<Rightarrow> if s \<noteq> [] then process_text s st else ([], st)
                       | None \<Rightarrow> ([], st));
          (e2, st2) = (case kd_tool_calls delta of Some tcs \<Rightarrow> process_tool_calls tcs st1 | None \<Rightarrow> ([], st1)) in
      (e1 @ e2, st2))"

definition finish_message :: "stream_state \<Rightarrow> sse_event list \<times> stream_state" where
  "finish_message st =
     (let (events, st1) = close_open_blocks st;
          stop_reason = (case sm_finish_reason st1 of Some r \<Rightarrow> map_stop_reason r | None \<Rightarrow> ''end_turn'') in
      (events @ [MessageDelta stop_reason (sm_output_tokens st1), MessageStop], st1))"

definition process_chunk :: "('e, chat_chunk) result \<Rightarrow> stream_state \<Rightarrow> sse_event list \<times> stream_state" where
  "process_chunk item st =
     (case item of
        Inl e \<Rightarrow>
          (let (events, st1) = close_open_blocks st in
           (events @ [ErrorEvent ''api_error'' ''internal backend error'', MessageStop], st1))
      | Inr chunk \<Rightarrow>
          (case kk_choices chunk of
             [] \<Rightarrow> ([], st)
           | choice # _ \<Rightarrow>
               (let st0 = (case kc_finish_reason choice of Some r \<Rightarrow> st\<lparr>sm_finish_reason := Some r\<rparr> | None \<Rightarrow> st);
                    (e1, st1) = process_delta (kc_delta choice) st0 in
                case kc_finish_reason choice of
                  None \<Rightarrow> (e1, st1)
                | Some _ \<Rightarrow> (let (e2, st2) = finish_message st1 in (e1 @ e2, st2)))))"

fun content_events :: "'e chunk_stream \<Rightarrow> stream_state \<Rightarrow> sse_event list" where
  "content_events [] st = []"
| "content_events (c # cs) st = (let (e, st1) = process_chunk c st in e @ content_events cs st1)"

definition chunks_to_anthropic_content_sse :: "'e chunk_stream \<Rightarrow> sse_event list" where
  "chunks_to_anthropic_content_sse chunks = content_events chunks stream_state_new"

definition chunks_to_anthropic_sse :: "'e chunk_stream \<Rightarrow> string \<Rightarrow> string \<Rightarrow> sse_event list" where
  "chunks_to_anthropic_sse chunks model message_id =
     [MessageStart model message_id, Ping] @ chunks_to_anthropic_content_sse chunks"

subsection \<open>Keeping the connection alive\<close>

datatype 'e stream_dispatch = DispatchReady "'e chunk_stream" | DispatchFailed string string

datatype 'e keepalive_phase =
    PhaseStart sse_event "'e stream_dispatch"
  | PhaseWaiting "'e stream_dispatch"
  | PhaseContent "sse_event list" bool
  | PhaseError string string
  | PhaseStop
  | PhaseDone

text \<open>Which branch of the race wins: the backend, or the ticker because the backend is not ready.\<close>

datatype wake = BackendReady | Tick

text \<open>One poll: an event and the next phase, the end of the stream, or still waiting when no wake-up is left.\<close>

datatype 'e polled = Yield sse_event "'e keepalive_phase" "wake list" | Ended | Pending

fun phase_rank :: "'e keepalive_phase \<Rightarrow> nat" where
  "phase_rank (PhaseStart _ _) = 3"
| "phase_rank (PhaseWaiting _) = 3"
| "phase_rank (PhaseContent _ _) = 3"
| "phase_rank (PhaseError _ _) = 2"
| "phase_rank PhaseStop = 1"
| "phase_rank PhaseDone = 0"

fun keepalive_poll :: "json_text \<Rightarrow> wake list \<Rightarrow> 'e keepalive_phase \<Rightarrow> 'e polled" where
  "keepalive_poll jt ws (PhaseStart start d) = Yield start (PhaseWaiting d) ws"
| "keepalive_poll jt [] (PhaseWaiting d) = Pending"
| "keepalive_poll jt (BackendReady # ws) (PhaseWaiting (DispatchReady chunks)) =
     keepalive_poll jt ws (PhaseContent (chunks_to_anthropic_content_sse chunks) False)"
| "keepalive_poll jt (BackendReady # ws) (PhaseWaiting (DispatchFailed t m)) = keepalive_poll jt ws (PhaseError t m)"
| "keepalive_poll jt (Tick # ws) (PhaseWaiting d) = Yield Ping (PhaseWaiting d) ws"
| "keepalive_poll jt [] (PhaseContent items stop_emitted) = Pending"
| "keepalive_poll jt (BackendReady # ws) (PhaseContent (item # items) stop_emitted) =
     Yield item (PhaseContent items (stop_emitted \<or> is_message_stop jt item)) ws"
| "keepalive_poll jt (BackendReady # ws) (PhaseContent [] stop_emitted) =
     (if stop_emitted then keepalive_poll jt ws PhaseDone else Yield (MessageDelta ''end_turn'' 0) PhaseStop ws)"
| "keepalive_poll jt (Tick # ws) (PhaseContent items stop_emitted) = Yield Ping (PhaseContent items stop_emitted) ws"
| "keepalive_poll jt ws (PhaseError t m) = Yield (ErrorEvent t m) PhaseStop ws"
| "keepalive_poll jt ws PhaseStop = Yield MessageStop PhaseDone ws"
| "keepalive_poll jt ws PhaseDone = Ended"

lemma keepalive_poll_smaller:
  "keepalive_poll jt ws ph = Yield ev ph' ws' \<Longrightarrow>
   length ws' < length ws \<or> length ws' = length ws \<and> (phase_rank ph' < phase_rank ph \<or> (\<exists>s d. ph = PhaseStart s d \<and> ph' = PhaseWaiting d))"
  by (induction jt ws ph rule: keepalive_poll.induct) (auto split: if_splits)

definition is_start :: "'e keepalive_phase \<Rightarrow> nat" where
  "is_start ph = (case ph of PhaseStart _ _ \<Rightarrow> 1 | _ \<Rightarrow> 0)"

text \<open>All events the client receives, and whether it saw the end of the stream.\<close>

function keepalive_run :: "json_text \<Rightarrow> wake list \<Rightarrow> 'e keepalive_phase \<Rightarrow> sse_event list \<times> bool" where
  "keepalive_run jt ws ph =
     (case keepalive_poll jt ws ph of
        Yield ev ph' ws' \<Rightarrow> (let (evs, ended) = keepalive_run jt ws' ph' in (ev # evs, ended))
      | Ended \<Rightarrow> ([], True)
      | Pending \<Rightarrow> ([], False))"
  by pat_completeness auto
termination
  by (relation "measures [\<lambda>(jt, ws, ph). length ws, \<lambda>(jt, ws, ph). phase_rank ph, \<lambda>(jt, ws, ph). is_start ph]")
    (auto simp: is_start_def dest!: sym [of _ "keepalive_poll _ _ _"] keepalive_poll_smaller)

declare keepalive_run.simps [simp del]

definition keepalive_anthropic_sse :: "json_text \<Rightarrow> wake list \<Rightarrow> 'e stream_dispatch \<Rightarrow> string \<Rightarrow> string \<Rightarrow> sse_event list \<times> bool" where
  "keepalive_anthropic_sse jt ws dispatch model message_id =
     keepalive_run jt ws (PhaseStart (MessageStart model message_id) dispatch)"

subsection \<open>Content\<close>

text \<open>The text and the argument fragments that a backend sends, each with the index the backend gives its tool, and
  those that a client receives, each with the index of its block.\<close>

definition first_delta :: "('e, chat_chunk) result \<Rightarrow> chunk_delta option" where
  "first_delta item =
     (case item of Inl _ \<Rightarrow> None | Inr chunk \<Rightarrow> (case kk_choices chunk of [] \<Rightarrow> None | c # _ \<Rightarrow> Some (kc_delta c)))"

definition delta_texts :: "chunk_delta \<Rightarrow> string list" where
  "delta_texts d = (case kd_content d of Some s \<Rightarrow> if s \<noteq> [] then [s] else [] | None \<Rightarrow> [])"

definition delta_calls :: "chunk_delta \<Rightarrow> chunk_tool_call list" where
  "delta_calls d = (case kd_tool_calls d of Some tcs \<Rightarrow> tcs | None \<Rightarrow> [])"

definition fragment :: "chunk_tool_call \<Rightarrow> (32 word \<times> string) option" where
  "fragment tc =
     (case Option.bind (kt_function tc) kf_arguments of
        Some s \<Rightarrow> if s \<noteq> [] then Some (kt_index tc, s) else None | None \<Rightarrow> None)"

definition sent_texts :: "'e chunk_stream \<Rightarrow> string list" where
  "sent_texts cs = concat (List.map delta_texts (List.map_filter first_delta cs))"

definition sent_fragments :: "'e chunk_stream \<Rightarrow> (32 word \<times> string) list" where
  "sent_fragments cs = List.map_filter fragment (concat (List.map delta_calls (List.map_filter first_delta cs)))"

definition pieces :: "'e chunk_stream \<Rightarrow> nat" where
  "pieces cs = sum_list (List.map (\<lambda>d. 1 + length (delta_calls d)) (List.map_filter first_delta cs))"

definition received_texts :: "sse_event list \<Rightarrow> string list" where
  "received_texts evs = List.map_filter (\<lambda>e. case e of ContentBlockDelta _ (TextDelta s) \<Rightarrow> Some s | _ \<Rightarrow> None) evs"

definition received_fragments :: "sse_event list \<Rightarrow> (32 word \<times> string) list" where
  "received_fragments evs = List.map_filter (\<lambda>e. case e of ContentBlockDelta i (InputJsonDelta s) \<Rightarrow> Some (i, s) | _ \<Rightarrow> None) evs"

lemma received_append [simp]:
  "received_texts (a @ b) = received_texts a @ received_texts b"
  "received_fragments (a @ b) = received_fragments a @ received_fragments b"
  by (simp_all add: received_texts_def received_fragments_def map_filter_append)

lemma received_simps [simp]:
  "received_texts [] = []" "received_fragments [] = []"
  "received_texts (e # es) = (case e of ContentBlockDelta _ (TextDelta s) \<Rightarrow> [s] | _ \<Rightarrow> []) @ received_texts es"
  "received_fragments (e # es) = (case e of ContentBlockDelta i (InputJsonDelta s) \<Rightarrow> [(i, s)] | _ \<Rightarrow> []) @ received_fragments es"
  by (auto simp: received_texts_def received_fragments_def map_filter_simps split: sse_event.splits block_delta.splits)

lemma received_stops [simp]:
  "received_texts (List.map ContentBlockStop xs) = []" "received_fragments (List.map ContentBlockStop xs) = []"
  by (induction xs) simp_all

definition block_of :: "stream_state \<Rightarrow> 32 word \<Rightarrow> 32 word option" where
  "block_of st k = map_option fst (map_of (sm_tool_blocks st) k)"

definition tool_keys :: "stream_state \<Rightarrow> 32 word list" where
  "tool_keys st = List.map fst (sm_tool_blocks st)"

definition tool_indices :: "stream_state \<Rightarrow> 32 word list" where
  "tool_indices st = List.map (\<lambda>b. fst (snd b)) (sm_tool_blocks st)"

text \<open>The indices in use are below the counter and differ from each other.\<close>

definition fresh_ok :: "stream_state \<Rightarrow> bool" where
  "fresh_ok st \<longleftrightarrow>
     distinct (tool_keys st) \<and> distinct (tool_indices st) \<and> (\<forall>i\<in>set (tool_indices st). i < sm_next_block_index st)
     \<and> (\<forall>t. sm_text_block_index st = Some t \<longrightarrow> t < sm_next_block_index st \<and> t \<notin> set (tool_indices st))"

definition room :: "nat \<Rightarrow> stream_state \<Rightarrow> bool" where
  "room n st \<longleftrightarrow> unat (sm_next_block_index st) + n < 2 ^ 32"

lemma saturating_add_one: "unat n + 1 < 2 ^ 32 \<Longrightarrow> unat (saturating_add n (1 :: 32 word)) = unat n + 1"
  by (simp add: sat_simps)

lemma saturating_add_gt: "unat n + 1 < 2 ^ 32 \<Longrightarrow> i \<le> n \<Longrightarrow> i < saturating_add n (1 :: 32 word)"
  by (simp add: word_less_nat_alt word_le_nat_alt saturating_add_one)

lemma map_of_restart:
  "map_option fst (map_of (List.map (\<lambda>(k, (i, s)). (k, (i, f k s))) xs) q) = map_option fst (map_of xs q)"
  by (induction xs) auto

lemma set_started_simps [simp]:
  "sm_next_block_index (set_started k st) = sm_next_block_index st"
  "sm_text_block_index (set_started k st) = sm_text_block_index st"
  "tool_keys (set_started k st) = tool_keys st" "tool_indices (set_started k st) = tool_indices st"
  "block_of (set_started k st) = block_of st"
proof -
  have "sm_tool_blocks (set_started k st) =
      List.map (\<lambda>(k', (i, s)). (k', (i, (\<lambda>k' s. if k' = k then True else s) k' s))) (sm_tool_blocks st)"
    by (simp add: set_started_def)
  then show "block_of (set_started k st) = block_of st" unfolding block_of_def by (simp only: map_of_restart)
qed (simp_all add: set_started_def tool_keys_def tool_indices_def case_prod_beta comp_def)

lemma other_updates [simp]:
  "sm_next_block_index (count_tokens s st) = sm_next_block_index st"
  "sm_text_block_index (count_tokens s st) = sm_text_block_index st"
  "tool_keys (count_tokens s st) = tool_keys st" "tool_indices (count_tokens s st) = tool_indices st"
  "block_of (count_tokens s st) = block_of st"
  "tool_keys (st\<lparr>sm_text_block_index := t\<rparr>) = tool_keys st" "tool_indices (st\<lparr>sm_text_block_index := t\<rparr>) = tool_indices st"
  "tool_keys (st\<lparr>sm_next_block_index := n\<rparr>) = tool_keys st" "tool_indices (st\<lparr>sm_next_block_index := n\<rparr>) = tool_indices st"
  "block_of (st\<lparr>sm_text_block_index := t\<rparr>) = block_of st" "block_of (st\<lparr>sm_next_block_index := n\<rparr>) = block_of st"
  "tool_keys (st\<lparr>sm_finish_reason := r\<rparr>) = tool_keys st" "tool_indices (st\<lparr>sm_finish_reason := r\<rparr>) = tool_indices st"
  "block_of (st\<lparr>sm_finish_reason := r\<rparr>) = block_of st"
  by (simp_all add: count_tokens_def block_of_def tool_keys_def tool_indices_def fun_eq_iff)

lemma reserved_simps [simp]:
  "tool_keys (st\<lparr>sm_tool_blocks := sm_tool_blocks st' @ [(k, (i, b))]\<rparr>) = tool_keys st' @ [k]"
  "tool_indices (st\<lparr>sm_tool_blocks := sm_tool_blocks st' @ [(k, (i, b))]\<rparr>) = tool_indices st' @ [i]"
  by (simp_all add: tool_keys_def tool_indices_def)

text \<open>What every operation keeps, allocating at most \<open>n\<close> indices.\<close>

definition advances :: "nat \<Rightarrow> stream_state \<Rightarrow> stream_state \<Rightarrow> bool" where
  "advances n st st' \<longleftrightarrow>
     fresh_ok st' \<and> block_of st \<subseteq>\<^sub>m block_of st' \<and> unat (sm_next_block_index st') \<le> unat (sm_next_block_index st) + n"

lemma advances_trans: "advances n a b \<Longrightarrow> advances m b c \<Longrightarrow> advances (n + m) a c"
  unfolding advances_def by (auto intro: map_le_trans)

lemma advances_room: "advances n a b \<Longrightarrow> room (n + m) a \<Longrightarrow> room m b"
  by (auto simp: advances_def room_def)

lemma advances_refl: "fresh_ok st \<Longrightarrow> advances n st st"
  by (simp add: advances_def)

lemma fresh_ok_updates [simp]:
  "fresh_ok (count_tokens s st) = fresh_ok st" "fresh_ok (set_started k st) = fresh_ok st"
  "fresh_ok (st\<lparr>sm_finish_reason := r\<rparr>) = fresh_ok st"
  by (simp_all add: fresh_ok_def)

lemma process_text_content:
  assumes "process_text s st = (e, st')" "fresh_ok st" "room 1 st"
  shows "received_texts e = [s]" "received_fragments e = []" "advances 1 st st'"
proof -
  have n: "unat (sm_next_block_index st) + 1 < 2 ^ 32" using assms(3) by (simp add: room_def)
  have l: "sm_next_block_index st < saturating_add (sm_next_block_index st) 1" by (rule saturating_add_gt [OF n order_refl])
  show "received_texts e = [s]" "received_fragments e = []"
    using assms(1) by (auto simp: process_text_def alloc_block_def Let_def split: option.splits)
  have "fresh_ok (count_tokens s st\<lparr>sm_next_block_index := saturating_add (sm_next_block_index st) 1,
      sm_text_block_index := Some (sm_next_block_index st)\<rparr>)"
    using assms(2) l unfolding fresh_ok_def by (auto dest: bspec less_trans)
  then show "advances 1 st st'"
    using assms(1,2) saturating_add_one [OF n]
    by (auto simp: process_text_def alloc_block_def advances_def Let_def split: option.splits)
qed

lemma reserve_tool_content:
  assumes "reserve_tool k st = (e, st')" "fresh_ok st" "room 1 st"
  shows "received_texts e = []" "received_fragments e = []" "advances 1 st st'" "\<exists>i. block_of st' k = Some i"
proof -
  have n: "unat (sm_next_block_index st) + 1 < 2 ^ 32" using assms(3) by (simp add: room_def)
  have l: "sm_next_block_index st < saturating_add (sm_next_block_index st) 1" by (rule saturating_add_gt [OF n order_refl])
  show "received_texts e = []" "received_fragments e = []"
    using assms(1) by (auto simp: reserve_tool_def alloc_block_def Let_def split: option.splits if_splits)
  show "\<exists>i. block_of st' k = Some i"
    using assms(1) by (auto simp: reserve_tool_def alloc_block_def block_of_def map_add_def Let_def split: if_splits option.splits)
  show "advances 1 st st'"
  proof (cases "map_of (sm_tool_blocks st) k = None")
    case True
    then have k: "k \<notin> set (tool_keys st)" by (simp add: map_of_eq_None_iff tool_keys_def)
    have st': "st' = st\<lparr>sm_text_block_index := None, sm_next_block_index := saturating_add (sm_next_block_index st) 1,
        sm_tool_blocks := sm_tool_blocks st @ [(k, (sm_next_block_index st, False))]\<rparr>"
      using True assms(1) by (auto simp: reserve_tool_def alloc_block_def Let_def)
    then have "block_of st \<subseteq>\<^sub>m block_of st'"
      by (auto simp: block_of_def map_le_def map_add_def split: option.splits)
    moreover have "fresh_ok st'"
      using assms(2) k l unfolding st' fresh_ok_def by (auto dest: bspec less_trans)
    ultimately show ?thesis using saturating_add_one [OF n] by (simp add: advances_def st')
  qed (use assms(1,2) in \<open>auto simp: reserve_tool_def intro: advances_refl\<close>)
qed

lemma process_tool_call_content:
  assumes "process_tool_call tc st = (e, st')" "fresh_ok st" "room 1 st"
  shows "received_texts e = []" "advances 1 st st'"
    "received_fragments e = (case fragment tc of None \<Rightarrow> [] | Some (k, s) \<Rightarrow> [(the (block_of st' k), s)])"
    "fragment tc = Some (k, s) \<Longrightarrow> \<exists>i. block_of st' k = Some i"
proof -
  obtain e1 st1 where r: "reserve_tool (kt_index tc) st = (e1, st1)" by fastforce
  obtain idx started where i: "map_of (sm_tool_blocks st1) (kt_index tc) = Some (idx, started)"
    using reserve_tool_content(4) [OF r assms(2,3)] by (auto simp: block_of_def)
  obtain e2 st2 where s2: "start_tool tc idx started st1 = (e2, st2)" by fastforce
  obtain e3 st3 where s3: "tool_arguments tc idx st2 = (e3, st3)" by fastforce
  have all: "e = e1 @ e2 @ e3" "st' = st3" using assms(1) r i s2 s3 by (simp_all add: process_tool_call_def)
  have c2: "received_texts e2 = []" "received_fragments e2 = []" "block_of st2 = block_of st1" "fresh_ok st2 = fresh_ok st1"
    "sm_next_block_index st2 = sm_next_block_index st1"
    using s2 by (auto simp: start_tool_def split: bool.splits option.splits)
  have c3: "received_texts e3 = []" "received_fragments e3 = (case fragment tc of None \<Rightarrow> [] | Some (k, s) \<Rightarrow> [(idx, s)])"
    "block_of st3 = block_of st2" "fresh_ok st3 = fresh_ok st2" "sm_next_block_index st3 = sm_next_block_index st2"
    using s3 by (auto simp: tool_arguments_def fragment_def split: option.splits if_splits)
  have b: "block_of st' (kt_index tc) = Some idx" using all c2 c3 i by (simp add: block_of_def)
  note c1 = reserve_tool_content [OF r assms(2,3)]
  show "received_texts e = []" using all c1 c2 c3 by simp
  show "advances 1 st st'" using all c1(3) c2 c3 by (simp add: advances_def)
  have k: "k' = kt_index tc" if "fragment tc = Some (k', s')" for k' s'
    using that by (auto simp: fragment_def split: option.splits if_splits)
  show "received_fragments e = (case fragment tc of None \<Rightarrow> [] | Some (k, s) \<Rightarrow> [(the (block_of st' k), s)])"
    using all c1 c2 c3 b k by (auto split: option.splits)
  show "\<exists>i. block_of st' k = Some i" if "fragment tc = Some (k, s)" using k [OF that] b by simp
qed

lemma process_tool_calls_content:
  "\<lbrakk>process_tool_calls tcs st = (e, st'); fresh_ok st; room (length tcs) st\<rbrakk> \<Longrightarrow>
   received_texts e = [] \<and> advances (length tcs) st st'
   \<and> received_fragments e = List.map (\<lambda>(k, s). (the (block_of st' k), s)) (List.map_filter fragment tcs)
   \<and> fst ` set (List.map_filter fragment tcs) \<subseteq> dom (block_of st')"
proof (induction tcs arbitrary: st e st')
  case Nil
  then show ?case by (simp add: map_filter_simps advances_refl)
next
  case (Cons tc tcs)
  obtain e1 st1 where c: "process_tool_call tc st = (e1, st1)" by fastforce
  obtain e2 st2 where r: "process_tool_calls tcs st1 = (e2, st2)" by fastforce
  have all: "e = e1 @ e2" "st' = st2" using Cons.prems(1) c r by simp_all
  have "room 1 st" using Cons.prems(3) by (simp add: room_def)
  note c1 = process_tool_call_content [OF c Cons.prems(2) this]
  have "fresh_ok st1" "room (length tcs) st1"
    using c1(2) advances_room [of 1 st st1 "length tcs"] Cons.prems(3) by (simp_all add: advances_def)
  note ih = Cons.IH [OF r this]
  have le: "block_of st1 \<subseteq>\<^sub>m block_of st2" using ih by (simp add: advances_def)
  have later: "block_of st2 k = Some i" if "block_of st1 k = Some i" for k i
    using le that by (auto simp: map_le_def dom_def)
  have adv: "advances (length (tc # tcs)) st st'" using advances_trans [OF c1(2)] ih all by (simp add: add.commute)
  show ?case
    using c1(1,3,4) ih all adv later by (cases "fragment tc") (fastforce simp: map_filter_simps)+
qed

text \<open>The content of a run of the machine from a state, with the state it ends in.\<close>

definition conveys ::
  "string list \<Rightarrow> (32 word \<times> string) list \<Rightarrow> stream_state \<Rightarrow> sse_event list \<Rightarrow> stream_state \<Rightarrow> bool" where
  "conveys texts frags st e st' \<longleftrightarrow>
     received_texts e = texts \<and> received_fragments e = List.map (\<lambda>(k, s). (the (block_of st' k), s)) frags
     \<and> fst ` set frags \<subseteq> dom (block_of st') \<and> fresh_ok st' \<and> block_of st \<subseteq>\<^sub>m block_of st'"

lemma conveys_later:
  assumes "conveys texts frags st e st'" "block_of st' \<subseteq>\<^sub>m block_of st''" "fresh_ok st''"
  shows "conveys texts frags st e st''"
proof -
  have later: "block_of st'' k = Some i" if "block_of st' k = Some i" for k i
    using assms(2) that by (auto simp: map_le_def dom_def)
  have "the (block_of st'' k) = the (block_of st' k) \<and> (\<exists>i. block_of st'' k = Some i)" if "(k, s) \<in> set frags" for k s
  proof -
    have "k \<in> fst ` set frags" using that by force
    then obtain i where "block_of st' k = Some i" using assms(1) by (auto simp: conveys_def)
    with later show ?thesis by simp
  qed
  then show ?thesis
    using assms by (auto simp: conveys_def intro: map_le_trans)
qed

lemma conveys_append:
  assumes "conveys t1 f1 a e1 b" "conveys t2 f2 b e2 c"
  shows "conveys (t1 @ t2) (f1 @ f2) a (e1 @ e2) c"
proof -
  have "conveys t1 f1 a e1 c" using conveys_later [OF assms(1), of c] assms(2) unfolding conveys_def by blast
  with assms(2) show ?thesis by (auto simp: conveys_def)
qed

lemma process_delta_content:
  assumes "process_delta d st = (e, st')" "fresh_ok st" "room (1 + length (delta_calls d)) st"
  shows "conveys (delta_texts d) (List.map_filter fragment (delta_calls d)) st e st'"
    "advances (1 + length (delta_calls d)) st st'"
proof -
  obtain e1 st1 where p1: "(case kd_content d of Some s \<Rightarrow> if s \<noteq> [] then process_text s st else ([], st) | None \<Rightarrow> ([], st)) = (e1, st1)"
    by fastforce
  obtain e2 st2 where p2: "process_tool_calls (delta_calls d) st1 = (e2, st2)" by fastforce
  have all: "e = e1 @ e2" "st' = st2"
    using assms(1) p1 p2 by (auto simp: process_delta_def delta_calls_def split: option.splits)
  have "room 1 st" using assms(3) by (simp add: room_def)
  note pt = process_text_content [OF _ assms(2) this]
  have c1: "conveys (delta_texts d) [] st e1 st1" "advances 1 st st1"
    using p1 pt assms(2)
    by (auto simp: conveys_def delta_texts_def advances_def split: option.splits if_splits)
  have "room (length (delta_calls d)) st1" using advances_room [OF c1(2)] assms(3) by simp
  moreover have "fresh_ok st1" using c1(2) by (simp add: advances_def)
  ultimately have c2: "conveys [] (List.map_filter fragment (delta_calls d)) st1 e2 st2" "advances (length (delta_calls d)) st1 st2"
    using process_tool_calls_content [OF p2] by (auto simp: conveys_def advances_def)
  show "conveys (delta_texts d) (List.map_filter fragment (delta_calls d)) st e st'"
    using conveys_append [OF c1(1) c2(1)] all by simp
  show "advances (1 + length (delta_calls d)) st st'" using advances_trans [OF c1(2) c2(2)] all by simp
qed

lemma close_open_blocks_quiet:
  "close_open_blocks st = (e, st') \<Longrightarrow> fresh_ok st \<Longrightarrow>
   received_texts e = [] \<and> received_fragments e = [] \<and> advances 0 st st' \<and> block_of st' = block_of st"
  by (auto simp: close_open_blocks_def advances_def fresh_ok_def Let_def)

definition item_texts :: "('e, chat_chunk) result \<Rightarrow> string list" where
  "item_texts c = (case first_delta c of None \<Rightarrow> [] | Some d \<Rightarrow> delta_texts d)"

definition item_calls :: "('e, chat_chunk) result \<Rightarrow> chunk_tool_call list" where
  "item_calls c = (case first_delta c of None \<Rightarrow> [] | Some d \<Rightarrow> delta_calls d)"

definition item_pieces :: "('e, chat_chunk) result \<Rightarrow> nat" where
  "item_pieces c = (case first_delta c of None \<Rightarrow> 0 | Some d \<Rightarrow> 1 + length (delta_calls d))"

lemma sent_Cons:
  "sent_texts (c # cs) = item_texts c @ sent_texts cs"
  "sent_fragments (c # cs) = List.map_filter fragment (item_calls c) @ sent_fragments cs"
  "pieces (c # cs) = item_pieces c + pieces cs"
  by (auto simp: sent_texts_def sent_fragments_def pieces_def item_texts_def item_calls_def item_pieces_def map_filter_simps
      map_filter_append split: option.splits)

lemma process_chunk_content:
  assumes "process_chunk c st = (e, st')" "fresh_ok st" "room (item_pieces c) st"
  shows "conveys (item_texts c) (List.map_filter fragment (item_calls c)) st e st' \<and> advances (item_pieces c) st st'"
proof (cases "first_delta c")
  case None
  then show ?thesis
    using assms close_open_blocks_quiet [of st]
    by (auto simp: process_chunk_def first_delta_def item_texts_def item_calls_def item_pieces_def conveys_def map_filter_simps
        advances_def Let_def split: sum.splits list.splits prod.splits)
next
  case (Some d)
  then obtain chunk choice rest where c: "c = Inr chunk" "kk_choices chunk = choice # rest" "kc_delta choice = d"
    by (auto simp: first_delta_def split: sum.splits list.splits)
  let ?st0 = "case kc_finish_reason choice of Some r \<Rightarrow> st\<lparr>sm_finish_reason := Some r\<rparr> | None \<Rightarrow> st"
  have st0: "fresh_ok ?st0" "block_of ?st0 = block_of st" "sm_next_block_index ?st0 = sm_next_block_index st"
    using assms(2) by (auto split: option.split)
  obtain e1 st1 where p: "process_delta d ?st0 = (e1, st1)" by fastforce
  have "room (1 + length (delta_calls d)) ?st0" using assms(3) Some st0(3) by (simp add: room_def item_pieces_def)
  note pd = process_delta_content [OF p st0(1) this]
  have d: "conveys (delta_texts d) (List.map_filter fragment (delta_calls d)) st e1 st1" "advances (1 + length (delta_calls d)) st st1"
    using pd st0 by (simp_all add: conveys_def advances_def)
  show ?thesis
  proof (cases "kc_finish_reason choice")
    case None
    then show ?thesis using assms(1) c p d Some by (simp add: process_chunk_def item_texts_def item_calls_def item_pieces_def)
  next
    case (Some r)
    obtain e2 st2 where f: "close_open_blocks st1 = (e2, st2)" by fastforce
    have q: "received_texts e2 = []" "received_fragments e2 = []" "advances 0 st1 st2" "block_of st2 = block_of st1"
      using close_open_blocks_quiet [OF f] d(2) by (auto simp: advances_def)
    have e: "e = e1 @ e2 @ [MessageDelta (case sm_finish_reason st2 of Some r \<Rightarrow> map_stop_reason r | None \<Rightarrow> ''end_turn'')
        (sm_output_tokens st2), MessageStop]" "st' = st2"
      using assms(1) c p f Some by (auto simp: process_chunk_def finish_message_def Let_def)
    have "conveys (delta_texts d) (List.map_filter fragment (delta_calls d)) st e st'"
      using conveys_later [OF d(1), of st2] q e by (auto simp: conveys_def advances_def)
    moreover have "advances (1 + length (delta_calls d)) st st'" using advances_trans [OF d(2) q(3)] e by simp
    ultimately show ?thesis using \<open>first_delta c = Some d\<close> by (simp add: item_texts_def item_calls_def item_pieces_def)
  qed
qed

lemma content_events_content:
  "fresh_ok st \<Longrightarrow> room (pieces cs) st \<Longrightarrow> \<exists>st'. conveys (sent_texts cs) (sent_fragments cs) st (content_events cs st) st'"
proof (induction cs arbitrary: st)
  case Nil
  then show ?case by (intro exI [of _ st]) (simp add: conveys_def sent_texts_def sent_fragments_def map_filter_simps)
next
  case (Cons c cs)
  obtain e st1 where p: "process_chunk c st = (e, st1)" by fastforce
  have "room (item_pieces c) st" using Cons.prems(2) by (simp add: sent_Cons room_def)
  note pc = process_chunk_content [OF p Cons.prems(1) this]
  have "room (pieces cs) st1" using pc advances_room [of "item_pieces c" st st1] Cons.prems(2) by (simp add: sent_Cons)
  moreover have "fresh_ok st1" using pc by (simp add: advances_def)
  ultimately obtain st2 where "conveys (sent_texts cs) (sent_fragments cs) st1 (content_events cs st1) st2" using Cons.IH by blast
  with pc p show ?case by (auto simp: sent_Cons dest: conveys_append)
qed

lemma block_of_inj:
  assumes "fresh_ok st" "block_of st k = Some i" "block_of st k' = Some i"
  shows "k = k'"
proof -
  obtain s s' where "(k, (i, s)) \<in> set (sm_tool_blocks st)" "(k', (i, s')) \<in> set (sm_tool_blocks st)"
    using assms(2,3) by (fastforce simp: block_of_def dest: map_of_SomeD)
  moreover have "inj_on (\<lambda>b. fst (snd b)) (set (sm_tool_blocks st))"
    using assms(1) by (simp add: fresh_ok_def tool_indices_def distinct_map)
  ultimately have "(k, (i, s)) = (k', (i, s'))" by (metis fst_conv inj_onD snd_conv)
  then show ?thesis by simp
qed

text \<open>C14: Nothing of the backend's answer is lost, repeated or reordered on its way to the client. The text deltas are
  the nonempty texts of the chunks, in order. The argument deltas are the nonempty argument fragments, in order, each
  sent to the block of its tool, and different tools have different blocks.\<close>

theorem stream_preserves_content:
  assumes "pieces chunks < 2 ^ 32"
  shows "\<exists>block. inj_on block (fst ` set (sent_fragments chunks))
    \<and> received_texts (chunks_to_anthropic_sse chunks model message_id) = sent_texts chunks
    \<and> received_fragments (chunks_to_anthropic_sse chunks model message_id)
        = List.map (\<lambda>(k, s). (block k, s)) (sent_fragments chunks)"
proof -
  have "fresh_ok stream_state_new" "room (pieces chunks) stream_state_new"
    using assms by (simp_all add: fresh_ok_def stream_state_new_def tool_keys_def tool_indices_def room_def)
  then obtain st where c: "conveys (sent_texts chunks) (sent_fragments chunks) stream_state_new (content_events chunks stream_state_new) st"
    using content_events_content by blast
  have "fst ` set (sent_fragments chunks) \<subseteq> dom (block_of st)" using c by (auto simp: conveys_def)
  moreover have "inj_on (\<lambda>k. the (block_of st k)) (dom (block_of st))"
    using c block_of_inj [of st] by (auto simp: conveys_def intro!: inj_onI)
  ultimately have "inj_on (\<lambda>k. the (block_of st k)) (fst ` set (sent_fragments chunks))" by (rule inj_on_subset [rotated])
  with c show ?thesis
    by (intro exI [of _ "\<lambda>k. the (block_of st k)"])
      (simp add: conveys_def chunks_to_anthropic_sse_def chunks_to_anthropic_content_sse_def)
qed

subsection \<open>Samples\<close>

definition sample_delta :: chunk_delta where
  "sample_delta = \<lparr>kd_role = None, kd_content = None, kd_tool_calls = None\<rparr>"

definition sample_chunk :: "chunk_delta \<Rightarrow> string option \<Rightarrow> ('e, chat_chunk) result" where
  "sample_chunk d reason =
     Inr \<lparr>kk_id = ''c'', kk_object = ''chat.completion.chunk'', kk_created = 0, kk_model = ''m'',
          kk_choices = [\<lparr>kc_index = 0, kc_delta = d, kc_finish_reason = reason\<rparr>]\<rparr>"

definition sample_call :: "32 word \<Rightarrow> string option \<Rightarrow> string \<Rightarrow> chunk_tool_call" where
  "sample_call k ident args =
     \<lparr>kt_index = k, kt_id = ident, kt_type = None, kt_function = Some \<lparr>kf_name = ident, kf_arguments = Some args\<rparr>\<rparr>"

definition text_chunk :: "('e, chat_chunk) result" where
  "text_chunk = sample_chunk (sample_delta\<lparr>kd_content := Some ''hi''\<rparr>) None"

definition tool_chunk :: "32 word \<Rightarrow> string option \<Rightarrow> string \<Rightarrow> ('e, chat_chunk) result" where
  "tool_chunk k ident args = sample_chunk (sample_delta\<lparr>kd_tool_calls := Some [sample_call k ident args]\<rparr>) None"

definition stop_chunk :: "string \<Rightarrow> ('e, chat_chunk) result" where
  "stop_chunk reason = sample_chunk sample_delta (Some reason)"

lemmas sample_chunk_defs = sample_delta_def sample_chunk_def sample_call_def text_chunk_def tool_chunk_def stop_chunk_def

definition sample_stream :: "string chunk_stream" where
  "sample_stream = [text_chunk, tool_chunk 5 (Some ''get'') ''{'', tool_chunk 7 (Some ''put'') ''[]'', tool_chunk 5 None ''}'', stop_chunk ''tool_calls'']"

lemma sample_stream_content:
  "sent_texts sample_stream = [''hi'']" "sent_fragments sample_stream = [(5, ''{''), (7, ''[]''), (5, ''}'')]"
  "pieces sample_stream = 8"
  by (simp_all add: sample_stream_def sample_chunk_defs sent_Cons item_texts_def item_calls_def item_pieces_def first_delta_def
      delta_texts_def delta_calls_def fragment_def map_filter_simps)
    (simp_all add: sent_texts_def sent_fragments_def pieces_def map_filter_simps)

theorem stream_preserves_content_witness:
  "\<exists>block. inj_on block {5, 7 :: 32 word} \<and> received_texts (chunks_to_anthropic_sse sample_stream ''m'' ''msg'') = [''hi'']
    \<and> received_fragments (chunks_to_anthropic_sse sample_stream ''m'' ''msg'') = [(block 5, ''{''), (block 7, ''[]''), (block 5, ''}'')]"
  using stream_preserves_content [of sample_stream "''m''" "''msg''"] by (simp add: sample_stream_content insert_commute)

end
