(* ===== verification/Gateway_Client.thy ===== *)
theory Gateway_Client
  imports Gateway_Stream
begin

text \<open>
  What a client of the gateway's streams relies on. A checker reads the events the way the Messages API prescribes: one
  \<open>message_start\<close>, blocks with unused indices, deltas of the kind of an open block, every block closed before the
  message's end, \<open>message_stop\<close> last, pings anywhere after the start. The lemmas relate the translator's state to the
  checker's, and the keepalive wrapper to the events it would send without waiting.
\<close>

subsection \<open>The checker\<close>

datatype client = AwaitStart | Reading "(32 word \<times> bool) list" "32 word list" | Closing | Finished

text \<open>The open blocks, each with whether it is a text, and the indices used so far.\<close>

fun client_step :: "client \<Rightarrow> sse_event \<Rightarrow> client option" where
  "client_step AwaitStart (MessageStart _ _) = Some (Reading [] [])"
| "client_step (Reading bs used) Ping = Some (Reading bs used)"
| "client_step (Reading bs used) (ContentBlockStart i k) =
     (if i \<in> set used then None else Some (Reading ((i, k = TextBlock) # bs) (i # used)))"
| "client_step (Reading bs used) (ContentBlockDelta i (TextDelta _)) = (if (i, True) \<in> set bs then Some (Reading bs used) else None)"
| "client_step (Reading bs used) (ContentBlockDelta i (InputJsonDelta _)) = (if (i, False) \<in> set bs then Some (Reading bs used) else None)"
| "client_step (Reading bs used) (ContentBlockStop i) =
     (if i \<in> fst ` set bs then Some (Reading (filter (\<lambda>b. fst b \<noteq> i) bs) used) else None)"
| "client_step (Reading bs used) (MessageDelta _ _) = (if bs = [] then Some Closing else None)"
| "client_step (Reading bs used) (ErrorEvent _ _) = (if bs = [] then Some Closing else None)"
| "client_step Closing Ping = Some Closing"
| "client_step Closing MessageStop = Some Finished"
| "client_step Finished Ping = Some Finished"
| "client_step _ _ = None"

fun client_run :: "client \<Rightarrow> sse_event list \<Rightarrow> client option" where
  "client_run c [] = Some c"
| "client_run c (e # es) = (case client_step c e of None \<Rightarrow> None | Some c' \<Rightarrow> client_run c' es)"

lemma client_run_append [simp]:
  "client_run c (a @ b) = (case client_run c a of None \<Rightarrow> None | Some c' \<Rightarrow> client_run c' b)"
  by (induction a arbitrary: c) (auto split: option.split)

lemma client_run_stops:
  "distinct xs \<Longrightarrow> set xs = fst ` set bs \<Longrightarrow> client_run (Reading bs used) (List.map ContentBlockStop xs) = Some (Reading [] used)"
proof (induction xs arbitrary: bs)
  case (Cons x xs)
  have "set xs = fst ` set (filter (\<lambda>b. fst b \<noteq> x) bs)" using Cons.prems by force
  with Cons show ?case by auto
qed simp

subsection \<open>Orderly backends\<close>

definition named_call :: "chunk_tool_call \<Rightarrow> bool" where
  "named_call tc \<longleftrightarrow> kt_id tc \<noteq> None \<and> Option.bind (kt_function tc) kf_name \<noteq> None"

text \<open>The first fragment of every tool carries its identifier and its name.\<close>

fun introduced :: "32 word list \<Rightarrow> chunk_tool_call list \<Rightarrow> bool" where
  "introduced seen [] \<longleftrightarrow> True"
| "introduced seen (tc # tcs) \<longleftrightarrow> (kt_index tc \<in> set seen \<or> named_call tc) \<and> introduced (kt_index tc # seen) tcs"

lemma introduced_cong: "set a = set b \<Longrightarrow> introduced a tcs = introduced b tcs"
  by (induction tcs arbitrary: a b) (simp, metis introduced.simps(2) list.simps(15))

lemma introduced_append: "introduced seen (a @ b) \<longleftrightarrow> introduced seen a \<and> introduced (List.map kt_index a @ seen) b"
proof (induction a arbitrary: seen)
  case (Cons tc a)
  have "introduced (List.map kt_index a @ kt_index tc # seen) b = introduced (List.map kt_index (tc # a) @ seen) b"
    by (rule introduced_cong) auto
  with Cons show ?case by auto
qed simp

text \<open>An item ends the message when it is an error or carries a finish reason, and it is silent without a choice.\<close>

definition closing_item :: "('e, chat_chunk) result \<Rightarrow> bool" where
  "closing_item c =
     (case c of Inl _ \<Rightarrow> True
      | Inr chunk \<Rightarrow> (case kk_choices chunk of [] \<Rightarrow> False | choice # _ \<Rightarrow> kc_finish_reason choice \<noteq> None))"

definition silent_item :: "('e, chat_chunk) result \<Rightarrow> bool" where
  "silent_item c = (case c of Inl _ \<Rightarrow> False | Inr chunk \<Rightarrow> kk_choices chunk = [])"

fun closes_once :: "'e chunk_stream \<Rightarrow> bool" where
  "closes_once [] \<longleftrightarrow> False"
| "closes_once (c # cs) \<longleftrightarrow> (if closing_item c then list_all silent_item cs else closes_once cs)"

definition stream_calls :: "'e chunk_stream \<Rightarrow> chunk_tool_call list" where
  "stream_calls cs = concat (List.map item_calls cs)"

definition orderly :: "'e chunk_stream \<Rightarrow> bool" where
  "orderly cs \<longleftrightarrow> closes_once cs \<and> introduced [] (stream_calls cs)"

subsection \<open>Translator and checker in step\<close>

definition all_started :: "stream_state \<Rightarrow> bool" where
  "all_started st \<longleftrightarrow> (\<forall>b\<in>set (sm_tool_blocks st). snd (snd b))"

definition synced :: "stream_state \<Rightarrow> (32 word \<times> bool) list \<Rightarrow> 32 word list \<Rightarrow> bool" where
  "synced st bs used \<longleftrightarrow>
     fresh_ok st \<and> all_started st \<and> (\<forall>u\<in>set used. u < sm_next_block_index st)
     \<and> set bs = (case sm_text_block_index st of None \<Rightarrow> {} | Some t \<Rightarrow> {(t, True)}) \<union> (\<lambda>i. (i, False)) ` set (tool_indices st)"

definition serves :: "stream_state \<Rightarrow> sse_event list \<Rightarrow> stream_state \<Rightarrow> bool" where
  "serves st e st' \<longleftrightarrow>
     (\<forall>bs used. synced st bs used \<longrightarrow>
        (\<exists>bs' used'. client_run (Reading bs used) e = Some (Reading bs' used') \<and> synced st' bs' used'))"

lemma servesI:
  "(\<And>bs used. synced st bs used \<Longrightarrow> \<exists>bs' used'. client_run (Reading bs used) e = Some (Reading bs' used') \<and> synced st' bs' used')
   \<Longrightarrow> serves st e st'"
  by (simp add: serves_def)

lemma serves_refl: "serves st [] st"
  by (simp add: serves_def)

lemma serves_trans: "serves a e1 b \<Longrightarrow> serves b e2 c \<Longrightarrow> serves a (e1 @ e2) c"
  by (fastforce simp: serves_def)

lemma all_started_simps [simp]:
  "all_started (count_tokens s st) = all_started st" "all_started (st\<lparr>sm_text_block_index := t\<rparr>) = all_started st"
  "all_started (st\<lparr>sm_next_block_index := n\<rparr>) = all_started st" "all_started (st\<lparr>sm_finish_reason := r\<rparr>) = all_started st"
  by (simp_all add: all_started_def count_tokens_def)

lemma synced_simps [simp]:
  "synced (count_tokens s st) bs used = synced st bs used" "synced (st\<lparr>sm_finish_reason := r\<rparr>) bs used = synced st bs used"
  by (simp_all add: synced_def)

lemma next_unused:
  assumes "room 1 st" "synced st bs used"
  shows "sm_next_block_index st \<notin> set used" "sm_next_block_index st < saturating_add (sm_next_block_index st) 1"
    "\<forall>u\<in>set used. u < saturating_add (sm_next_block_index st) 1"
proof -
  have n: "unat (sm_next_block_index st) + 1 < 2 ^ 32" using assms(1) by (simp add: room_def)
  show l: "sm_next_block_index st < saturating_add (sm_next_block_index st) 1" by (rule saturating_add_gt [OF n order_refl])
  have u: "\<forall>u\<in>set used. u < sm_next_block_index st" using assms(2) by (simp add: synced_def)
  then show "sm_next_block_index st \<notin> set used" by auto
  show "\<forall>u\<in>set used. u < saturating_add (sm_next_block_index st) 1" using u l by (metis less_trans)
qed

lemma process_text_serves:
  assumes "process_text s st = (e, st')" "room 1 st"
  shows "serves st e st'"
proof (rule servesI)
  fix bs used assume s: "synced st bs used"
  have f: "fresh_ok st'"
    using process_text_content(3) [OF assms(1) _ assms(2)] s by (simp add: synced_def advances_def)
  show "\<exists>bs' used'. client_run (Reading bs used) e = Some (Reading bs' used') \<and> synced st' bs' used'"
  proof (cases "sm_text_block_index st")
    case None
    with assms(1) s f next_unused [OF assms(2) s] show ?thesis
      by (auto simp: process_text_def alloc_block_def synced_def Let_def)
  next
    case (Some t)
    with assms(1) s show ?thesis by (auto simp: process_text_def synced_def)
  qed
qed

lemma set_started_idle: "all_started st \<Longrightarrow> map_of (sm_tool_blocks st) k = Some (i, b) \<Longrightarrow> b"
  by (auto simp: all_started_def dest!: map_of_SomeD)

lemma tool_arguments_serves:
  assumes "tool_arguments tc i st = (e, st')" "i \<in> set (tool_indices st)"
  shows "serves st e st'"
  using assms by (auto simp: serves_def tool_arguments_def synced_def split: option.splits if_splits)

lemma known_tool_serves:
  assumes "process_tool_call tc st = (e, st')" "kt_index tc \<in> set (tool_keys st)"
  shows "serves st e st'"
proof (rule servesI)
  fix bs used assume s: "synced st bs used"
  obtain i b where m: "map_of (sm_tool_blocks st) (kt_index tc) = Some (i, b)"
    using assms(2) by (fastforce simp: tool_keys_def dest: weak_map_of_SomeI)
  have b: "b" "i \<in> set (tool_indices st)"
    using s set_started_idle [OF _ m] map_of_SomeD [OF m]
    by (auto simp: synced_def tool_indices_def intro: rev_image_eqI)
  then have "tool_arguments tc i st = (e, st')"
    using assms(1) m by (auto simp: process_tool_call_def reserve_tool_def start_tool_def split: prod.splits)
  from tool_arguments_serves [OF this b(2)] s
  show "\<exists>bs' used'. client_run (Reading bs used) e = Some (Reading bs' used') \<and> synced st' bs' used'"
    by (simp add: serves_def)
qed

lemma all_started_introduced:
  "all_started st \<Longrightarrow> all_started (set_started k (st\<lparr>sm_text_block_index := None, sm_next_block_index := n,
     sm_tool_blocks := sm_tool_blocks st @ [(k, (i, False))]\<rparr>))"
  by (auto simp: all_started_def set_started_def)

lemma new_tool_serves:
  assumes c: "process_tool_call tc st = (e, st')" and k: "kt_index tc \<notin> set (tool_keys st)" and nm: "named_call tc" and r: "room 1 st"
  shows "serves st e st'"
proof (rule servesI)
  fix bs used assume s: "synced st bs used"
  let ?i = "sm_next_block_index st" and ?k = "kt_index tc"
  let ?open = "set_started ?k (st\<lparr>sm_text_block_index := None, sm_next_block_index := saturating_add ?i 1,
     sm_tool_blocks := sm_tool_blocks st @ [(?k, (?i, False))]\<rparr>)"
  let ?stop = "case sm_text_block_index st of None \<Rightarrow> [] | Some t \<Rightarrow> [ContentBlockStop t]"
  obtain ident name where id: "kt_id tc = Some ident" "Option.bind (kt_function tc) kf_name = Some name"
    using nm by (auto simp: named_call_def)
  have none: "map_of (sm_tool_blocks st) ?k = None" using k by (simp add: map_of_eq_None_iff tool_keys_def)
  obtain e3 where e3: "tool_arguments tc ?i ?open = (e3, st')" "e = ?stop @ ContentBlockStart ?i (ToolUseBlock ident name) # e3"
    using c none id
    by (auto simp: process_tool_call_def reserve_tool_def alloc_block_def start_tool_def Let_def map_add_def split: prod.splits)
  have f: "fresh_ok ?open"
    using process_tool_call_content(2) [OF c _ r] s e3(1)
    by (auto simp: synced_def advances_def tool_arguments_def split: option.splits if_splits)
  have t: "\<forall>t. sm_text_block_index st = Some t \<longrightarrow> t \<notin> set (tool_indices st)" using s by (simp add: synced_def fresh_ok_def)
  define bs1 where "bs1 = (case sm_text_block_index st of None \<Rightarrow> bs | Some t \<Rightarrow> filter (\<lambda>b. fst b \<noteq> t) bs)"
  have run: "client_run (Reading bs used) ?stop = Some (Reading bs1 used)"
    using s by (auto simp: bs1_def synced_def split: option.splits)
  have "set bs1 = (\<lambda>i. (i, False)) ` set (tool_indices st)"
    using s t by (auto simp: bs1_def synced_def split: option.splits)
  then have sync: "synced ?open ((?i, False) # bs1) (?i # used)"
    using s f next_unused [OF r s] all_started_introduced [of st] by (auto simp: synced_def)
  have "serves ?open e3 st'" by (rule tool_arguments_serves [OF e3(1)]) simp
  with sync obtain bs' used' where "client_run (Reading ((?i, False) # bs1) (?i # used)) e3 = Some (Reading bs' used')" "synced st' bs' used'"
    unfolding serves_def by blast
  with e3(2) run next_unused(1) [OF r s]
  show "\<exists>bs' used'. client_run (Reading bs used) e = Some (Reading bs' used') \<and> synced st' bs' used'"
    by simp
qed

lemma step_keys:
  "tool_keys (snd (start_tool tc i b st)) = tool_keys st" "tool_keys (snd (tool_arguments tc i st)) = tool_keys st"
  by (auto simp: start_tool_def tool_arguments_def split: option.split bool.split)

lemma reserve_tool_keys: "set (tool_keys (snd (reserve_tool k st))) = insert k (set (tool_keys st))"
proof (cases "map_of (sm_tool_blocks st) k")
  case None
  then show ?thesis by (simp add: reserve_tool_def alloc_block_def tool_keys_def)
next
  case (Some b)
  then have "k \<in> set (tool_keys st)" by (force simp: tool_keys_def dest: map_of_SomeD)
  with Some show ?thesis by (simp add: reserve_tool_def insert_absorb)
qed

lemma process_tool_call_keys:
  "set (tool_keys (snd (process_tool_call tc st))) = insert (kt_index tc) (set (tool_keys st))"
  by (simp add: process_tool_call_def case_prod_beta step_keys reserve_tool_keys del: image_insert)

lemma process_tool_calls_serve:
  "\<lbrakk>process_tool_calls tcs st = (e, st'); introduced seen tcs; set seen = set (tool_keys st); fresh_ok st; room (length tcs) st\<rbrakk> \<Longrightarrow>
   serves st e st' \<and> set (tool_keys st') = set (List.map kt_index tcs @ seen)"
proof (induction tcs arbitrary: st e st' seen)
  case Nil
  then show ?case by (simp add: serves_refl)
next
  case (Cons tc tcs)
  obtain e1 st1 where c: "process_tool_call tc st = (e1, st1)" by fastforce
  obtain e2 st2 where r: "process_tool_calls tcs st1 = (e2, st2)" by fastforce
  have all: "e = e1 @ e2" "st' = st2" using Cons.prems(1) c r by simp_all
  have room: "room 1 st" using Cons.prems(5) by (simp add: room_def)
  note c1 = process_tool_call_content [OF c Cons.prems(4) room]
  have keys: "set (kt_index tc # seen) = set (tool_keys st1)"
    using process_tool_call_keys [of tc st] c Cons.prems(3) by simp
  have "serves st e1 st1"
    using known_tool_serves [OF c] new_tool_serves [OF c _ _ room] Cons.prems(2,3) by auto
  moreover have "fresh_ok st1" "room (length tcs) st1"
    using c1(2) advances_room [of 1 st st1 "length tcs"] Cons.prems(5) by (simp_all add: advances_def)
  ultimately show ?case
    using Cons.IH [OF r _ keys] Cons.prems(2) all by (auto intro: serves_trans)
qed

lemma process_text_keys: "process_text s st = (e, st') \<Longrightarrow> tool_keys st' = tool_keys st"
  by (auto simp: process_text_def alloc_block_def Let_def split: option.splits)

lemma process_delta_serves:
  assumes p: "process_delta d st = (e, st')" and i: "introduced seen (delta_calls d)" and k: "set seen = set (tool_keys st)"
    and f: "fresh_ok st" and r: "room (1 + length (delta_calls d)) st"
  shows "serves st e st' \<and> set (tool_keys st') = set (List.map kt_index (delta_calls d) @ seen)"
proof -
  obtain e1 st1 where p1: "(case kd_content d of Some s \<Rightarrow> if s \<noteq> [] then process_text s st else ([], st) | None \<Rightarrow> ([], st)) = (e1, st1)"
    by fastforce
  obtain e2 st2 where p2: "process_tool_calls (delta_calls d) st1 = (e2, st2)" by fastforce
  have all: "e = e1 @ e2" "st' = st2"
    using p p1 p2 by (auto simp: process_delta_def delta_calls_def split: option.splits)
  have r1: "room 1 st" using r by (simp add: room_def)
  have s1: "serves st e1 st1" "advances 1 st st1" "tool_keys st1 = tool_keys st"
    using p1 process_text_serves [OF _ r1] process_text_content(3) [OF _ f r1] process_text_keys f
    by (auto simp: serves_refl advances_refl split: option.splits if_splits)
  have "fresh_ok st1" "room (length (delta_calls d)) st1"
    using s1(2) advances_room [OF s1(2)] r by (simp_all add: advances_def)
  with process_tool_calls_serve [OF p2 i] k s1 all show ?thesis by (auto intro: serves_trans)
qed

lemma close_open_blocks_run:
  assumes "synced st bs used"
  shows "client_run (Reading bs used) (fst (close_open_blocks st)) = Some (Reading [] used)"
proof -
  define xs where "xs = (case sm_text_block_index st of None \<Rightarrow> [] | Some t \<Rightarrow> [t]) @ tool_indices st"
  have d: "distinct xs" using assms by (auto simp: xs_def synced_def fresh_ok_def split: option.split)
  have f: "filter (snd \<circ> snd) (sm_tool_blocks st) = sm_tool_blocks st"
    using assms by (simp add: synced_def all_started_def filter_id_conv)
  have "fst (close_open_blocks st) = List.map ContentBlockStop (remdups_adj (sort xs))"
    using f by (simp add: close_open_blocks_def tool_indices_def comp_def xs_def Let_def)
  also have "remdups_adj (sort xs) = sort xs" using d by (simp add: remdups_adj_distinct)
  finally have e: "fst (close_open_blocks st) = List.map ContentBlockStop (sort xs)" .
  have "fst ` set bs = set xs"
    using assms by (cases "sm_text_block_index st") (simp_all add: synced_def xs_def image_Un image_image)
  with d show ?thesis unfolding e by (intro client_run_stops) simp_all
qed

lemma finish_message_run:
  "synced st bs used \<Longrightarrow> client_run (Reading bs used) (fst (finish_message st)) = Some Finished"
  using close_open_blocks_run [of st bs used] by (simp add: finish_message_def case_prod_beta Let_def)

lemma error_item_run:
  "process_chunk (Inl x) st = (e, st') \<Longrightarrow> synced st bs used \<Longrightarrow> client_run (Reading bs used) e = Some Finished"
  using close_open_blocks_run [of st bs used] by (auto simp: process_chunk_def case_prod_beta Let_def)

lemma choice_item_serves:
  fixes chunk :: chat_chunk
  assumes c: "kk_choices chunk = choice # rest" and p: "process_chunk (Inr chunk) st = (e, st')"
    and i: "introduced seen (delta_calls (kc_delta choice))" and k: "set seen = set (tool_keys st)" and f: "fresh_ok st"
    and r: "room (1 + length (delta_calls (kc_delta choice))) st"
  shows "kc_finish_reason choice \<noteq> None \<Longrightarrow> synced st bs used \<Longrightarrow> client_run (Reading bs used) e = Some Finished"
    "kc_finish_reason choice = None \<Longrightarrow>
     serves st e st' \<and> set (tool_keys st') = set (List.map kt_index (delta_calls (kc_delta choice)) @ seen)"
proof -
  let ?st0 = "case kc_finish_reason choice of Some r \<Rightarrow> st\<lparr>sm_finish_reason := Some r\<rparr> | None \<Rightarrow> st"
  obtain e1 st1 where d: "process_delta (kc_delta choice) ?st0 = (e1, st1)" by fastforce
  have st0: "set seen = set (tool_keys ?st0)" "fresh_ok ?st0" "room (1 + length (delta_calls (kc_delta choice))) ?st0"
    using k f r by (auto simp: room_def split: option.split)
  note s = process_delta_serves [OF d i st0]
  show "serves st e st' \<and> set (tool_keys st') = set (List.map kt_index (delta_calls (kc_delta choice)) @ seen)"
    if "kc_finish_reason choice = None"
    using that c p d s by (simp add: process_chunk_def)
  show "client_run (Reading bs used) e = Some Finished" if fin: "kc_finish_reason choice \<noteq> None" and sy: "synced st bs used"
  proof -
    have "synced ?st0 bs used" using sy by (auto split: option.split)
    with s obtain bs1 used1 where "client_run (Reading bs used) e1 = Some (Reading bs1 used1)" "synced st1 bs1 used1"
      unfolding serves_def by blast
    moreover have "e = e1 @ fst (finish_message st1)"
      using fin c p d by (auto simp: process_chunk_def split: prod.splits)
    ultimately show ?thesis by (simp add: finish_message_run)
  qed
qed

lemma item_serves:
  assumes p: "process_chunk c st = (e, st')" and i: "introduced seen (item_calls c)" and k: "set seen = set (tool_keys st)"
    and f: "fresh_ok st" and r: "room (item_pieces c) st"
  shows "closing_item c \<Longrightarrow> synced st bs used \<Longrightarrow> client_run (Reading bs used) e = Some Finished"
    "\<not> closing_item c \<Longrightarrow> serves st e st' \<and> set (tool_keys st') = set (List.map kt_index (item_calls c) @ seen)"
proof -
  consider (err) x where "c = Inl x" | (quiet) chunk where "c = Inr chunk" "kk_choices chunk = []"
    | (choice) chunk choice rest where "c = Inr chunk" "kk_choices chunk = choice # rest"
    by (metis list.exhaust sum.exhaust)
  note item = this
  show "client_run (Reading bs used) e = Some Finished" if cl: "closing_item c" and sy: "synced st bs used"
  proof (cases rule: item)
    case err
    with p sy show ?thesis by (simp add: error_item_run)
  next
    case quiet
    with cl show ?thesis by (simp add: closing_item_def)
  next
    case choice
    show ?thesis
      using choice_item_serves(1) [OF choice(2)] p i k f r cl sy choice
      by (simp add: closing_item_def item_calls_def item_pieces_def first_delta_def)
  qed
  show "serves st e st' \<and> set (tool_keys st') = set (List.map kt_index (item_calls c) @ seen)" if cl: "\<not> closing_item c"
  proof (cases rule: item)
    case err
    with cl show ?thesis by (simp add: closing_item_def)
  next
    case quiet
    with p k show ?thesis by (simp add: process_chunk_def item_calls_def first_delta_def serves_refl)
  next
    case choice
    show ?thesis
      using choice_item_serves(2) [OF choice(2)] p i k f r cl choice
      by (simp add: closing_item_def item_calls_def item_pieces_def first_delta_def)
  qed
qed

lemma silent_stream: "list_all silent_item cs \<Longrightarrow> content_events cs st = []"
  by (induction cs arbitrary: st) (auto simp: silent_item_def process_chunk_def split: sum.splits)

lemma content_events_run:
  "\<lbrakk>closes_once cs; introduced seen (stream_calls cs); set seen = set (tool_keys st); room (pieces cs) st; synced st bs used\<rbrakk> \<Longrightarrow>
   client_run (Reading bs used) (content_events cs st) = Some Finished"
proof (induction cs arbitrary: st seen bs used)
  case (Cons c cs)
  obtain e st1 where p: "process_chunk c st = (e, st1)" by fastforce
  have f: "fresh_ok st" using Cons.prems(5) by (simp add: synced_def)
  have r: "room (item_pieces c) st" "room (item_pieces c + pieces cs) st" using Cons.prems(4) by (simp_all add: sent_Cons room_def)
  have i: "introduced seen (item_calls c)" "introduced (List.map kt_index (item_calls c) @ seen) (stream_calls cs)"
    using Cons.prems(2) by (simp_all add: stream_calls_def introduced_append)
  note adv = process_chunk_content [OF p f r(1), THEN conjunct2]
  note item = item_serves [OF p i(1) Cons.prems(3) f r(1)]
  show ?case
  proof (cases "closing_item c")
    case True
    with item(1) Cons.prems(5) p Cons.prems(1) show ?thesis by (simp add: silent_stream)
  next
    case False
    then obtain bs1 used1 where "client_run (Reading bs used) e = Some (Reading bs1 used1)" "synced st1 bs1 used1"
      using item(2) Cons.prems(5) unfolding serves_def by blast
    moreover have "room (pieces cs) st1" by (rule advances_room [OF adv r(2)])
    ultimately show ?thesis
      using False item(2) p i(2) Cons.prems(1) Cons.IH [of "List.map kt_index (item_calls c) @ seen" st1 bs1 used1] by simp
  qed
qed simp

lemma stream_accepted:
  assumes "orderly chunks" "pieces chunks < 2 ^ 32"
  shows "client_run (Reading [] []) (chunks_to_anthropic_content_sse chunks) = Some Finished"
  unfolding chunks_to_anthropic_content_sse_def
proof (rule content_events_run)
  show "closes_once chunks" "introduced [] (stream_calls chunks)" using assms(1) by (simp_all add: orderly_def)
qed (use assms(2) in \<open>simp_all add: stream_state_new_def tool_keys_def tool_indices_def room_def synced_def fresh_ok_def all_started_def\<close>)

subsection \<open>The keepalive wrapper\<close>

text \<open>The events that a phase still has to send, pings apart, and how often it waits for the backend.\<close>

definition safe_end :: "bool \<Rightarrow> sse_event list \<Rightarrow> sse_event list" where
  "safe_end stop_emitted items =
     items @ (if stop_emitted \<or> MessageStop \<in> set items then [] else [MessageDelta ''end_turn'' 0, MessageStop])"

definition dispatch_events :: "'e stream_dispatch \<Rightarrow> sse_event list" where
  "dispatch_events d =
     (case d of DispatchReady chunks \<Rightarrow> safe_end False (chunks_to_anthropic_content_sse chunks)
      | DispatchFailed t m \<Rightarrow> [ErrorEvent t m, MessageStop])"

definition dispatch_waits :: "'e stream_dispatch \<Rightarrow> nat" where
  "dispatch_waits d =
     (case d of DispatchReady chunks \<Rightarrow> length (chunks_to_anthropic_content_sse chunks) + 2 | DispatchFailed t m \<Rightarrow> 1)"

fun phase_events :: "'e keepalive_phase \<Rightarrow> sse_event list" where
  "phase_events (PhaseStart s d) = s # dispatch_events d"
| "phase_events (PhaseWaiting d) = dispatch_events d"
| "phase_events (PhaseContent items stop_emitted) = safe_end stop_emitted items"
| "phase_events (PhaseError t m) = [ErrorEvent t m, MessageStop]"
| "phase_events PhaseStop = [MessageStop]"
| "phase_events PhaseDone = []"

fun phase_waits :: "'e keepalive_phase \<Rightarrow> nat" where
  "phase_waits (PhaseStart s d) = dispatch_waits d"
| "phase_waits (PhaseWaiting d) = dispatch_waits d"
| "phase_waits (PhaseContent items stop_emitted) = length items + 1"
| "phase_waits _ = 0"

fun pingless :: "'e keepalive_phase \<Rightarrow> bool" where
  "pingless (PhaseStart s d) \<longleftrightarrow> s \<noteq> Ping"
| "pingless (PhaseContent items stop_emitted) \<longleftrightarrow> Ping \<notin> set items"
| "pingless _ \<longleftrightarrow> True"

definition writes_json :: "json_text \<Rightarrow> bool" where
  "writes_json jt \<longleftrightarrow> (\<forall>v. jt_to_string jt v \<noteq> None)"

lemma is_message_stop_iff: "writes_json jt \<Longrightarrow> is_message_stop jt ev \<longleftrightarrow> ev = MessageStop"
  by (cases ev) (auto simp: is_message_stop_def format_sse_event_def writes_json_def split: option.split)

lemma no_ping_text: "Ping \<notin> set (fst (process_text s st))"
  by (simp add: process_text_def alloc_block_def Let_def split: option.split)

lemma no_ping_tool_call: "Ping \<notin> set (fst (process_tool_call tc st))"
proof -
  have "Ping \<notin> set (fst (reserve_tool k st))" for k st
    by (simp add: reserve_tool_def alloc_block_def Let_def split: option.split)
  moreover have "Ping \<notin> set (fst (start_tool tc i b st))" "Ping \<notin> set (fst (tool_arguments tc i st))" for i b st
    by (simp_all add: start_tool_def tool_arguments_def split: option.split bool.split)
  ultimately show ?thesis by (simp add: process_tool_call_def case_prod_beta Let_def)
qed

lemma no_ping_tool_calls: "Ping \<notin> set (fst (process_tool_calls tcs st))"
  by (induction tcs arbitrary: st) (simp_all add: case_prod_beta Let_def no_ping_tool_call)

lemma no_ping_close: "Ping \<notin> set (fst (close_open_blocks st))"
  by (auto simp: close_open_blocks_def Let_def)

lemma no_ping_chunk: "Ping \<notin> set (fst (process_chunk c st))"
proof -
  have "Ping \<notin> set (fst (process_delta d st))" for d st
    by (simp add: process_delta_def case_prod_beta Let_def no_ping_text no_ping_tool_calls split: option.split)
  moreover have "Ping \<notin> set (fst (finish_message st))" for st
    by (simp add: finish_message_def case_prod_beta Let_def no_ping_close)
  ultimately show ?thesis
    by (simp add: process_chunk_def case_prod_beta Let_def no_ping_close split: sum.split list.split option.split)
qed

lemma no_ping_content: "Ping \<notin> set (chunks_to_anthropic_content_sse chunks)"
proof -
  have "Ping \<notin> set (content_events chunks st)" for st
    by (induction chunks arbitrary: st) (simp_all add: case_prod_beta Let_def no_ping_chunk)
  then show ?thesis by (simp add: chunks_to_anthropic_content_sse_def)
qed

lemma keepalive_poll_yield:
  "keepalive_poll jt ws ph = Yield ev ph' ws' \<Longrightarrow> pingless ph \<Longrightarrow> writes_json jt \<Longrightarrow>
   pingless ph' \<and> phase_events ph = (if ev = Ping then phase_events ph' else ev # phase_events ph')
   \<and> phase_waits ph' + count_list ws BackendReady \<le> phase_waits ph + count_list ws' BackendReady"
  by (induction jt ws ph rule: keepalive_poll.induct)
    (auto simp: safe_end_def dispatch_events_def dispatch_waits_def is_message_stop_iff no_ping_content split: if_splits stream_dispatch.splits)

lemma keepalive_poll_stops:
  "keepalive_poll jt ws ph = Ended \<Longrightarrow> phase_events ph = []"
  "keepalive_poll jt ws ph = Pending \<Longrightarrow> count_list ws BackendReady < phase_waits ph"
  by (induction jt ws ph rule: keepalive_poll.induct)
    (auto simp: safe_end_def dispatch_events_def dispatch_waits_def split: if_splits stream_dispatch.splits)

lemma keepalive_run_correct:
  assumes "keepalive_run jt ws ph = (evs, ended)" "pingless ph" "writes_json jt"
  shows "prefix (filter (\<lambda>e. e \<noteq> Ping) evs) (phase_events ph)"
    and "ended \<Longrightarrow> filter (\<lambda>e. e \<noteq> Ping) evs = phase_events ph"
    and "phase_waits ph \<le> count_list ws BackendReady \<Longrightarrow> ended"
proof -
  have "prefix (filter (\<lambda>e. e \<noteq> Ping) evs) (phase_events ph)
      \<and> (ended \<longrightarrow> filter (\<lambda>e. e \<noteq> Ping) evs = phase_events ph)
      \<and> (phase_waits ph \<le> count_list ws BackendReady \<longrightarrow> ended)"
    using assms
  proof (induction jt ws ph arbitrary: evs ended rule: keepalive_run.induct)
    case (1 jt ws ph)
    show ?case
    proof (cases "keepalive_poll jt ws ph")
      case (Yield ev ph' ws')
      obtain evs' where r: "keepalive_run jt ws' ph' = (evs', ended)" and evs: "evs = ev # evs'"
        using "1.prems"(1) Yield by (auto simp: keepalive_run.simps [of jt ws ph] split: prod.splits)
      note y = keepalive_poll_yield [OF Yield "1.prems"(2,3)]
      note ih = "1.IH" [OF Yield r _ "1.prems"(3)]
      show ?thesis using y ih evs by auto
    next
      case Ended
      then show ?thesis using "1.prems"(1) keepalive_poll_stops(1) [OF Ended] by (simp add: keepalive_run.simps [of jt ws ph])
    next
      case Pending
      then show ?thesis using "1.prems"(1) keepalive_poll_stops(2) [OF Pending] by (auto simp: keepalive_run.simps [of jt ws ph])
    qed
  qed
  then show "prefix (filter (\<lambda>e. e \<noteq> Ping) evs) (phase_events ph)"
    and "ended \<Longrightarrow> filter (\<lambda>e. e \<noteq> Ping) evs = phase_events ph"
    and "phase_waits ph \<le> count_list ws BackendReady \<Longrightarrow> ended" by blast+
qed

lemma client_run_pings: "c \<noteq> AwaitStart \<Longrightarrow> client_run c (filter (\<lambda>e. e \<noteq> Ping) evs) = client_run c evs"
proof (induction evs arbitrary: c)
  case (Cons e evs)
  have "client_step c Ping = Some c" using Cons.prems by (cases c) simp_all
  moreover have "c' \<noteq> AwaitStart" if "client_step c e = Some c'" for c'
    using that by (cases "(c, e)" rule: client_step.cases) (auto split: if_splits)
  ultimately show ?case using Cons by (auto split: option.split)
qed simp

lemma finished_by_stop: "client_run c evs = Some Finished \<Longrightarrow> c \<noteq> Finished \<Longrightarrow> MessageStop \<in> set evs"
proof (induction evs arbitrary: c)
  case (Cons e evs)
  then obtain c' where c': "client_step c e = Some c'" "client_run c' evs = Some Finished" by (auto split: option.splits)
  have "e = MessageStop" if "c' = Finished"
    using that c'(1) Cons.prems(2) by (cases "(c, e)" rule: client_step.cases) (auto split: if_splits)
  with Cons.IH [OF c'(2)] show ?case by auto
qed simp

definition orderly_dispatch :: "'e stream_dispatch \<Rightarrow> bool" where
  "orderly_dispatch d = (case d of DispatchReady chunks \<Rightarrow> orderly chunks \<and> pieces chunks < 2 ^ 32 | DispatchFailed t m \<Rightarrow> True)"

lemma dispatch_accepted:
  assumes "orderly_dispatch d"
  shows "client_run (Reading [] []) (dispatch_events d) = Some Finished"
proof (cases d)
  case (DispatchReady chunks)
  then have r: "client_run (Reading [] []) (chunks_to_anthropic_content_sse chunks) = Some Finished"
    using assms by (simp add: orderly_dispatch_def stream_accepted)
  then have "MessageStop \<in> set (chunks_to_anthropic_content_sse chunks)" by (rule finished_by_stop) simp
  with r DispatchReady show ?thesis by (simp add: dispatch_events_def safe_end_def)
qed (simp add: dispatch_events_def)

subsection \<open>What the client receives\<close>

text \<open>C21: The keepalive wrapper changes nothing but the pings. Whatever the order of ticks and backend events, the other
  events are a prefix of the message: its start, the backend's content, and a safety close when the backend ended
  without one, or the error and the stop when the dispatch failed. They are all of it once the stream ends, and it ends
  as soon as the backend has answered every wait, however many ticks come between.\<close>

theorem keepalive_adds_only_pings:
  assumes "writes_json jt" "keepalive_anthropic_sse jt ws d model message_id = (evs, ended)"
  shows "prefix (filter (\<lambda>e. e \<noteq> Ping) evs) (MessageStart model message_id # dispatch_events d)
    \<and> (ended \<longrightarrow> filter (\<lambda>e. e \<noteq> Ping) evs = MessageStart model message_id # dispatch_events d)
    \<and> (dispatch_waits d \<le> count_list ws BackendReady \<longrightarrow> ended)"
  using keepalive_run_correct [of jt ws "PhaseStart (MessageStart model message_id) d" evs ended] assms
  by (simp add: keepalive_anthropic_sse_def)

definition sample_json_text :: json_text where
  "sample_json_text = \<lparr>jt_to_string = (\<lambda>_. Some ''{}''), jt_from_str = (\<lambda>_. None), jt_display = (\<lambda>_. ''{}'')\<rparr>"

lemma sample_writes_json: "writes_json sample_json_text"
  by (simp add: writes_json_def sample_json_text_def)

lemmas machine_defs = process_chunk_def process_delta_def process_text_def process_tool_call_def reserve_tool_def start_tool_def
  tool_arguments_def alloc_block_def count_tokens_def set_started_def finish_message_def close_open_blocks_def stream_state_new_def

definition sample_wakes :: "wake list" where
  "sample_wakes = Tick # replicate 16 BackendReady @ [Tick]"

lemma sample_stream_events:
  "chunks_to_anthropic_content_sse sample_stream =
   [ContentBlockStart 0 TextBlock, ContentBlockDelta 0 (TextDelta ''hi''), ContentBlockStop 0,
    ContentBlockStart 1 (ToolUseBlock ''get'' ''get''), ContentBlockDelta 1 (InputJsonDelta ''{''),
    ContentBlockStart 2 (ToolUseBlock ''put'' ''put''), ContentBlockDelta 2 (InputJsonDelta ''[]''),
    ContentBlockDelta 1 (InputJsonDelta ''}''), ContentBlockStop 1, ContentBlockStop 2, MessageDelta ''tool_use'' 0, MessageStop]"
  by (simp add: chunks_to_anthropic_content_sse_def sample_stream_def sample_chunk_defs machine_defs map_stop_reason_def saturating_add_def)

lemma sample_waits: "dispatch_waits (DispatchReady sample_stream) \<le> count_list sample_wakes BackendReady"
  by (simp add: dispatch_waits_def sample_stream_events sample_wakes_def numeral_eq_Suc)

theorem keepalive_adds_only_pings_witness:
  "filter (\<lambda>e. e \<noteq> Ping) (fst (keepalive_anthropic_sse sample_json_text sample_wakes (DispatchReady sample_stream) ''m'' ''msg''))
     = MessageStart ''m'' ''msg'' # dispatch_events (DispatchReady sample_stream)
   \<and> snd (keepalive_anthropic_sse sample_json_text sample_wakes (DispatchReady sample_stream) ''m'' ''msg'')"
  using keepalive_adds_only_pings [OF sample_writes_json, of sample_wakes "DispatchReady sample_stream" "''m''" "''msg''"] sample_waits
  by (metis prod.collapse)

lemma whole_message_read:
  assumes "writes_json jt" "orderly_dispatch d" "dispatch_waits d \<le> count_list ws BackendReady"
  shows "\<exists>evs. keepalive_anthropic_sse jt ws d model message_id = (evs, True) \<and> client_run AwaitStart evs = Some Finished"
proof -
  let ?start = "MessageStart model message_id"
  obtain evs ended where r: "keepalive_run jt ws (PhaseWaiting d) = (evs, ended)" by fastforce
  note k = keepalive_run_correct [OF r _ assms(1)]
  have e: "ended" "filter (\<lambda>e. e \<noteq> Ping) evs = dispatch_events d" using k(2,3) assms(3) by simp_all
  have "client_run (Reading [] []) evs = Some Finished"
    using client_run_pings [of "Reading [] []" evs] dispatch_accepted [OF assms(2)] e(2) by simp
  then show ?thesis
    using r e(1) by (simp add: keepalive_anthropic_sse_def keepalive_run.simps [of jt ws "PhaseStart ?start d"])
qed

text \<open>C16: A client that checks the protocol reads a whole message. For a failed dispatch, and for a backend whose
  stream introduces every tool by its identifier and name and ends the message once, the checker accepts every event
  of the keepalive stream and is finished when the stream ends, and it does end.\<close>

theorem client_reads_whole_message:
  assumes "writes_json jt" "orderly_dispatch d" "dispatch_waits d \<le> count_list ws BackendReady"
  shows "\<exists>evs. keepalive_anthropic_sse jt ws d model message_id = (evs, True) \<and> client_run AwaitStart evs = Some Finished"
  by (rule whole_message_read [OF assms])

lemma sample_stream_orderly: "orderly_dispatch (DispatchReady sample_stream)"
  using sample_stream_content(3)
  by (simp add: orderly_dispatch_def orderly_def sample_stream_def sample_chunk_defs stream_calls_def item_calls_def first_delta_def
      delta_calls_def named_call_def closing_item_def)

theorem client_reads_whole_message_witness:
  "\<exists>evs. keepalive_anthropic_sse sample_json_text sample_wakes (DispatchReady sample_stream) ''m'' ''msg'' = (evs, True)
     \<and> client_run AwaitStart evs = Some Finished"
  by (rule client_reads_whole_message [OF sample_writes_json sample_stream_orderly sample_waits])

subsection \<open>Streams that the checker refuses\<close>

text \<open>A tool whose arguments come before its name: the delta names a block that is not open.\<close>

lemma argument_delta_before_start:
  "client_run AwaitStart (chunks_to_anthropic_sse [tool_chunk 0 None ''{}'', stop_chunk ''tool_calls'' :: (string, chat_chunk) result] ''m'' ''msg'') = None"
  by (simp add: chunks_to_anthropic_sse_def chunks_to_anthropic_content_sse_def sample_chunk_defs machine_defs map_stop_reason_def saturating_add_def)

text \<open>A backend that breaks off in the middle of a text: the safety close leaves the block open.\<close>

lemma safety_close_leaves_block_open:
  assumes "writes_json jt"
  shows "client_run AwaitStart (fst (keepalive_anthropic_sse jt (replicate 4 BackendReady) (DispatchReady [text_chunk :: (string, chat_chunk) result]) ''m'' ''msg'')) = None"
proof -
  have "chunks_to_anthropic_content_sse [text_chunk :: (string, chat_chunk) result]
      = [ContentBlockStart 0 TextBlock, ContentBlockDelta 0 (TextDelta ''hi'')]"
    by (simp add: chunks_to_anthropic_content_sse_def sample_chunk_defs machine_defs saturating_add_def)
  with assms show ?thesis
    by (simp add: keepalive_anthropic_sse_def keepalive_run.simps is_message_stop_iff numeral_eq_Suc)
qed

text \<open>An error in the middle: the translator goes on with the next chunk after the \<open>message_stop\<close>.\<close>

lemma content_after_error:
  "chunks_to_anthropic_content_sse [Inl e, text_chunk] =
   [ErrorEvent ''api_error'' ''internal backend error'', MessageStop, ContentBlockStart 0 TextBlock, ContentBlockDelta 0 (TextDelta ''hi'')]"
  by (simp add: chunks_to_anthropic_content_sse_def sample_chunk_defs machine_defs)

text \<open>A tool call that the backend finishes with \<open>stop\<close>: the stream reports \<open>end_turn\<close>, the unary answer
  \<open>tool_use\<close>.\<close>

lemma streamed_tool_call_ends_turn:
  "MessageDelta ''end_turn'' 0
     \<in> set (chunks_to_anthropic_content_sse [tool_chunk 0 (Some ''get'') ''{}'', stop_chunk ''stop'' :: (string, chat_chunk) result])"
  by (simp add: chunks_to_anthropic_content_sse_def sample_chunk_defs machine_defs map_stop_reason_def saturating_add_def)

end
