(* ===== verification/Gateway_Provider.thy ===== *)
theory Gateway_Provider
  imports Gateway_Client
begin

text \<open>
  The reader of a backend's event stream (\<open>gradatum-gateway/src/providers/openai_compat.rs\<close>): network reads are
  decoded, gathered in a buffer, split at line feeds, and every \<open>data:\<close> line is parsed as a chunk. A text is the list
  of its bytes. The JSON reader is a parameter. A network read is a value of \<open>net_read\<close>, so the loop is a function of
  the list of reads.
\<close>

subsection \<open>Lossy decoding\<close>

text \<open>The standard library's decoder: a sequence that is not a code point becomes U+FFFD, byte by byte as far as it
  could have been one.\<close>

definition continuation :: "8 word \<Rightarrow> bool" where
  "continuation b \<longleftrightarrow> 128 \<le> b \<and> b < 192"

definition second_byte :: "8 word \<Rightarrow> 8 word \<Rightarrow> bool" where
  "second_byte b c \<longleftrightarrow>
     (if b = 0xE0 then 0xA0 \<le> c \<and> c \<le> 0xBF
      else if b = 0xED then 0x80 \<le> c \<and> c \<le> 0x9F
      else if b = 0xF0 then 0x90 \<le> c \<and> c \<le> 0xBF
      else if b = 0xF4 then 0x80 \<le> c \<and> c \<le> 0x8F
      else continuation c)"

text \<open>The bytes that the next step consumes after the first, and whether they are a code point.\<close>

definition decode_step :: "8 word \<Rightarrow> bytes \<Rightarrow> nat \<times> bool" where
  "decode_step b bs =
     (case code_point_len b of
        None \<Rightarrow> (0, False)
      | Some n \<Rightarrow>
          (let ok = (\<lambda>i. i < length bs \<and> (if i = 0 then second_byte b (bs ! 0) else continuation (bs ! i)));
               got = length (takeWhile ok [0..<n - 1]) in
           (got, got = n - 1)))"

fun from_utf8_lossy :: "bytes \<Rightarrow> bytes" where
  "from_utf8_lossy [] = []"
| "from_utf8_lossy (b # bs) =
     (let (n, ok) = decode_step b bs in
      (if ok then b # take n bs else [0xEF, 0xBF, 0xBD]) @ from_utf8_lossy (drop n bs))"

fun valid_utf8 :: "bytes \<Rightarrow> bool" where
  "valid_utf8 [] = True"
| "valid_utf8 (b # bs) = (snd (decode_step b bs) \<and> valid_utf8 (drop (fst (decode_step b bs)) bs))"

lemma from_utf8_lossy_valid: "valid_utf8 bs \<Longrightarrow> from_utf8_lossy bs = bs"
  by (induction bs rule: valid_utf8.induct) (simp_all add: case_prod_beta)

subsection \<open>The reader\<close>

datatype net_read = NetBytes bytes | NetError

datatype llm_stream_error = StreamNetwork | StreamSerialization

definition NEWLINE :: "8 word" where
  "NEWLINE = 10"

definition trim_carriage_returns :: "bytes \<Rightarrow> bytes" where
  "trim_carriage_returns line = rev (dropWhile (\<lambda>b. b = 13) (rev line))"

definition strip_data :: "bytes \<Rightarrow> bytes option" where
  "strip_data line =
     (if prefix (str_bytes ''data: '') line then Some (drop (length (str_bytes ''data: '')) line) else None)"

definition parse_chunk :: "(bytes \<Rightarrow> chat_chunk option) \<Rightarrow> bytes \<Rightarrow> (llm_stream_error, chat_chunk) result" where
  "parse_chunk from_str bs = (case from_str bs of Some c \<Rightarrow> Inr c | None \<Rightarrow> Inl StreamSerialization)"

lemma rest_shorter: "NEWLINE \<in> set buf \<Longrightarrow> length (tl (dropWhile (\<lambda>b. b \<noteq> NEWLINE) buf)) < length buf"
proof -
  assume "NEWLINE \<in> set buf"
  then have "dropWhile (\<lambda>b. b \<noteq> NEWLINE) buf \<noteq> []" by (simp add: dropWhile_eq_Nil_conv)
  then have "length (tl (dropWhile (\<lambda>b. b \<noteq> NEWLINE) buf)) < length (dropWhile (\<lambda>b. b \<noteq> NEWLINE) buf)" by simp
  then show ?thesis using length_dropWhile_le [of "\<lambda>b. b \<noteq> NEWLINE" buf] by linarith
qed

function sse_read :: "(bytes \<Rightarrow> chat_chunk option) \<Rightarrow> net_read list \<Rightarrow> bytes \<Rightarrow> llm_stream_error chunk_stream" where
  "sse_read from_str reads buf =
     (if NEWLINE \<in> set buf then
        (let line = trim_carriage_returns (takeWhile (\<lambda>b. b \<noteq> NEWLINE) buf);
             buf' = tl (dropWhile (\<lambda>b. b \<noteq> NEWLINE) buf) in
         case strip_data line of
           Some bs \<Rightarrow> if bs = str_bytes ''[DONE]'' then [] else parse_chunk from_str bs # sse_read from_str reads buf'
         | None \<Rightarrow> sse_read from_str reads buf')
      else
        (case reads of
           NetBytes bs # reads' \<Rightarrow> sse_read from_str reads' (buf @ from_utf8_lossy bs)
         | NetError # reads' \<Rightarrow> Inl StreamNetwork # sse_read from_str reads' buf
         | [] \<Rightarrow> []))"
  by pat_completeness auto
termination
  by (relation "measures [\<lambda>(p, reads, buf). length reads, \<lambda>(p, reads, buf). length buf]") (auto simp: rest_shorter simp del: length_tl)

declare sse_read.simps [simp del]

definition sse_bytes_to_chunks :: "(bytes \<Rightarrow> chat_chunk option) \<Rightarrow> net_read list \<Rightarrow> llm_stream_error chunk_stream" where
  "sse_bytes_to_chunks from_str reads = sse_read from_str reads []"

subsection \<open>The reader and the whole text\<close>

text \<open>The lines of a text that end in a line feed, what follows the last of them, and the payloads of the \<open>data:\<close>
  lines.\<close>

function full_lines :: "bytes \<Rightarrow> bytes list" where
  "full_lines text =
     (if NEWLINE \<in> set text then
        takeWhile (\<lambda>b. b \<noteq> NEWLINE) text # full_lines (tl (dropWhile (\<lambda>b. b \<noteq> NEWLINE) text))
      else [])"
  by pat_completeness auto
termination
  by (relation "measure length") (auto simp: rest_shorter simp del: length_tl)

declare full_lines.simps [simp del]

definition payloads :: "bytes \<Rightarrow> bytes list" where
  "payloads text = takeWhile (\<lambda>d. d \<noteq> str_bytes ''[DONE]'') (List.map_filter (strip_data \<circ> trim_carriage_returns) (full_lines text))"

lemma line_at_newline [simp]:
  assumes "NEWLINE \<notin> set line"
  shows "takeWhile (\<lambda>b. b \<noteq> NEWLINE) (line @ NEWLINE # rest) = line"
    "dropWhile (\<lambda>b. b \<noteq> NEWLINE) (line @ NEWLINE # rest) = NEWLINE # rest"
  using assms by (induction line) auto

lemma full_lines_line: "NEWLINE \<notin> set line \<Longrightarrow> full_lines (line @ NEWLINE # text) = line # full_lines text"
  by (subst full_lines.simps) simp

lemma full_lines_none [simp]: "NEWLINE \<notin> set text \<Longrightarrow> full_lines text = []"
  by (subst full_lines.simps) simp

lemma payloads_line:
  assumes "NEWLINE \<notin> set line"
  shows "payloads (line @ NEWLINE # text) =
    (case strip_data (trim_carriage_returns line) of
       None \<Rightarrow> payloads text | Some d \<Rightarrow> if d = str_bytes ''[DONE]'' then [] else d # payloads text)"
  using assms by (simp add: payloads_def full_lines_line map_filter_simps split: option.split)

lemma payloads_none [simp]: "NEWLINE \<notin> set text \<Longrightarrow> payloads text = []"
  by (simp add: payloads_def map_filter_simps)

lemma split_line:
  assumes "NEWLINE \<in> set buf"
  obtains line rest where "buf = line @ NEWLINE # rest" "NEWLINE \<notin> set line" "takeWhile (\<lambda>b. b \<noteq> NEWLINE) buf = line"
    "tl (dropWhile (\<lambda>b. b \<noteq> NEWLINE) buf) = rest"
proof -
  obtain line rest where "buf = line @ NEWLINE # rest" "NEWLINE \<notin> set line" using split_list_first [OF assms] by blast
  then show thesis by (intro that [of line rest]) simp_all
qed

lemma sse_read_text:
  "sse_read from_str (List.map NetBytes reads) buf = List.map (parse_chunk from_str) (payloads (buf @ concat (List.map from_utf8_lossy reads)))"
proof (induction from_str "List.map NetBytes reads" buf arbitrary: reads rule: sse_read.induct)
  case (1 from_str buf reads)
  show ?case
  proof (cases "NEWLINE \<in> set buf")
    case True
    then obtain line rest where s: "buf = line @ NEWLINE # rest" "NEWLINE \<notin> set line" "takeWhile (\<lambda>b. b \<noteq> NEWLINE) buf = line"
      "tl (dropWhile (\<lambda>b. b \<noteq> NEWLINE) buf) = rest"
      by (rule split_line)
    have ih: "sse_read from_str (List.map NetBytes reads) rest
        = List.map (parse_chunk from_str) (payloads (rest @ concat (List.map from_utf8_lossy reads)))"
      if "\<forall>d. strip_data (trim_carriage_returns line) = Some d \<longrightarrow> d \<noteq> str_bytes ''[DONE]''"
      using that 1(1,2) [OF True refl refl] s(3,4) by (cases "strip_data (trim_carriage_returns line)") auto
    show ?thesis
      using ih True s(3,4) payloads_line [OF s(2)] unfolding s(1)
      by (subst sse_read.simps) (auto simp: s(2) split: option.split)
  next
    case False
    show ?thesis
    proof (cases reads)
      case Nil
      with False show ?thesis by (subst sse_read.simps) simp
    next
      case (Cons bs reads')
      then have "sse_read from_str (List.map NetBytes reads') (buf @ from_utf8_lossy bs)
          = List.map (parse_chunk from_str) (payloads ((buf @ from_utf8_lossy bs) @ concat (List.map from_utf8_lossy reads')))"
        by (intro 1(3)) (simp_all add: False)
      with Cons False show ?thesis by (subst sse_read.simps) simp
    qed
  qed
qed

subsection \<open>Writing and reading a stream\<close>

text \<open>A backend's stream: one \<open>data:\<close> line and an empty line for every payload, then the end marker.\<close>

definition sse_line :: "bytes \<Rightarrow> bytes" where
  "sse_line d = str_bytes ''data: '' @ d @ [NEWLINE, NEWLINE]"

definition sse_text :: "bytes list \<Rightarrow> bytes" where
  "sse_text ds = concat (List.map sse_line ds) @ sse_line (str_bytes ''[DONE]'')"

definition plain_payload :: "bytes \<Rightarrow> bool" where
  "plain_payload d \<longleftrightarrow> NEWLINE \<notin> set d \<and> (d \<noteq> [] \<longrightarrow> List.last d \<noteq> 13) \<and> d \<noteq> str_bytes ''[DONE]''"

lemma data_prefix: "length (str_bytes ''data: '') = 6" "NEWLINE \<notin> set (str_bytes ''data: '')" "List.last (str_bytes ''data: '') \<noteq> 13"
  by (simp_all add: str_bytes_def NEWLINE_def)

lemma trim_data_line:
  assumes "d \<noteq> [] \<longrightarrow> List.last d \<noteq> 13"
  shows "strip_data (trim_carriage_returns (str_bytes ''data: '' @ d)) = Some d"
proof -
  have keep: "trim_carriage_returns line = line" if "line \<noteq> []" "List.last line \<noteq> 13" for line
    using that by (cases line rule: rev_cases) (simp_all add: trim_carriage_returns_def)
  have "str_bytes ''data: '' \<noteq> []" using data_prefix(1) by auto
  then have "trim_carriage_returns (str_bytes ''data: '' @ d) = str_bytes ''data: '' @ d"
    using assms data_prefix(3) by (intro keep) (auto simp: last_append)
  then show ?thesis by (simp add: strip_data_def)
qed

lemma payloads_sse_line:
  assumes "NEWLINE \<notin> set d" "d \<noteq> [] \<longrightarrow> List.last d \<noteq> 13"
  shows "payloads (sse_line d @ text) = (if d = str_bytes ''[DONE]'' then [] else d # payloads text)"
proof -
  have "NEWLINE \<notin> set (str_bytes ''data: '' @ d)" using assms(1) data_prefix(2) by simp
  from payloads_line [OF this, of "NEWLINE # text"] trim_data_line [OF assms(2)]
  have "payloads (sse_line d @ text) = (if d = str_bytes ''[DONE]'' then [] else d # payloads (NEWLINE # text))"
    by (simp add: sse_line_def)
  moreover have "payloads (NEWLINE # text) = payloads text"
    using payloads_line [of "[]" "text"] by (simp add: trim_carriage_returns_def strip_data_def str_bytes_def)
  ultimately show ?thesis by simp
qed

lemma payloads_sse_text: "list_all plain_payload ds \<Longrightarrow> payloads (sse_text ds @ rest) = ds"
proof (induction ds)
  case Nil
  show ?case
    using payloads_sse_line [of "str_bytes ''[DONE]''" rest] by (simp add: sse_text_def str_bytes_def NEWLINE_def)
next
  case (Cons d ds)
  then show ?case
    using payloads_sse_line [of d "sse_text ds @ rest"] by (simp add: sse_text_def plain_payload_def)
qed

lemma sse_bytes_to_chunks_payloads:
  assumes "list_all valid_utf8 reads" "list_all plain_payload ds" "concat reads = sse_text ds @ rest"
  shows "sse_bytes_to_chunks from_str (List.map NetBytes reads) = List.map (parse_chunk from_str) ds"
proof -
  have "concat (List.map from_utf8_lossy reads) = concat reads"
    using assms(1) by (induction reads) (simp_all add: from_utf8_lossy_valid)
  then show ?thesis
    using sse_read_text [of from_str reads "[]"] payloads_sse_text [OF assms(2), of rest] assms(3) by (simp add: sse_bytes_to_chunks_def)
qed


text \<open>Two payloads as a backend writes them, and a JSON reader that knows them.\<close>

definition hello_chunk :: chat_chunk where
  "hello_chunk = projr (text_chunk :: (string, chat_chunk) result)"

definition end_chunk :: chat_chunk where
  "end_chunk = projr (stop_chunk ''stop'' :: (string, chat_chunk) result)"

definition sample_write :: "chat_chunk \<Rightarrow> bytes" where
  "sample_write c = (if c = hello_chunk then [0xC3, 0xA9] else [123, 125])"

definition sample_from_str :: "bytes \<Rightarrow> chat_chunk option" where
  "sample_from_str d = (if d = [0xC3, 0xA9] then Some hello_chunk else if d = [123, 125] then Some end_chunk else None)"

lemma hello_chunk_end: "hello_chunk \<noteq> end_chunk"
  by (simp add: hello_chunk_def end_chunk_def sample_chunk_defs)

lemma split_reads:
  "list_all valid_utf8 [str_bytes ''dat'', str_bytes ''a: '' @ [0xC3, 0xA9], [10, 10] @ sse_text [[123, 125]]]"
  by (simp add: str_bytes_def sse_text_def sse_line_def NEWLINE_def decode_step_def code_point_len_def second_byte_def continuation_def)

lemma split_reads_text:
  "concat [str_bytes ''dat'', str_bytes ''a: '' @ [0xC3, 0xA9], [10, 10] @ sse_text [[123, 125]]] = sse_text [[0xC3, 0xA9], [123, 125]] @ []"
  by (simp add: str_bytes_def sse_text_def sse_line_def NEWLINE_def)

lemma sample_payloads: "list_all plain_payload [[0xC3, 0xA9], [123, 125]]"
  by (simp add: plain_payload_def str_bytes_def NEWLINE_def)


text \<open>The same stream with the two bytes of a character in different reads: the payload is not what was sent.\<close>

lemma split_character_is_lost:
  "sse_bytes_to_chunks sample_from_str
     (List.map NetBytes [str_bytes ''data: '' @ [0xC3], [0xA9, 10, 10] @ sse_text [[123, 125]]])
   = [Inl StreamSerialization, Inr end_chunk]"
proof -
  have "concat (List.map from_utf8_lossy [str_bytes ''data: '' @ [0xC3], [0xA9, 10, 10] @ sse_text [[123, 125]]])
      = sse_text [[0xEF, 0xBF, 0xBD, 0xEF, 0xBF, 0xBD], [123, 125]] @ []"
    by (simp add: str_bytes_def sse_text_def sse_line_def NEWLINE_def decode_step_def code_point_len_def second_byte_def continuation_def)
  moreover have "list_all plain_payload [[0xEF, 0xBF, 0xBD, 0xEF, 0xBF, 0xBD], [123, 125]]"
    by (simp add: plain_payload_def str_bytes_def NEWLINE_def)
  ultimately show ?thesis
    unfolding sse_bytes_to_chunks_def sse_read_text
    by (simp only: append_Nil payloads_sse_text) (simp add: parse_chunk_def sample_from_str_def)
qed

subsection \<open>From the backend's bytes to the client\<close>

lemma received_pings: "received_texts (filter (\<lambda>e. e \<noteq> Ping) evs) = received_texts evs"
  by (induction evs) (auto split: sse_event.split)

lemma content_texts:
  assumes "pieces chunks < 2 ^ 32"
  shows "received_texts (chunks_to_anthropic_content_sse chunks) = sent_texts chunks"
proof -
  have "fresh_ok stream_state_new" "room (pieces chunks) stream_state_new"
    using assms by (simp_all add: fresh_ok_def stream_state_new_def tool_keys_def tool_indices_def room_def)
  from content_events_content [OF this] show ?thesis by (auto simp: conveys_def chunks_to_anthropic_content_sse_def)
qed

lemma keepalive_texts:
  assumes "writes_json jt" "pieces chunks < 2 ^ 32"
    "keepalive_anthropic_sse jt ws (DispatchReady chunks) model message_id = (evs, True)"
  shows "received_texts evs = sent_texts chunks"
proof -
  have "filter (\<lambda>e. e \<noteq> Ping) evs = phase_events (PhaseStart (MessageStart model message_id) (DispatchReady chunks))"
    using keepalive_run_correct(2) [of jt ws "PhaseStart (MessageStart model message_id) (DispatchReady chunks)" evs True] assms(1,3) by (simp add: keepalive_anthropic_sse_def)
  then have "received_texts evs = received_texts (safe_end False (chunks_to_anthropic_content_sse chunks))"
    using received_pings [of evs] by (simp add: dispatch_events_def)
  then show ?thesis using content_texts [OF assms(2)] by (simp add: safe_end_def)
qed

text \<open>C9: From the backend's bytes to the client's message. A backend writes an orderly sequence of chunks as its event
  stream and the network delivers it in reads of whole characters. Then the keepalive stream over the chunks that the
  reader finds comes to its end, a client that checks the protocol accepts it and is finished, and the text it
  receives is the text the backend wrote.\<close>

theorem backend_bytes_reach_client:
  assumes "list_all valid_utf8 reads" "concat reads = sse_text (List.map write cs) @ rest"
    and "list_all (\<lambda>c. plain_payload (write c) \<and> from_str (write c) = Some c) cs"
    and "orderly_dispatch (DispatchReady (List.map Inr cs :: llm_stream_error chunk_stream))" "writes_json jt"
    and "dispatch_waits (DispatchReady (List.map Inr cs :: llm_stream_error chunk_stream)) \<le> count_list ws BackendReady"
  shows "\<exists>evs. keepalive_anthropic_sse jt ws (DispatchReady (sse_bytes_to_chunks from_str (List.map NetBytes reads))) model message_id
      = (evs, True)
    \<and> client_run AwaitStart evs = Some Finished
    \<and> received_texts evs = sent_texts (List.map Inr cs :: llm_stream_error chunk_stream)"
proof -
  let ?chunks = "List.map Inr cs :: llm_stream_error chunk_stream"
  have "list_all plain_payload (List.map write cs)" using assms(3) by (simp add: list_all_iff)
  then have read: "sse_bytes_to_chunks from_str (List.map NetBytes reads) = ?chunks"
    using sse_bytes_to_chunks_payloads [OF assms(1) _ assms(2)] assms(3) by (auto simp: list_all_iff parse_chunk_def)
  obtain evs where e: "keepalive_anthropic_sse jt ws (DispatchReady ?chunks) model message_id = (evs, True)"
      "client_run AwaitStart evs = Some Finished"
    using whole_message_read [OF assms(5,4,6)] by blast
  moreover have "received_texts evs = sent_texts ?chunks"
    using keepalive_texts [OF assms(5) _ e(1)] assms(4) by (simp add: orderly_dispatch_def)
  ultimately show ?thesis unfolding read by blast
qed

lemma sample_cs_orderly:
  "orderly_dispatch (DispatchReady (List.map Inr [hello_chunk, end_chunk] :: llm_stream_error chunk_stream))"
  by (simp add: orderly_dispatch_def orderly_def hello_chunk_def end_chunk_def sample_chunk_defs stream_calls_def item_calls_def
      first_delta_def delta_calls_def closing_item_def pieces_def map_filter_simps)

lemma sample_cs_events:
  "length (chunks_to_anthropic_content_sse (List.map Inr [hello_chunk, end_chunk] :: llm_stream_error chunk_stream)) = 5"
  by (simp add: chunks_to_anthropic_content_sse_def hello_chunk_def end_chunk_def sample_chunk_defs machine_defs map_stop_reason_def
      saturating_add_def)

lemma sample_cs_waits:
  "dispatch_waits (DispatchReady (List.map Inr [hello_chunk, end_chunk] :: llm_stream_error chunk_stream)) \<le> count_list sample_wakes BackendReady"
proof -
  have "dispatch_waits (DispatchReady (List.map Inr [hello_chunk, end_chunk] :: llm_stream_error chunk_stream)) = 7"
    unfolding dispatch_waits_def using sample_cs_events by simp
  moreover have "count_list sample_wakes BackendReady = 16" by (simp add: sample_wakes_def numeral_eq_Suc)
  ultimately show ?thesis by simp
qed

theorem backend_bytes_reach_client_witness:
  "\<exists>evs. keepalive_anthropic_sse sample_json_text sample_wakes
       (DispatchReady (sse_bytes_to_chunks sample_from_str
         (List.map NetBytes [str_bytes ''dat'', str_bytes ''a: '' @ [0xC3, 0xA9], [10, 10] @ sse_text [[123, 125]]]))) ''m'' ''msg''
      = (evs, True)
    \<and> client_run AwaitStart evs = Some Finished \<and> received_texts evs = [''hi'']"
proof -
  have "list_all (\<lambda>c. plain_payload (sample_write c) \<and> sample_from_str (sample_write c) = Some c) [hello_chunk, end_chunk]"
    using hello_chunk_end by (simp add: sample_write_def sample_from_str_def plain_payload_def str_bytes_def NEWLINE_def)
  moreover have "concat [str_bytes ''dat'', str_bytes ''a: '' @ [0xC3, 0xA9], [10, 10] @ sse_text [[123, 125]]]
      = sse_text (List.map sample_write [hello_chunk, end_chunk]) @ []"
    using hello_chunk_end split_reads_text by (simp add: sample_write_def)
  moreover have "sent_texts (List.map Inr [hello_chunk, end_chunk] :: llm_stream_error chunk_stream) = [''hi'']"
    by (simp add: sent_texts_def map_filter_simps first_delta_def delta_texts_def hello_chunk_def end_chunk_def sample_chunk_defs)
  ultimately show ?thesis
    using backend_bytes_reach_client [OF split_reads _ _ sample_cs_orderly sample_writes_json sample_cs_waits,
        of sample_write "[]" sample_from_str "''m''" "''msg''"] by simp
qed

end
