(* ===== verification/Spec2Isabelle.thy ===== *)
theory Spec2Isabelle
  imports Worker_Distill Breaker Acl Vault_Rescan Sidecar_Run Gateway_Provider
begin

text \<open>Verification library of the gradatum workspace.\<close>

end
